(* ===== verification/Prelude.thy ===== *)
theory Prelude
  imports Complex_Main "HOL-Library.AList" "HOL-Library.Sublist" "HOL-Library.Word"
begin

text \<open>
  Shared vocabulary of the development: the type names of the model, the fragment of the
  JavaScript string and \<open>Map\<close> library the gateway uses, and the generic lemmas the component
  theories build on.

  Strings are lists of code units (\<^typ>\<open>string\<close>); the gateway only inspects ASCII characters.
  A JavaScript \<open>Map\<close> keeps insertion order and overwrites in place, which is what the library's
  \<^const>\<open>AList.update\<close> does on an association list; \<open>Map.delete\<close> is \<^const>\<open>AList.delete\<close>,
  \<open>Map.get\<close> is \<^const>\<open>map_of\<close> and \<open>Map.size\<close> is \<^const>\<open>length\<close>.
  Time stamps (\<open>Date.now()\<close>) are integral numbers of milliseconds.
\<close>

named_theorems js_defs \<open>definitions of the JavaScript library fragment, for evaluation\<close>
named_theorems inv_intros \<open>preservation lemmas of the component invariants\<close>

type_synonym ms = int
type_synonym ('k, 'v) jsmap = "('k \<times> 'v) list"

section \<open>JavaScript strings\<close>

text \<open>\<open>s.split(c)\<close> for a one-character separator.\<close>

fun split_on :: "char \<Rightarrow> string \<Rightarrow> string list" where
  "split_on c [] = [[]]"
| "split_on c (x # xs) =
     (if x = c then [] # split_on c xs
      else (case split_on c xs of [] \<Rightarrow> [[x]] | y # ys \<Rightarrow> (x # y) # ys))"

text \<open>\<open>s.slice(0, s.indexOf(c))\<close> when \<open>c\<close> occurs and \<open>s\<close> itself when it does not.\<close>

definition before_char :: "char \<Rightarrow> string \<Rightarrow> string" where
  "before_char c s = takeWhile (\<lambda>x. x \<noteq> c) s"

fun join_with :: "string \<Rightarrow> string list \<Rightarrow> string" where
  "join_with sep [] = []"
| "join_with sep [x] = x"
| "join_with sep (x # y # zs) = x @ sep @ join_with sep (y # zs)"

definition js_space :: "char \<Rightarrow> bool" where
  "js_space c \<longleftrightarrow> c \<in> set [CHR 0x20, CHR 0x09, CHR 0x0A, CHR 0x0B, CHR 0x0C, CHR 0x0D, CHR 0xA0]"

definition js_trim :: "string \<Rightarrow> string" where
  "js_trim s = rev (dropWhile js_space (rev (dropWhile js_space s)))"

definition upper_char :: "char \<Rightarrow> char" where
  "upper_char c = (let n = of_char c :: nat in if 97 \<le> n \<and> n \<le> 122 then char_of (n - 32) else c)"

definition lower_char :: "char \<Rightarrow> char" where
  "lower_char c = (let n = of_char c :: nat in if 65 \<le> n \<and> n \<le> 90 then char_of (n + 32) else c)"

definition to_upper :: "string \<Rightarrow> string" where
  "to_upper s = map upper_char s"

definition to_lower :: "string \<Rightarrow> string" where
  "to_lower s = map lower_char s"

definition is_digit :: "char \<Rightarrow> bool" where
  "is_digit c \<longleftrightarrow> (let n = of_char c :: nat in 48 \<le> n \<and> n \<le> 57)"

declare before_char_def [js_defs] js_space_def [js_defs] js_trim_def [js_defs]
  upper_char_def [js_defs] lower_char_def [js_defs] to_upper_def [js_defs] to_lower_def [js_defs]
  is_digit_def [js_defs]

lemma split_on_nonempty [simp]: "split_on c s \<noteq> []"
  by (cases s) (auto split: list.splits)

lemma hd_split_on [simp]: "hd (split_on c s) = before_char c s"
proof (induction s)
  case Nil
  show ?case by (simp add: before_char_def)
next
  case (Cons x xs)
  obtain y ys where "split_on c xs = y # ys"
    by (meson list.exhaust split_on_nonempty)
  with Cons show ?case by (simp add: before_char_def)
qed

text \<open>The second field of a text split at a separator, as a position in the text.\<close>

lemma second_field:
  assumes "f = (case tl (split_on c s) of [] \<Rightarrow> [] | t # ts \<Rightarrow> t)" and "f \<noteq> []"
  shows "\<exists>rest. s = before_char c s @ [c] @ f @ rest \<and> c \<notin> set f \<and> (rest = [] \<or> hd rest = c)"
  using assms
proof (induction s)
  case (Cons x s)
  obtain y ys where ys: "split_on c s = y # ys" by (meson list.exhaust split_on_nonempty)
  have y: "y = before_char c s" using hd_split_on [of c s] ys by simp
  show ?case
  proof (cases "x = c")
    case True
    moreover have "s = takeWhile (\<lambda>x. x \<noteq> c) s @ dropWhile (\<lambda>x. x \<noteq> c) s" by simp
    moreover have "dropWhile (\<lambda>x. x \<noteq> c) s = [] \<or> hd (dropWhile (\<lambda>x. x \<noteq> c) s) = c"
      using hd_dropWhile [of "\<lambda>x. x \<noteq> c" s] by blast
    moreover have "f = takeWhile (\<lambda>x. x \<noteq> c) s" using Cons.prems(1) True ys y by (simp add: before_char_def)
    ultimately have "s = f @ dropWhile (\<lambda>x. x \<noteq> c) s" "dropWhile (\<lambda>x. x \<noteq> c) s = [] \<or> hd (dropWhile (\<lambda>x. x \<noteq> c) s) = c"
      "c \<notin> set f" by (auto dest: set_takeWhileD)
    with True show ?thesis by (intro exI [of _ "dropWhile (\<lambda>x. x \<noteq> c) s"]) (simp add: before_char_def)
  next
    case False
    then show ?thesis using Cons ys by (auto simp: before_char_def)
  qed
qed simp

lemma split_on_join: "join_with [c] (split_on c s) = s"
proof (induction s)
  case Nil
  show ?case by simp
next
  case (Cons x xs)
  obtain y ys where ys: "split_on c xs = y # ys"
    by (meson list.exhaust split_on_nonempty)
  with Cons have "join_with [c] (y # ys) = xs" by simp
  then show ?case using ys by (cases ys) auto
qed

lemma before_char_notin [simp]: "c \<notin> set (before_char c s)"
  by (auto simp: before_char_def dest: set_takeWhileD)

lemma before_char_id [simp]: "c \<notin> set s \<Longrightarrow> before_char c s = s"
  by (auto simp: before_char_def takeWhile_eq_all_conv)

text \<open>
  Two strings joined by a separator that occurs in neither left part determine their parts:
  the fact every concatenated key of the gateway depends on.
\<close>

lemma sep_inject:
  assumes "c \<notin> set a" and "c \<notin> set a'" and "a @ c # b = a' @ c # b'"
  shows "a = a' \<and> b = b'"
proof -
  have "takeWhile (\<lambda>x. x \<noteq> c) (a @ c # b) = a"
    using assms(1) by (auto simp: takeWhile_append)
  moreover have "takeWhile (\<lambda>x. x \<noteq> c) (a' @ c # b') = a'"
    using assms(2) by (auto simp: takeWhile_append)
  ultimately have "a = a'" using assms(3) by simp
  with assms(3) show ?thesis by simp
qed

section \<open>Insertion-ordered maps\<close>

abbreviation jsmap_wf :: "('k, 'v) jsmap \<Rightarrow> bool" where
  "jsmap_wf m \<equiv> distinct (map fst m)"

lemma map_of_update [simp]: "map_of (AList.update k v m) = (map_of m)(k \<mapsto> v)"
  by (simp add: AList.update_conv')

lemma map_of_delete [simp]: "map_of (AList.delete k m) = (map_of m)(k := None)"
  by (simp add: AList.delete_conv')

lemma jsmap_wf_update [inv_intros]: "jsmap_wf m \<Longrightarrow> jsmap_wf (AList.update k v m)"
  by (rule AList.distinct_update)

lemma jsmap_wf_delete [inv_intros]: "jsmap_wf m \<Longrightarrow> jsmap_wf (AList.delete k m)"
  by (rule AList.distinct_delete)

lemma update_fresh: "k \<notin> fst ` set m \<Longrightarrow> AList.update k v m = m @ [(k, v)]"
  by (induction m) auto

lemma length_update_le: "length (AList.update k v m) \<le> Suc (length m)"
  by (induction m) auto

lemma length_delete_present:
  assumes "jsmap_wf m" and "map_of m k = Some v"
  shows "Suc (length (AList.delete k m)) = length m"
  using assms
proof (induction m)
  case Nil
  then show ?case by simp
next
  case (Cons p m)
  have "AList.delete k m = m" if "k \<notin> fst ` set m"
    using that by (simp add: AList.delete_idem)
  with Cons show ?case
    by (cases p) (auto split: if_splits)
qed

section \<open>Lists\<close>

lemma dropWhile_sorted_filter:
  fixes f :: "'a \<Rightarrow> 'b::linorder"
  assumes "sorted_wrt (\<lambda>x y. f x \<le> f y) xs"
  shows "dropWhile (\<lambda>x. f x < c) xs = filter (\<lambda>x. c \<le> f x) xs"
  using assms
proof (induction xs)
  case Nil
  show ?case by simp
next
  case (Cons x xs)
  show ?case
  proof (cases "f x < c")
    case True
    with Cons show ?thesis by simp
  next
    case False
    with Cons.prems have "\<forall>y \<in> set xs. c \<le> f y" by fastforce
    with False show ?thesis by (auto simp: filter_id_conv intro: sym)
  qed
qed

lemma sorted_wrt_dropWhile: "sorted_wrt P xs \<Longrightarrow> sorted_wrt P (dropWhile Q xs)"
  by (induction xs) auto

lemma find_append: "find P (xs @ ys) = (case find P xs of None \<Rightarrow> find P ys | Some x \<Rightarrow> Some x)"
  by (induction xs) auto

end
