(* ===== verification/Events.thy ===== *)
theory Events
  imports Prelude
begin

text \<open>
  The event vocabulary of the in-process bus: the threat-signal names and payload of
  \<open>src/src/policy/policy-events.ts\<close>, the metric events of \<open>src/src/metrics/metrics-events.ts\<close> and the
  event-to-payload table of \<open>src/src/shared/typed-events.ts\<close>. A component that emits returns the
  list of events it emitted, in order; the theories that own the subscribers consume them.
\<close>

datatype signal_name =
    POLICY_DENY
  | AUTH_INVALID_TOKEN
  | HONEYPOT_TRIGGER
  | MFA_FAILED
  | MFA_RATE_LIMITED
  | MFA_ENROLLMENT_RESET
  | MFA_ENROLLMENT_CONFIRMED
  | MFA_INFRA_ERROR
  | MFA_SECRET_DECRYPT_FAILED
  | AUDIT_SIGNAL

text \<open>The optional fields of the payload interface are options; \<open>ts\<close> is always present.\<close>

record ThreatSignalPayload =
  pl_type :: "signal_name option"
  pl_ip :: "string option"
  pl_userId :: "string option"
  pl_ja4h :: "string option"
  pl_ts :: ms
  pl_resource :: "string option"
  pl_action :: "string option"
  pl_op :: "string option"
  pl_deviceId :: "string option"
  pl_reason :: "string option"
  pl_jti :: "string option"
  pl_deleted :: "bool option"
  pl_requestId :: "string option"

definition empty_payload :: "ms \<Rightarrow> ThreatSignalPayload" where
  "empty_payload ts = \<lparr>pl_type = None, pl_ip = None, pl_userId = None, pl_ja4h = None, pl_ts = ts,
     pl_resource = None, pl_action = None, pl_op = None, pl_deviceId = None, pl_reason = None,
     pl_jti = None, pl_deleted = None, pl_requestId = None\<rparr>"

text \<open>
  One constructor per row of the typed event map: the ten threat signals share the payload type,
  the five metric events carry what their row declares.
\<close>

datatype bus_event =
    Signal signal_name ThreatSignalPayload
  | FINGERPRINT_BLACKLIST_SIZE_CHANGED nat
  | FINGERPRINT_DRIFT_DETECTED
  | AUTH_TOKEN_REVOKED
  | AUDIT_RECORD_FAILED
  | TRUST_PROVIDER_FAULT string

fun signal_of :: "bus_event \<Rightarrow> signal_name option" where
  "signal_of (Signal s p) = Some s"
| "signal_of _ = None"

text \<open>The threat signals among the emitted events, in emission order.\<close>

definition signals :: "bus_event list \<Rightarrow> signal_name list" where
  "signals es = List.map_filter signal_of es"

lemma signals_Nil [simp]: "signals [] = []"
  by (simp add: signals_def map_filter_simps)

lemma signals_Cons [simp]:
  "signals (e # es) = (case signal_of e of None \<Rightarrow> signals es | Some s \<Rightarrow> s # signals es)"
  by (simp add: signals_def map_filter_simps split: option.splits)

lemma signals_append [simp]: "signals (xs @ ys) = signals xs @ signals ys"
  by (induction xs) (auto split: option.splits)

end
