(* ===== verification/Config.thy ===== *)
theory Config
  imports Prelude
begin

text \<open>
  The configuration slices of \<open>src/src/config/slices\<close> as records, and the part of the boot-time
  schema of \<open>src/src/config/config.module.ts\<close> that constrains them: the range of the policy and
  threat variables and the cross-field validator, which reports the first violated inequality.
  Numbers the schema declares \<open>integer\<close>, and durations, are \<^typ>\<open>int\<close>; thresholds are \<^typ>\<open>real\<close>.
\<close>

record PolicyConfig =
  modelPath :: string
  csvPath :: string
  challengeThreshold :: real
  denyThreshold :: real
  elevatedChallengeThreshold :: real
  elevatedDenyThreshold :: real
  criticalChallengeThreshold :: real
  criticalDenyThreshold :: real
  threatWindowMs :: int
  threatWindowMaxEvents :: int
  threatElevatedDenies :: int
  threatCriticalDenies :: int
  threatElevatedInvalidTokens :: int
  threatCriticalInvalidTokens :: int
  threatElevatedHoneypot :: int
  threatCriticalHoneypot :: int
  threatElevatedMfaRateLimited :: int
  threatCriticalMfaRateLimited :: int
  threatCooldownMs :: int

record MfaConfig =
  mfa_jwtSecret :: string
  totpEncryptionKey :: string
  challengeTtlMs :: int
  tokenTtlMs :: int
  mfa_rateLimitMax :: int
  mfa_rateLimitWindowMs :: int
  issuerName :: string
  enrollPendingTtlMs :: int

record TrustConfig =
  knownThreshold :: int
  decayHalfLifeMs :: int
  anomalyWarmupN :: int
  frequencyWindowMs :: int
  frequencyNormalMax :: int

record HashcashConfig =
  hmacSecret :: string
  hc_challengeTtlMs :: int
  usedNonceCapacity :: int
  triggerThreshold :: "real option"
  difficultyMin :: int
  difficultyMax :: int

record AuditConfig =
  walBaseDelayMs :: int
  walMaxRetries :: int

record AuthConfig =
  jwtSecret :: string
  jwtPublicKey :: "string option"
  jwksUri :: "string option"
  jwtIssuer :: "string option"
  jwtAudience :: "string option"

record ProxyConfig =
  serviceRegistry :: string
  cbVolumeThreshold :: int
  cbErrorThreshold :: int
  cbResetTimeout :: int
  maxRetries :: int
  boplaPolicyPath :: string

record ServerConfig =
  sv_port :: int
  sv_nodeEnv :: string
  sv_corsOrigin :: string
  sv_rateLimitWindowMs :: int
  sv_rateLimitMax :: int
  sv_databaseUrl :: string
  sv_blacklistTtlMs :: int
  sv_honeypotRoutes :: "string list"
  sv_dbPoolMax :: "int option"

record MtlsConfig =
  caCertPath :: string
  clientCertPath :: string
  clientKeyPath :: string
  allowedSubjects :: "string list"

text \<open>The per-variable ranges of the policy and threat block of the schema.\<close>

definition unit_range :: "real \<Rightarrow> bool" where
  "unit_range x \<longleftrightarrow> 0 \<le> x \<and> x \<le> 1"

definition policy_ranges :: "PolicyConfig \<Rightarrow> bool" where
  "policy_ranges c \<longleftrightarrow>
     unit_range (challengeThreshold c) \<and> unit_range (denyThreshold c)
   \<and> unit_range (elevatedChallengeThreshold c) \<and> unit_range (elevatedDenyThreshold c)
   \<and> unit_range (criticalChallengeThreshold c) \<and> unit_range (criticalDenyThreshold c)
   \<and> 1000 \<le> threatWindowMs c \<and> 1 \<le> threatWindowMaxEvents c
   \<and> 1 \<le> threatElevatedDenies c \<and> 1 \<le> threatCriticalDenies c
   \<and> 1 \<le> threatElevatedInvalidTokens c \<and> 1 \<le> threatCriticalInvalidTokens c
   \<and> 1 \<le> threatElevatedHoneypot c \<and> 1 \<le> threatCriticalHoneypot c
   \<and> 1 \<le> threatElevatedMfaRateLimited c \<and> 1 \<le> threatCriticalMfaRateLimited c
   \<and> 1000 \<le> threatCooldownMs c"

text \<open>
  The cross-field validator: the first inequality that fails is reported by its message,
  \<^const>\<open>None\<close> is acceptance.
\<close>

definition cross_field_check :: "PolicyConfig \<Rightarrow> MfaConfig \<Rightarrow> string option" where
  "cross_field_check p m =
     (if \<not> elevatedChallengeThreshold p < challengeThreshold p
        then Some ''POLICY_ELEVATED_CHALLENGE_THRESHOLD must be < POLICY_CHALLENGE_THRESHOLD''
      else if \<not> criticalChallengeThreshold p < elevatedChallengeThreshold p
        then Some ''POLICY_CRITICAL_CHALLENGE_THRESHOLD must be < POLICY_ELEVATED_CHALLENGE_THRESHOLD''
      else if \<not> elevatedDenyThreshold p < denyThreshold p
        then Some ''POLICY_ELEVATED_DENY_THRESHOLD must be < POLICY_DENY_THRESHOLD''
      else if \<not> criticalDenyThreshold p < elevatedDenyThreshold p
        then Some ''POLICY_CRITICAL_DENY_THRESHOLD must be < POLICY_ELEVATED_DENY_THRESHOLD''
      else if \<not> threatElevatedDenies p < threatCriticalDenies p
        then Some ''THREAT_ELEVATED_DENIES must be < THREAT_CRITICAL_DENIES''
      else if \<not> threatElevatedInvalidTokens p < threatCriticalInvalidTokens p
        then Some ''THREAT_ELEVATED_INVALID_TOKENS must be < THREAT_CRITICAL_INVALID_TOKENS''
      else if \<not> threatElevatedHoneypot p < threatCriticalHoneypot p
        then Some ''THREAT_ELEVATED_HONEYPOT must be < THREAT_CRITICAL_HONEYPOT''
      else if \<not> threatElevatedMfaRateLimited p < threatCriticalMfaRateLimited p
        then Some ''THREAT_ELEVATED_MFA_RATE_LIMITED must be < THREAT_CRITICAL_MFA_RATE_LIMITED''
      else if \<not> challengeTtlMs m < tokenTtlMs m
        then Some ''MFA_CHALLENGE_TTL_MS must be < MFA_TOKEN_TTL_MS''
      else None)"

definition config_valid :: "PolicyConfig \<Rightarrow> MfaConfig \<Rightarrow> bool" where
  "config_valid p m \<longleftrightarrow> policy_ranges p \<and> cross_field_check p m = None"

lemma cross_field_check_None:
  "cross_field_check p m = None \<longleftrightarrow>
     elevatedChallengeThreshold p < challengeThreshold p
   \<and> criticalChallengeThreshold p < elevatedChallengeThreshold p
   \<and> elevatedDenyThreshold p < denyThreshold p
   \<and> criticalDenyThreshold p < elevatedDenyThreshold p
   \<and> threatElevatedDenies p < threatCriticalDenies p
   \<and> threatElevatedInvalidTokens p < threatCriticalInvalidTokens p
   \<and> threatElevatedHoneypot p < threatCriticalHoneypot p
   \<and> threatElevatedMfaRateLimited p < threatCriticalMfaRateLimited p
   \<and> challengeTtlMs m < tokenTtlMs m"
  by (simp add: cross_field_check_def split: if_splits)

lemma config_validD:
  assumes "config_valid p m"
  shows "0 < threatCooldownMs p" "0 < threatWindowMs p" "0 < threatWindowMaxEvents p"
    "threatElevatedDenies p < threatCriticalDenies p"
    "threatElevatedInvalidTokens p < threatCriticalInvalidTokens p"
    "threatElevatedHoneypot p < threatCriticalHoneypot p"
    "threatElevatedMfaRateLimited p < threatCriticalMfaRateLimited p"
  using assms by (auto simp: config_valid_def policy_ranges_def cross_field_check_None)

text \<open>The defaults of the schema: the configuration the witnesses of the development run with.\<close>

definition default_policy :: PolicyConfig where
  "default_policy = \<lparr>modelPath = ''policy/model.conf'', csvPath = ''policy/policy.csv'', challengeThreshold = 1/2, denyThreshold = 4/5,
     elevatedChallengeThreshold = 3/10, elevatedDenyThreshold = 3/5,
     criticalChallengeThreshold = 1/5, criticalDenyThreshold = 2/5,
     threatWindowMs = 300000, threatWindowMaxEvents = 10000,
     threatElevatedDenies = 20, threatCriticalDenies = 50,
     threatElevatedInvalidTokens = 30, threatCriticalInvalidTokens = 80,
     threatElevatedHoneypot = 5, threatCriticalHoneypot = 15,
     threatElevatedMfaRateLimited = 5, threatCriticalMfaRateLimited = 15,
     threatCooldownMs = 600000\<rparr>"

definition default_mfa :: "string \<Rightarrow> string \<Rightarrow> MfaConfig" where
  "default_mfa secret key = \<lparr>mfa_jwtSecret = secret, totpEncryptionKey = key,
     challengeTtlMs = 300000, tokenTtlMs = 600000, mfa_rateLimitMax = 5,
     mfa_rateLimitWindowMs = 60000, issuerName = ''ZT-Gateway'', enrollPendingTtlMs = 600000\<rparr>"

definition default_trust :: TrustConfig where
  "default_trust = \<lparr>knownThreshold = 3, decayHalfLifeMs = 604800000, anomalyWarmupN = 20,
     frequencyWindowMs = 60000, frequencyNormalMax = 30\<rparr>"

definition default_audit :: AuditConfig where
  "default_audit = \<lparr>walBaseDelayMs = 50, walMaxRetries = 3\<rparr>"

definition default_hashcash :: "string \<Rightarrow> HashcashConfig" where
  "default_hashcash secret = \<lparr>hmacSecret = secret, hc_challengeTtlMs = 120000,
     usedNonceCapacity = 10000, triggerThreshold = Some (7/10),
     difficultyMin = 18, difficultyMax = 22\<rparr>"

lemma default_config_valid: "config_valid default_policy (default_mfa s k)"
  by (simp add: config_valid_def policy_ranges_def unit_range_def cross_field_check_None
      default_policy_def default_mfa_def)

end
