(* ===== verification/Threat.thy ===== *)
theory Threat
  imports Events Config
begin

text \<open>
  The threat-escalation service (\<open>src/src/policy/threat-escalation.service.ts\<close>) and the metrics it
  owns (\<open>src/src/policy/policy-metrics.ts\<close>): a bounded sliding window of signals, a three-level
  state machine that escalates on per-type counts and cools down on reads, and a sticky manual
  override. The clock is injectable in the source; here each operation takes the value it reads.
\<close>

section \<open>State\<close>

datatype ThreatLevel = Normal | Elevated | Critical

text \<open>The \<open>order\<close> table of \<open>recomputeLevel\<close>; it makes the levels a linear order.\<close>

fun level_order :: "ThreatLevel \<Rightarrow> nat" where
  "level_order Normal = 0"
| "level_order Elevated = 1"
| "level_order Critical = 2"

lemma level_order_inject [simp]: "level_order a = level_order b \<longleftrightarrow> a = b"
  by (cases a; cases b) auto

instantiation ThreatLevel :: linorder
begin

definition less_eq_ThreatLevel :: "ThreatLevel \<Rightarrow> ThreatLevel \<Rightarrow> bool" where
  "less_eq_ThreatLevel a b \<longleftrightarrow> level_order a \<le> level_order b"

definition less_ThreatLevel :: "ThreatLevel \<Rightarrow> ThreatLevel \<Rightarrow> bool" where
  "less_ThreatLevel a b \<longleftrightarrow> level_order a < level_order b"

instance
  by standard (auto simp: less_eq_ThreatLevel_def less_ThreatLevel_def)

end

lemmas level_less_defs = less_eq_ThreatLevel_def less_ThreatLevel_def

lemma level_le_simps [simp]:
  "Normal \<le> l" "l \<le> Critical" "Elevated \<le> l \<longleftrightarrow> l \<noteq> Normal" "l \<le> Elevated \<longleftrightarrow> l \<noteq> Critical"
  "l \<le> Normal \<longleftrightarrow> l = Normal" "Critical \<le> l \<longleftrightarrow> l = Critical"
  by (cases l; simp add: level_less_defs)+

record WindowEvent =
  ev_ts :: ms
  ev_type :: signal_name

datatype decision_label = L_allow | L_challenge | L_deny

record PolicyMetrics =
  pm_decisions :: "decision_label \<Rightarrow> nat"
  pm_errors :: nat
  pm_threatLevel :: "ThreatLevel \<Rightarrow> nat"
  pm_transitions :: "ThreatLevel \<Rightarrow> ThreatLevel \<Rightarrow> nat"

definition empty_metrics :: PolicyMetrics where
  "empty_metrics = \<lparr>pm_decisions = (\<lambda>_. 0), pm_errors = 0, pm_threatLevel = (\<lambda>_. 0),
     pm_transitions = (\<lambda>_ _. 0)\<rparr>"

text \<open>\<open>setThreatLevel\<close>: three gauge writes that leave exactly one level at 1.\<close>

definition setThreatLevel :: "ThreatLevel \<Rightarrow> PolicyMetrics \<Rightarrow> PolicyMetrics" where
  "setThreatLevel l m = m\<lparr>pm_threatLevel := (pm_threatLevel m)
     (Normal := (if l = Normal then 1 else 0),
      Elevated := (if l = Elevated then 1 else 0),
      Critical := (if l = Critical then 1 else 0))\<rparr>"

record Threat =
  events :: "WindowEvent list"
  level :: ThreatLevel
  lastTransitionAt :: ms
  lastSignalAt :: ms
  manualOverride :: "ThreatLevel option"
  metrics :: PolicyMetrics

definition init_threat :: "ms \<Rightarrow> Threat" where
  "init_threat now = \<lparr>events = [], level = Normal, lastTransitionAt = now, lastSignalAt = now,
     manualOverride = None, metrics = setThreatLevel Normal empty_metrics\<rparr>"

section \<open>Operations\<close>

text \<open>\<open>transitionTo\<close>; the log line is not modelled, the transition counter and the gauge are.\<close>

definition transitionTo :: "ThreatLevel \<Rightarrow> ms \<Rightarrow> bool \<Rightarrow> Threat \<Rightarrow> Threat" where
  "transitionTo next now manual s =
     (let from = level s in
      if from = next \<and> \<not> manual then s
      else s\<lparr>level := next, lastTransitionAt := now,
             metrics := setThreatLevel next ((metrics s)\<lparr>pm_transitions :=
               (pm_transitions (metrics s))(from := (pm_transitions (metrics s) from)(next :=
                  Suc (pm_transitions (metrics s) from next)))\<rparr>)\<rparr>)"

text \<open>\<open>evict\<close>: the index loop stops at the first event inside the window and splices the prefix.\<close>

definition evict :: "PolicyConfig \<Rightarrow> ms \<Rightarrow> Threat \<Rightarrow> Threat" where
  "evict cfg now s =
     (let cutoff = now - threatWindowMs cfg
      in s\<lparr>events := dropWhile (\<lambda>e. ev_ts e < cutoff) (events s)\<rparr>)"

text \<open>\<open>countByType\<close>: an object with one counter per type seen.\<close>

fun countByType :: "WindowEvent list \<Rightarrow> (signal_name \<rightharpoonup> int) \<Rightarrow> (signal_name \<rightharpoonup> int)" where
  "countByType [] c = c"
| "countByType (e # es) c =
     countByType es (c(ev_type e \<mapsto> (case c (ev_type e) of None \<Rightarrow> 0 | Some n \<Rightarrow> n) + 1))"

definition or_zero :: "int option \<Rightarrow> int" where
  "or_zero x = (case x of None \<Rightarrow> 0 | Some n \<Rightarrow> n)"

definition candidates :: "PolicyConfig \<Rightarrow> (signal_name \<rightharpoonup> int) \<Rightarrow> ThreatLevel list" where
  "candidates cfg c =
     [Normal]
     @ (if or_zero (c POLICY_DENY) \<ge> threatElevatedDenies cfg then [Elevated] else [])
     @ (if or_zero (c AUTH_INVALID_TOKEN) \<ge> threatElevatedInvalidTokens cfg then [Elevated] else [])
     @ (if or_zero (c HONEYPOT_TRIGGER) \<ge> threatElevatedHoneypot cfg then [Elevated] else [])
     @ (if or_zero (c POLICY_DENY) \<ge> threatCriticalDenies cfg then [Critical] else [])
     @ (if or_zero (c AUTH_INVALID_TOKEN) \<ge> threatCriticalInvalidTokens cfg then [Critical] else [])
     @ (if or_zero (c HONEYPOT_TRIGGER) \<ge> threatCriticalHoneypot cfg then [Critical] else [])
     @ (if or_zero (c MFA_RATE_LIMITED) \<ge> threatElevatedMfaRateLimited cfg then [Elevated] else [])
     @ (if or_zero (c MFA_RATE_LIMITED) \<ge> threatCriticalMfaRateLimited cfg then [Critical] else [])"

fun max_level :: "ThreatLevel list \<Rightarrow> ThreatLevel \<Rightarrow> ThreatLevel" where
  "max_level [] next = next"
| "max_level (cand # cs) next =
     max_level cs (if level_order cand > level_order next then cand else next)"

definition recomputeLevel :: "PolicyConfig \<Rightarrow> ms \<Rightarrow> Threat \<Rightarrow> Threat" where
  "recomputeLevel cfg now s =
     (if manualOverride s \<noteq> None then s
      else let s = evict cfg now s;
               c = countByType (events s) Map.empty;
               next = max_level (candidates cfg c) Normal
           in if next \<noteq> level s then transitionTo next now False s else s)"

definition record_signal :: "PolicyConfig \<Rightarrow> ms \<Rightarrow> signal_name \<Rightarrow> Threat \<Rightarrow> Threat" where
  "record_signal cfg now t s =
     (let s = s\<lparr>events := events s @ [\<lparr>ev_ts = now, ev_type = t\<rparr>]\<rparr>;
          n = int (length (events s));
          s = (if n > threatWindowMaxEvents cfg
               then s\<lparr>events := drop (nat (n - threatWindowMaxEvents cfg)) (events s)\<rparr> else s);
          s = evict cfg now s;
          s = s\<lparr>lastSignalAt := now\<rparr>
      in recomputeLevel cfg now s)"

text \<open>
  The six \<open>@OnEvent\<close> subscribers: each calls \<open>record\<close> with its own event name; the other signal
  names of the bus have no subscriber here.
\<close>

fun subscribed :: "signal_name \<Rightarrow> bool" where
  "subscribed POLICY_DENY = True"
| "subscribed AUTH_INVALID_TOKEN = True"
| "subscribed HONEYPOT_TRIGGER = True"
| "subscribed MFA_FAILED = True"
| "subscribed MFA_RATE_LIMITED = True"
| "subscribed AUDIT_SIGNAL = True"
| "subscribed _ = False"

fun on_event :: "PolicyConfig \<Rightarrow> ms \<Rightarrow> bus_event \<Rightarrow> Threat \<Rightarrow> Threat" where
  "on_event cfg now (Signal n p) s = (if subscribed n then record_signal cfg now n s else s)"
| "on_event cfg now _ s = s"

fun cooldown_steps :: "nat \<Rightarrow> ms \<Rightarrow> Threat \<Rightarrow> Threat" where
  "cooldown_steps 0 now s = s"
| "cooldown_steps (Suc n) now s =
     (case level s of
        Critical \<Rightarrow> cooldown_steps n now (transitionTo Elevated now False s)
      | Elevated \<Rightarrow> cooldown_steps n now (transitionTo Normal now False s)
      | Normal \<Rightarrow> s)"

definition maybeCooldown :: "PolicyConfig \<Rightarrow> ms \<Rightarrow> Threat \<Rightarrow> Threat" where
  "maybeCooldown cfg now s =
     (if manualOverride s \<noteq> None then s
      else let idle = now - lastSignalAt s in
           if idle < threatCooldownMs cfg then s
           else let stepsElapsed = (now - lastTransitionAt s) div threatCooldownMs cfg in
                if stepsElapsed \<le> 0 then s else cooldown_steps (nat stepsElapsed) now s)"

definition effectiveLevel :: "Threat \<Rightarrow> ThreatLevel" where
  "effectiveLevel s = (case manualOverride s of None \<Rightarrow> level s | Some l \<Rightarrow> l)"

fun challenge_at :: "PolicyConfig \<Rightarrow> ThreatLevel \<Rightarrow> real" where
  "challenge_at cfg Critical = criticalChallengeThreshold cfg"
| "challenge_at cfg Elevated = elevatedChallengeThreshold cfg"
| "challenge_at cfg Normal = challengeThreshold cfg"

fun deny_at :: "PolicyConfig \<Rightarrow> ThreatLevel \<Rightarrow> real" where
  "deny_at cfg Critical = criticalDenyThreshold cfg"
| "deny_at cfg Elevated = elevatedDenyThreshold cfg"
| "deny_at cfg Normal = denyThreshold cfg"

definition currentChallengeThreshold :: "PolicyConfig \<Rightarrow> ms \<Rightarrow> Threat \<Rightarrow> real \<times> Threat" where
  "currentChallengeThreshold cfg now s =
     (let s = maybeCooldown cfg now s in (challenge_at cfg (effectiveLevel s), s))"

definition currentDenyThreshold :: "PolicyConfig \<Rightarrow> ms \<Rightarrow> Threat \<Rightarrow> real \<times> Threat" where
  "currentDenyThreshold cfg now s =
     (let s = maybeCooldown cfg now s in (deny_at cfg (effectiveLevel s), s))"

definition setManualLevel :: "ThreatLevel \<Rightarrow> ms \<Rightarrow> Threat \<Rightarrow> Threat" where
  "setManualLevel l now s =
     (let s = s\<lparr>manualOverride := Some l\<rparr>
      in if level s = l then s else transitionTo l now True s)"

text \<open>\<open>clearManualLevel\<close> reads the clock twice: once in \<open>maybeCooldown\<close>, once for the recompute.\<close>

definition clearManualLevel :: "PolicyConfig \<Rightarrow> ms \<Rightarrow> ms \<Rightarrow> Threat \<Rightarrow> Threat" where
  "clearManualLevel cfg now now' s =
     (let s = s\<lparr>manualOverride := None\<rparr>;
          s = maybeCooldown cfg now s
      in recomputeLevel cfg now' s)"

record Snapshot =
  sn_level :: ThreatLevel
  sn_since :: ms
  sn_signalCounts :: "signal_name \<rightharpoonup> int"
  sn_challenge :: real
  sn_deny :: real
  sn_override :: "ThreatLevel option"

text \<open>
  \<open>snapshot\<close>: the fields of the object literal are evaluated in order, so the level, the time stamp
  and the counts are read before the two threshold getters run the cooldown.
\<close>

definition snapshot :: "PolicyConfig \<Rightarrow> ms \<Rightarrow> ms \<Rightarrow> Threat \<Rightarrow> Snapshot \<times> Threat" where
  "snapshot cfg now now' s =
     (let lv = effectiveLevel s;
          since = lastTransitionAt s;
          counts = countByType (events s) Map.empty;
          (ch, s) = currentChallengeThreshold cfg now s;
          (dn, s) = currentDenyThreshold cfg now' s
      in (\<lparr>sn_level = lv, sn_since = since, sn_signalCounts = counts,
           sn_challenge = ch, sn_deny = dn, sn_override = manualOverride s\<rparr>, s))"


section \<open>Counting and the level function\<close>

text \<open>The number of window events of a type, the specification of \<open>countByType\<close>.\<close>

definition count_of :: "WindowEvent list \<Rightarrow> signal_name \<Rightarrow> int" where
  "count_of es t = int (length (filter (\<lambda>e. ev_type e = t) es))"

lemma countByType_count:
  "or_zero (countByType es c t) = or_zero (c t) + count_of es t"
proof (induction es arbitrary: c)
  case Nil
  show ?case by (simp add: count_of_def)
next
  case (Cons e es)
  then show ?case by (simp add: or_zero_def count_of_def split: option.splits)
qed

lemma countByType_empty [simp]: "or_zero (countByType es Map.empty t) = count_of es t"
  by (simp add: countByType_count) (simp add: or_zero_def)

text \<open>
  What the level should be for a given window: \<open>Critical\<close> when some counted type reaches its critical
  count, else \<open>Elevated\<close> when some type reaches its elevated count, else \<open>Normal\<close>.
\<close>

definition reaches_critical :: "PolicyConfig \<Rightarrow> WindowEvent list \<Rightarrow> bool" where
  "reaches_critical cfg es \<longleftrightarrow>
     threatCriticalDenies cfg \<le> count_of es POLICY_DENY
   \<or> threatCriticalInvalidTokens cfg \<le> count_of es AUTH_INVALID_TOKEN
   \<or> threatCriticalHoneypot cfg \<le> count_of es HONEYPOT_TRIGGER
   \<or> threatCriticalMfaRateLimited cfg \<le> count_of es MFA_RATE_LIMITED"

definition reaches_elevated :: "PolicyConfig \<Rightarrow> WindowEvent list \<Rightarrow> bool" where
  "reaches_elevated cfg es \<longleftrightarrow>
     threatElevatedDenies cfg \<le> count_of es POLICY_DENY
   \<or> threatElevatedInvalidTokens cfg \<le> count_of es AUTH_INVALID_TOKEN
   \<or> threatElevatedHoneypot cfg \<le> count_of es HONEYPOT_TRIGGER
   \<or> threatElevatedMfaRateLimited cfg \<le> count_of es MFA_RATE_LIMITED"

definition spec_level :: "PolicyConfig \<Rightarrow> WindowEvent list \<Rightarrow> ThreatLevel" where
  "spec_level cfg es =
     (if reaches_critical cfg es then Critical
      else if reaches_elevated cfg es then Elevated else Normal)"

lemma max_level_Critical: "max_level cs l = Critical \<longleftrightarrow> Critical \<in> set cs \<or> l = Critical"
proof (induction cs arbitrary: l)
  case (Cons c cs)
  then show ?case by (cases c; cases l) auto
qed simp

lemma max_level_Normal: "max_level cs l = Normal \<longleftrightarrow> set cs \<subseteq> {Normal} \<and> l = Normal"
proof (induction cs arbitrary: l)
  case (Cons c cs)
  then show ?case by (cases c; cases l) auto
qed simp

lemma max_level_candidates:
  "max_level (candidates cfg (countByType es Map.empty)) Normal = spec_level cfg es"
proof (cases "spec_level cfg es")
  case Critical
  then have "reaches_critical cfg es" by (auto simp: spec_level_def split: if_splits)
  then have "Critical \<in> set (candidates cfg (countByType es Map.empty))"
    unfolding reaches_critical_def candidates_def by auto
  then show ?thesis using Critical by (simp add: max_level_Critical)
next
  case Normal
  then have "\<not> reaches_critical cfg es" "\<not> reaches_elevated cfg es"
    by (auto simp: spec_level_def split: if_splits)
  then have "set (candidates cfg (countByType es Map.empty)) \<subseteq> {Normal}"
    unfolding reaches_critical_def reaches_elevated_def candidates_def by auto
  then show ?thesis using Normal by (simp add: max_level_Normal)
next
  case Elevated
  then have c: "\<not> reaches_critical cfg es" and e: "reaches_elevated cfg es"
    by (auto simp: spec_level_def split: if_splits)
  from c have "Critical \<notin> set (candidates cfg (countByType es Map.empty))"
    unfolding reaches_critical_def candidates_def by auto
  moreover from e have "Elevated \<in> set (candidates cfg (countByType es Map.empty))"
    unfolding reaches_elevated_def candidates_def by auto
  ultimately have "max_level (candidates cfg (countByType es Map.empty)) Normal \<noteq> Critical"
    "max_level (candidates cfg (countByType es Map.empty)) Normal \<noteq> Normal"
    by (auto simp: max_level_Critical max_level_Normal)
  then show ?thesis using Elevated by (metis ThreatLevel.exhaust)
qed

section \<open>Frame lemmas\<close>

lemma transitionTo_simps [simp]:
  "level (transitionTo n now m s) = n"
  "events (transitionTo n now m s) = events s"
  "lastSignalAt (transitionTo n now m s) = lastSignalAt s"
  "manualOverride (transitionTo n now m s) = manualOverride s"
  by (auto simp: transitionTo_def Let_def)

lemma evict_simps [simp]:
  "level (evict cfg now s) = level s"
  "lastSignalAt (evict cfg now s) = lastSignalAt s"
  "lastTransitionAt (evict cfg now s) = lastTransitionAt s"
  "manualOverride (evict cfg now s) = manualOverride s"
  "metrics (evict cfg now s) = metrics s"
  "events (evict cfg now s) = dropWhile (\<lambda>e. ev_ts e < now - threatWindowMs cfg) (events s)"
  by (auto simp: evict_def Let_def)

lemma evict_idem [simp]: "evict cfg now (evict cfg now s) = evict cfg now s"
  by (simp add: evict_def Let_def dropWhile_idem)

lemma recomputeLevel_override [simp]: "manualOverride s \<noteq> None \<Longrightarrow> recomputeLevel cfg now s = s"
  by (auto simp: recomputeLevel_def)

lemma recomputeLevel_level:
  "manualOverride s = None \<Longrightarrow> level (recomputeLevel cfg now s) = spec_level cfg (events (evict cfg now s))"
  by (simp add: recomputeLevel_def Let_def max_level_candidates del: evict_simps(6))

lemma recomputeLevel_simps [simp]:
  "lastSignalAt (recomputeLevel cfg now s) = lastSignalAt s"
  "manualOverride (recomputeLevel cfg now s) = manualOverride s"
  by (auto simp: recomputeLevel_def Let_def)

lemma recomputeLevel_events:
  "events (recomputeLevel cfg now s) =
     (if manualOverride s = None then events (evict cfg now s) else events s)"
  by (auto simp: recomputeLevel_def Let_def)

text \<open>The window a recorded signal leaves behind: capped from the front, then evicted by age.\<close>

definition window_after :: "PolicyConfig \<Rightarrow> ms \<Rightarrow> signal_name \<Rightarrow> WindowEvent list \<Rightarrow> WindowEvent list" where
  "window_after cfg now t es =
     dropWhile (\<lambda>e. ev_ts e < now - threatWindowMs cfg)
       (drop (nat (int (Suc (length es)) - threatWindowMaxEvents cfg))
          (es @ [\<lparr>ev_ts = now, ev_type = t\<rparr>]))"

lemma record_signal_simps [simp]:
  "manualOverride (record_signal cfg now t s) = manualOverride s"
  "lastSignalAt (record_signal cfg now t s) = now"
  by (auto simp: record_signal_def Let_def)

lemma record_signal_events [simp]:
  "events (record_signal cfg now t s) = window_after cfg now t (events s)"
  by (auto simp: record_signal_def Let_def recomputeLevel_events window_after_def dropWhile_idem)

lemma record_signal_level:
  "level (record_signal cfg now t s) =
     (if manualOverride s = None then spec_level cfg (window_after cfg now t (events s)) else level s)"
  by (auto simp: record_signal_def Let_def recomputeLevel_level window_after_def dropWhile_idem)

lemma on_event_manualOverride [simp]: "manualOverride (on_event cfg now e s) = manualOverride s"
  by (cases e) auto

section \<open>Cooldown\<close>

fun step_down :: "ThreatLevel \<Rightarrow> ThreatLevel" where
  "step_down Critical = Elevated"
| "step_down Elevated = Normal"
| "step_down Normal = Normal"

lemma cooldown_steps_simps [simp]:
  "events (cooldown_steps n now s) = events s"
  "lastSignalAt (cooldown_steps n now s) = lastSignalAt s"
  "manualOverride (cooldown_steps n now s) = manualOverride s"
  by (induction n now s rule: cooldown_steps.induct) (auto split: ThreatLevel.splits)

lemma step_down_Normal [simp]: "(step_down ^^ n) Normal = Normal"
  by (induction n) auto

lemma cooldown_steps_level: "level (cooldown_steps n now s) = (step_down ^^ n) (level s)"
proof (induction n now s rule: cooldown_steps.induct)
  case (1 now s)
  show ?case by simp
next
  case (2 n now s)
  then show ?case by (cases "level s") (simp_all add: funpow_Suc_right del: funpow.simps)
qed

lemma maybeCooldown_simps [simp]:
  "events (maybeCooldown cfg now s) = events s"
  "lastSignalAt (maybeCooldown cfg now s) = lastSignalAt s"
  "manualOverride (maybeCooldown cfg now s) = manualOverride s"
  by (auto simp: maybeCooldown_def Let_def)

lemma maybeCooldown_override [simp]: "manualOverride s \<noteq> None \<Longrightarrow> maybeCooldown cfg now s = s"
  by (auto simp: maybeCooldown_def)

lemma maybeCooldown_level:
  "level (maybeCooldown cfg now s) =
     (if manualOverride s = None \<and> threatCooldownMs cfg \<le> now - lastSignalAt s
      then (step_down ^^ nat ((now - lastTransitionAt s) div threatCooldownMs cfg)) (level s)
      else level s)"
  by (auto simp: maybeCooldown_def Let_def cooldown_steps_level)

lemma step_down_le: "(step_down ^^ n) l \<le> l"
proof (induction n)
  case 0
  show ?case by simp
next
  case (Suc n)
  have "step_down m \<le> m" for m by (cases m) auto
  with Suc show ?case by (auto intro: order_trans)
qed

lemma maybeCooldown_le: "level (maybeCooldown cfg now s) \<le> level s"
  by (simp add: maybeCooldown_level step_down_le)

section \<open>Invariant and reachable states\<close>

text \<open>
  The invariant relative to the current time: the window is ordered by time stamp, no event is
  from the future, the window never exceeds its cap, and the gauge shows exactly the current level.
\<close>

definition gauge_ok :: "Threat \<Rightarrow> bool" where
  "gauge_ok s \<longleftrightarrow> (\<forall>l. pm_threatLevel (metrics s) l = (if l = level s then 1 else 0))"

definition threat_inv :: "PolicyConfig \<Rightarrow> ms \<Rightarrow> Threat \<Rightarrow> bool" where
  "threat_inv cfg now s \<longleftrightarrow>
     sorted_wrt (\<lambda>x y. ev_ts x \<le> ev_ts y) (events s)
   \<and> (\<forall>e \<in> set (events s). ev_ts e \<le> now)
   \<and> int (length (events s)) \<le> threatWindowMaxEvents cfg
   \<and> lastSignalAt s \<le> now \<and> lastTransitionAt s \<le> now \<and> gauge_ok s"

lemma gauge_ok_transitionTo [inv_intros]: "gauge_ok s \<Longrightarrow> gauge_ok (transitionTo n now m s)"
proof -
  assume g: "gauge_ok s"
  have "pm_threatLevel (setThreatLevel n x) l = (if l = n then 1 else 0)" for x l
    by (cases l) (auto simp: setThreatLevel_def)
  with g show ?thesis by (auto simp: gauge_ok_def transitionTo_def Let_def)
qed

lemma gauge_ok_evict [simp]: "gauge_ok (evict cfg now s) = gauge_ok s"
  by (simp add: gauge_ok_def)

lemma gauge_ok_recompute [inv_intros]: "gauge_ok s \<Longrightarrow> gauge_ok (recomputeLevel cfg now s)"
  by (auto simp: recomputeLevel_def Let_def intro: inv_intros)

lemma gauge_ok_record [inv_intros]: "gauge_ok s \<Longrightarrow> gauge_ok (record_signal cfg now t s)"
  by (auto simp: record_signal_def Let_def gauge_ok_def[of "_\<lparr>events := _\<rparr>"]
      gauge_ok_def[of "_\<lparr>lastSignalAt := _\<rparr>"] gauge_ok_def[of s] intro!: gauge_ok_recompute)

lemma gauge_ok_cooldown_steps [inv_intros]: "gauge_ok s \<Longrightarrow> gauge_ok (cooldown_steps n now s)"
  by (induction n now s rule: cooldown_steps.induct)
    (auto split: ThreatLevel.splits intro: gauge_ok_transitionTo)

lemma gauge_ok_maybeCooldown [inv_intros]: "gauge_ok s \<Longrightarrow> gauge_ok (maybeCooldown cfg now s)"
  by (auto simp: maybeCooldown_def Let_def intro: inv_intros)

lemma lastTransitionAt_recompute:
  "lastTransitionAt s \<le> now \<Longrightarrow> lastTransitionAt (recomputeLevel cfg now s) \<le> now"
  by (auto simp: recomputeLevel_def transitionTo_def Let_def)

lemma lastTransitionAt_record:
  "lastTransitionAt s \<le> now \<Longrightarrow> lastTransitionAt (record_signal cfg now t s) \<le> now"
  by (auto simp: record_signal_def Let_def intro!: lastTransitionAt_recompute)

lemma lastTransitionAt_cooldown_steps:
  "lastTransitionAt s \<le> now \<Longrightarrow> lastTransitionAt (cooldown_steps n now s) \<le> now"
proof (induction n now s rule: cooldown_steps.induct)
  case (2 n now s)
  then show ?case by (auto simp: transitionTo_def Let_def split: ThreatLevel.splits)
qed simp

lemma lastTransitionAt_maybeCooldown:
  "lastTransitionAt s \<le> now \<Longrightarrow> lastTransitionAt (maybeCooldown cfg now s) \<le> now"
  by (auto simp: maybeCooldown_def Let_def intro: lastTransitionAt_cooldown_steps)


text \<open>
  The service as a state machine: an operation is one call of its public interface, with the clock
  values it reads. Time does not run backwards between operations.
\<close>

datatype threat_op =
    OpEvent ms bus_event
  | OpChallengeThreshold ms
  | OpDenyThreshold ms
  | OpSnapshot ms ms
  | OpSetManual ms ThreatLevel
  | OpClearManual ms ms

fun op_start :: "threat_op \<Rightarrow> ms" where
  "op_start (OpEvent t e) = t"
| "op_start (OpChallengeThreshold t) = t"
| "op_start (OpDenyThreshold t) = t"
| "op_start (OpSnapshot t t') = t"
| "op_start (OpSetManual t l) = t"
| "op_start (OpClearManual t t') = t"

fun op_end :: "threat_op \<Rightarrow> ms" where
  "op_end (OpSnapshot t t') = t'"
| "op_end (OpClearManual t t') = t'"
| "op_end oper = op_start oper"

fun threat_apply :: "PolicyConfig \<Rightarrow> threat_op \<Rightarrow> Threat \<Rightarrow> Threat" where
  "threat_apply cfg (OpEvent t e) s = on_event cfg t e s"
| "threat_apply cfg (OpChallengeThreshold t) s = snd (currentChallengeThreshold cfg t s)"
| "threat_apply cfg (OpDenyThreshold t) s = snd (currentDenyThreshold cfg t s)"
| "threat_apply cfg (OpSnapshot t t') s = snd (snapshot cfg t t' s)"
| "threat_apply cfg (OpSetManual t l) s = setManualLevel l t s"
| "threat_apply cfg (OpClearManual t t') s = clearManualLevel cfg t t' s"

inductive threat_reachable :: "PolicyConfig \<Rightarrow> ms \<Rightarrow> Threat \<Rightarrow> bool" for cfg where
  boot: "threat_reachable cfg t (init_threat t)"
| oper: "threat_reachable cfg t s \<Longrightarrow> t \<le> op_start x \<Longrightarrow> op_start x \<le> op_end x \<Longrightarrow>
    threat_reachable cfg (op_end x) (threat_apply cfg x s)"

lemma currentThreshold_snd [simp]:
  "snd (currentChallengeThreshold cfg now s) = maybeCooldown cfg now s"
  "snd (currentDenyThreshold cfg now s) = maybeCooldown cfg now s"
  by (auto simp: currentChallengeThreshold_def currentDenyThreshold_def Let_def)

lemma snapshot_snd [simp]:
  "snd (snapshot cfg now now' s) = maybeCooldown cfg now' (maybeCooldown cfg now s)"
  by (simp add: snapshot_def Let_def currentChallengeThreshold_def currentDenyThreshold_def)

lemma threat_inv_later: "threat_inv cfg t s \<Longrightarrow> t \<le> t' \<Longrightarrow> threat_inv cfg t' s"
  by (fastforce simp: threat_inv_def)

lemma threat_inv_maybeCooldown [inv_intros]:
  "threat_inv cfg t s \<Longrightarrow> threat_inv cfg t (maybeCooldown cfg t s)"
  by (simp add: threat_inv_def lastTransitionAt_maybeCooldown gauge_ok_maybeCooldown)

lemma sorted_window_after:
  assumes "sorted_wrt (\<lambda>x y. ev_ts x \<le> ev_ts y) es" and "\<forall>e \<in> set es. ev_ts e \<le> now"
  shows "sorted_wrt (\<lambda>x y. ev_ts x \<le> ev_ts y) (window_after cfg now t es)"
  using assms unfolding window_after_def
  by (intro sorted_wrt_dropWhile sorted_wrt_drop) (simp add: sorted_wrt_append)

lemma window_after_subset:
  "set (window_after cfg now t es) \<subseteq> insert \<lparr>ev_ts = now, ev_type = t\<rparr> (set es)"
  unfolding window_after_def by (auto dest!: set_dropWhileD in_set_dropD)

lemma length_window_after:
  assumes "0 < threatWindowMaxEvents cfg"
  shows "int (length (window_after cfg now t es)) \<le> threatWindowMaxEvents cfg"
proof -
  have "length (window_after cfg now t es) \<le>
      length (drop (nat (int (Suc (length es)) - threatWindowMaxEvents cfg))
        (es @ [\<lparr>ev_ts = now, ev_type = t\<rparr>]))"
    unfolding window_after_def by (rule length_dropWhile_le)
  with assms show ?thesis by simp
qed

lemma threat_inv_record [inv_intros]:
  assumes "threat_inv cfg now s" and "0 < threatWindowMaxEvents cfg"
  shows "threat_inv cfg now (record_signal cfg now t s)"
  using assms window_after_subset [of cfg now t "events s"]
  by (auto simp: threat_inv_def sorted_window_after length_window_after
      intro: gauge_ok_record lastTransitionAt_record)

lemma threat_inv_on_event [inv_intros]:
  "threat_inv cfg now s \<Longrightarrow> 0 < threatWindowMaxEvents cfg \<Longrightarrow> threat_inv cfg now (on_event cfg now e s)"
  by (cases e) (auto intro: threat_inv_record)

lemma threat_inv_recompute [inv_intros]:
  assumes "threat_inv cfg now s"
  shows "threat_inv cfg now (recomputeLevel cfg now s)"
proof -
  have "length (dropWhile P (events s)) \<le> length (events s)" for P
    by (rule length_dropWhile_le)
  then have "int (length (dropWhile P (events s))) \<le> threatWindowMaxEvents cfg" for P
    using assms by (fastforce simp: threat_inv_def intro: order_trans [rotated])
  with assms show ?thesis
    by (auto simp: threat_inv_def recomputeLevel_events sorted_wrt_dropWhile lastTransitionAt_recompute
        intro: gauge_ok_recompute dest: set_dropWhileD)
qed

lemma threat_inv_setManual [inv_intros]: "threat_inv cfg now s \<Longrightarrow> threat_inv cfg now (setManualLevel l now s)"
  using gauge_ok_transitionTo [of "s\<lparr>manualOverride := Some l\<rparr>" l now True]
  by (auto simp: threat_inv_def setManualLevel_def Let_def gauge_ok_def transitionTo_def)

lemma threat_inv_clearManual [inv_intros]:
  assumes "threat_inv cfg t s" and "t \<le> t'"
  shows "threat_inv cfg t' (clearManualLevel cfg t t' s)"
proof -
  have "threat_inv cfg t (s\<lparr>manualOverride := None\<rparr>)"
    using assms(1) by (auto simp: threat_inv_def gauge_ok_def)
  then have "threat_inv cfg t' (maybeCooldown cfg t (s\<lparr>manualOverride := None\<rparr>))"
    using assms(2) by (blast intro: threat_inv_maybeCooldown threat_inv_later)
  then show ?thesis by (simp add: clearManualLevel_def Let_def threat_inv_recompute)
qed

lemma threat_inv_apply:
  assumes "threat_inv cfg (op_start x) s" and "op_start x \<le> op_end x" and "0 < threatWindowMaxEvents cfg"
  shows "threat_inv cfg (op_end x) (threat_apply cfg x s)"
  using assms by (cases x) (auto intro!: inv_intros intro: threat_inv_later)

section \<open>Properties\<close>

text \<open>
  C14. In every state the service can reach, from boot and through any sequence of signals, threshold
  reads, snapshots and admin calls at non-decreasing times, the window holds at most
  \<open>threatWindowMaxEvents\<close> events ordered by time with none from the future, and the gauge metric
  shows 1 for the current level and 0 for the other two.
\<close>

theorem threat_reachable_inv:
  assumes "threat_reachable cfg now s" and "0 < threatWindowMaxEvents cfg"
  shows "threat_inv cfg now s"
  using assms
proof (induction rule: threat_reachable.induct)
  case (boot t)
  have "pm_threatLevel (metrics (init_threat t)) l = (if l = Normal then 1 else 0)" for l
    by (cases l) (auto simp: init_threat_def setThreatLevel_def)
  with boot show ?case by (simp add: threat_inv_def gauge_ok_def) (simp add: init_threat_def)
next
  case (oper t s x)
  then show ?case by (blast intro: threat_inv_apply threat_inv_later)
qed

theorem threat_reachable_inv_witness:
  "threat_inv default_policy 7 (threat_apply default_policy (OpEvent 7 (Signal HONEYPOT_TRIGGER (empty_payload 7))) (init_threat 5))"
proof -
  let ?x = "OpEvent 7 (Signal HONEYPOT_TRIGGER (empty_payload 7))"
  have "threat_reachable default_policy (op_end ?x) (threat_apply default_policy ?x (init_threat 5))"
    by (rule threat_reachable.oper [OF threat_reachable.boot]) simp_all
  from threat_reachable_inv [OF this] show ?thesis by (simp add: default_policy_def)
qed

text \<open>
  C15. A recorded signal refines the level specification: without an override, the level after it is the
  maximum over the signal types of what their counts reach, counted over exactly the most recent
  \<open>threatWindowMaxEvents\<close> events (the new one included) that are at most \<open>threatWindowMs\<close> old.
\<close>

theorem record_signal_refines_spec:
  assumes "threat_inv cfg now s" and "manualOverride s = None"
  shows "level (record_signal cfg now t s) =
    spec_level cfg (filter (\<lambda>e. now - threatWindowMs cfg \<le> ev_ts e)
      (drop (nat (int (Suc (length (events s))) - threatWindowMaxEvents cfg))
        (events s @ [\<lparr>ev_ts = now, ev_type = t\<rparr>])))"
proof -
  have "sorted_wrt (\<lambda>x y. ev_ts x \<le> ev_ts y) (drop n (events s @ [\<lparr>ev_ts = now, ev_type = t\<rparr>]))" for n
    using assms(1) by (intro sorted_wrt_drop) (simp add: threat_inv_def sorted_wrt_append)
  then show ?thesis using assms(2)
    by (simp add: record_signal_level window_after_def dropWhile_sorted_filter)
qed

theorem record_signal_refines_spec_witness:
  "level (record_signal (default_policy\<lparr>threatElevatedHoneypot := 1\<rparr>) 0 HONEYPOT_TRIGGER (init_threat 0)) = Elevated"
proof -
  have "threat_inv (default_policy\<lparr>threatElevatedHoneypot := 1\<rparr>) 0 (init_threat 0)"
    by (simp add: threat_inv_def gauge_ok_def init_threat_def setThreatLevel_def default_policy_def)
      (metis ThreatLevel.exhaust)
  from record_signal_refines_spec [OF this, of HONEYPOT_TRIGGER] show ?thesis
    by (simp add: init_threat_def default_policy_def spec_level_def reaches_critical_def
        reaches_elevated_def count_of_def)
qed

fun is_admin_op :: "threat_op \<Rightarrow> bool" where
  "is_admin_op (OpSetManual t l) = True"
| "is_admin_op (OpClearManual t t') = True"
| "is_admin_op _ = False"

lemma threat_apply_override:
  "\<not> is_admin_op x \<Longrightarrow> manualOverride s = Some l \<Longrightarrow> manualOverride (threat_apply cfg x s) = Some l"
  by (cases x) auto

lemma fold_threat_apply_override:
  "\<forall>x \<in> set xs. \<not> is_admin_op x \<Longrightarrow> manualOverride s = Some l \<Longrightarrow>
    manualOverride (fold (threat_apply cfg) xs s) = Some l"
  by (induction xs arbitrary: s) (auto simp: threat_apply_override)

text \<open>
  C16. The manual override is sticky: whatever signals arrive and whatever reads happen, as long as no
  admin call intervenes the effective level and both thresholds are those of the override.
\<close>

theorem manual_override_sticky:
  assumes "\<forall>x \<in> set xs. \<not> is_admin_op x"
  shows "effectiveLevel (fold (threat_apply cfg) xs (setManualLevel l t s)) = l
    \<and> fst (currentChallengeThreshold cfg now (fold (threat_apply cfg) xs (setManualLevel l t s))) = challenge_at cfg l
    \<and> fst (currentDenyThreshold cfg now (fold (threat_apply cfg) xs (setManualLevel l t s))) = deny_at cfg l"
proof -
  have "manualOverride (setManualLevel l t s) = Some l"
    by (simp add: setManualLevel_def Let_def)
  with assms have "manualOverride (fold (threat_apply cfg) xs (setManualLevel l t s)) = Some l"
    by (rule fold_threat_apply_override)
  then show ?thesis
    by (simp add: effectiveLevel_def currentChallengeThreshold_def currentDenyThreshold_def Let_def)
qed

theorem manual_override_sticky_witness:
  "effectiveLevel (fold (threat_apply default_policy)
     [OpEvent 1 (Signal HONEYPOT_TRIGGER (empty_payload 1)), OpChallengeThreshold 9000000]
     (setManualLevel Critical 0 (init_threat 0))) = Critical"
  using manual_override_sticky [of "[OpEvent 1 (Signal HONEYPOT_TRIGGER (empty_payload 1)), OpChallengeThreshold 9000000]"
      default_policy Critical 0 "init_threat 0" 0]
  by simp

lemma cooldown_ladder_core:
  assumes "level s = Critical" and "manualOverride s = None" and "0 < threatCooldownMs cfg"
    and "threatCooldownMs cfg \<le> now - lastSignalAt s"
    and "2 * threatCooldownMs cfg \<le> now - lastTransitionAt s"
  shows "currentChallengeThreshold cfg now s = (challengeThreshold cfg, maybeCooldown cfg now s)
    \<and> level (maybeCooldown cfg now s) = Normal
    \<and> pm_transitions (metrics (maybeCooldown cfg now s)) =
       (\<lambda>a b. pm_transitions (metrics s) a b
              + (if (a, b) = (Critical, Elevated) \<or> (a, b) = (Elevated, Normal) then 1 else 0))"
proof -
  define n where "n = nat ((now - lastTransitionAt s) div threatCooldownMs cfg)"
  have "2 * threatCooldownMs cfg div threatCooldownMs cfg \<le> (now - lastTransitionAt s) div threatCooldownMs cfg"
    using assms(3,5) by (intro zdiv_mono1)
  then have two: "2 \<le> (now - lastTransitionAt s) div threatCooldownMs cfg"
    using assms(3) by simp
  then have "2 \<le> n" unfolding n_def by linarith
  then obtain k where k: "n = Suc (Suc k)"
    using le_Suc_ex [of 2 n] by auto
  have pos: "\<not> (now - lastTransitionAt s) div threatCooldownMs cfg \<le> 0"
    using two by simp
  have mc: "maybeCooldown cfg now s = transitionTo Normal now False (transitionTo Elevated now False s)"
    using assms(1,2,4) pos k by (cases k) (simp_all add: maybeCooldown_def Let_def n_def [symmetric])
  show ?thesis
    using assms(1,2) by (auto simp: mc currentChallengeThreshold_def effectiveLevel_def Let_def fun_eq_iff)
      (auto simp: transitionTo_def setThreatLevel_def Let_def)
qed


text \<open>
  Cooldown is a ladder that a read walks one rung per elapsed window: a read of a \<open>Critical\<close>
  service that has been idle for at least the cooldown and whose last transition lies at least two
  cooldown windows back ends at \<open>Normal\<close>, returns the normal threshold, and counts the two transitions
  \<open>Critical\<close> to \<open>Elevated\<close> and \<open>Elevated\<close> to \<open>Normal\<close> once each and no direct one.
\<close>

lemma cooldown_walks_the_ladder:
  assumes "level s = Critical" and "manualOverride s = None" and "0 < threatCooldownMs cfg"
    and "threatCooldownMs cfg \<le> now - lastSignalAt s"
    and "2 * threatCooldownMs cfg \<le> now - lastTransitionAt s"
  shows "currentChallengeThreshold cfg now s = (challengeThreshold cfg, maybeCooldown cfg now s)
    \<and> level (maybeCooldown cfg now s) = Normal
    \<and> pm_transitions (metrics (maybeCooldown cfg now s)) =
       (\<lambda>a b. pm_transitions (metrics s) a b
              + (if (a, b) = (Critical, Elevated) \<or> (a, b) = (Elevated, Normal) then 1 else 0))"
  using assms by (rule cooldown_ladder_core)

text \<open>
  Under a configuration the boot-time validator accepts, escalation tightens: a higher level has a
  strictly lower challenge threshold and a strictly lower deny threshold, so no score is treated more
  leniently at the higher level.
\<close>

lemma thresholds_tighten:
  assumes "config_valid cfg m" and "a < b"
  shows "challenge_at cfg b < challenge_at cfg a \<and> deny_at cfg b < deny_at cfg a"
  using assms by (cases a; cases b) (auto simp: config_valid_def cross_field_check_None level_less_defs)

text \<open>
  The snapshot can contradict itself: for a \<open>Critical\<close> service that is due for two cooldown steps
  (idle long enough, no override) the admin snapshot reports the level \<open>Critical\<close> together with the
  thresholds of \<open>Normal\<close>, because the level is read before the threshold getters run the cooldown.
\<close>

lemma snapshot_level_is_stale:
  assumes "level s = Critical" and "manualOverride s = None" and "0 < threatCooldownMs cfg"
    and "threatCooldownMs cfg \<le> now - lastSignalAt s"
    and "2 * threatCooldownMs cfg \<le> now - lastTransitionAt s"
  shows "sn_level (fst (snapshot cfg now now s)) = Critical
    \<and> sn_challenge (fst (snapshot cfg now now s)) = challenge_at cfg Normal
    \<and> sn_deny (fst (snapshot cfg now now s)) = deny_at cfg Normal
    \<and> level (snd (snapshot cfg now now s)) = Normal"
proof -
  have ch: "currentChallengeThreshold cfg now s = (challengeThreshold cfg, maybeCooldown cfg now s)"
    and nl: "level (maybeCooldown cfg now s) = Normal"
    using cooldown_ladder_core [OF assms] by auto
  have "level (maybeCooldown cfg now (maybeCooldown cfg now s)) = Normal"
    using nl maybeCooldown_le [of cfg now "maybeCooldown cfg now s"] by simp
  then show ?thesis using assms(1,2) ch
    by (simp add: snapshot_def currentDenyThreshold_def effectiveLevel_def Let_def)
qed

text \<open>
  A new signal can de-escalate at once: when every event of the window has aged out and the
  thresholds are above one, any further signal (of any type) sets the level to \<open>Normal\<close> whatever it was,
  without waiting for the cooldown and without passing \<open>Elevated\<close>.
\<close>

lemma late_signal_skips_cooldown:
  assumes "manualOverride s = None" and "threat_inv cfg now s"
    and "\<forall>e \<in> set (events s). ev_ts e < now - threatWindowMs cfg"
    and "1 < threatElevatedDenies cfg" "1 < threatElevatedInvalidTokens cfg"
      "1 < threatElevatedHoneypot cfg" "1 < threatElevatedMfaRateLimited cfg"
    and "config_valid cfg m"
  shows "level (record_signal cfg now t s) = Normal
    \<and> events (record_signal cfg now t s) = [\<lparr>ev_ts = now, ev_type = t\<rparr>]"
proof -
  have w: "window_after cfg now t (events s) = [\<lparr>ev_ts = now, ev_type = t\<rparr>]"
  proof -
    let ?n = "nat (int (Suc (length (events s))) - threatWindowMaxEvents cfg)"
    have le: "?n \<le> length (events s)" using config_validD(3) [OF assms(8)] by linarith
    have "\<forall>e \<in> set (drop ?n (events s)). ev_ts e < now - threatWindowMs cfg"
      using assms(3) by (auto dest: in_set_dropD)
    moreover have "\<not> now < now - threatWindowMs cfg" using config_validD(2) [OF assms(8)] by simp
    ultimately show ?thesis using le
      by (simp add: window_after_def dropWhile_append2)
  qed
  have c: "count_of [\<lparr>ev_ts = now, ev_type = t\<rparr>] x \<le> 1" for x
    by (simp add: count_of_def)
  have "\<not> reaches_elevated cfg [\<lparr>ev_ts = now, ev_type = t\<rparr>]"
    using assms(4-7) c by (auto simp: reaches_elevated_def not_le intro: le_less_trans)
  moreover have "\<not> reaches_critical cfg [\<lparr>ev_ts = now, ev_type = t\<rparr>]"
    using assms(4-7) c config_validD(4-7) [OF assms(8)]
    by (auto simp: reaches_critical_def not_le intro: le_less_trans less_trans)
  ultimately show ?thesis using assms(1) w by (simp add: record_signal_level spec_level_def)
qed

end
