(* ===== verification/JsNum.thy ===== *)
theory JsNum
  imports Prelude
begin

text \<open>
  JavaScript numbers. A number is \<open>NaN\<close>, an infinity or a finite real. IEEE-754 rounding and the
  transcendental functions of \<open>Math\<close> are a parameter, the record \<open>fp\<close>: every finite
  arithmetic result goes through \<open>rnd\<close>, so no theorem about scores silently assumes exact decimals.
  What the theorems need of it (rounding is monotone, idempotent, odd, exact on 0 and 1 and does not flush
  one billionth to zero; rounding to the nearest at most doubles a positive number, so half of the rounded number, rounded again, is
  not above it; the exponential of a non-positive number lies between 0 and 1; the square
  root of a positive number is positive) is the predicate \<open>fp_ok\<close>, which IEEE-754 doubles satisfy and
  exact real arithmetic too. Overflow of a finite result to an infinity and the sign of
  zero are not represented.
\<close>

record fp =
  rnd :: "real \<Rightarrow> real"
  fexp :: "real \<Rightarrow> real"
  fsqrt :: "real \<Rightarrow> real"

definition fp_ok :: "fp \<Rightarrow> bool" where
  "fp_ok f \<longleftrightarrow> mono (rnd f) \<and> rnd f 0 = 0 \<and> rnd f 1 = 1
     \<and> (\<forall>x. 0 \<le> fexp f x) \<and> (\<forall>x \<le> 0. fexp f x \<le> 1) \<and> fexp f 0 = 1
     \<and> (\<forall>x. rnd f (rnd f x) = rnd f x) \<and> (\<forall>x. rnd f (- x) = - rnd f x) \<and> 0 < rnd f (1 / 10 ^ 9)
     \<and> (\<forall>x \<ge> 0. rnd f (rnd f x / 2) \<le> x)
     \<and> (\<forall>x > 0. 0 < fsqrt f x) \<and> 0 \<le> fsqrt f 0"

definition exact_fp :: fp where
  "exact_fp = \<lparr>rnd = (\<lambda>x. x), fexp = exp, fsqrt = sqrt\<rparr>"

lemma fp_ok_exact [simp]: "fp_ok exact_fp"
  by (simp add: fp_ok_def exact_fp_def mono_def)

lemma exact_fp_simps [simp]: "rnd exact_fp x = x" "fexp exact_fp x = exp x" "fsqrt exact_fp x = sqrt x"
  by (simp_all add: exact_fp_def)

datatype jsnum = NaN | PInf | NInf | Fin real

fun jlt :: "jsnum \<Rightarrow> jsnum \<Rightarrow> bool" where
  "jlt (Fin a) (Fin b) \<longleftrightarrow> a < b"
| "jlt NInf (Fin b) \<longleftrightarrow> True"
| "jlt NInf PInf \<longleftrightarrow> True"
| "jlt (Fin a) PInf \<longleftrightarrow> True"
| "jlt _ _ \<longleftrightarrow> False"

fun jle :: "jsnum \<Rightarrow> jsnum \<Rightarrow> bool" where
  "jle (Fin a) (Fin b) \<longleftrightarrow> a \<le> b"
| "jle NInf b \<longleftrightarrow> b \<noteq> NaN"
| "jle a PInf \<longleftrightarrow> a \<noteq> NaN"
| "jle _ _ \<longleftrightarrow> False"

text \<open>A numeric literal is the double nearest to the written decimal.\<close>

definition lit :: "fp \<Rightarrow> real \<Rightarrow> jsnum" where
  "lit f x = Fin (rnd f x)"

fun jneg :: "jsnum \<Rightarrow> jsnum" where
  "jneg NaN = NaN"
| "jneg PInf = NInf"
| "jneg NInf = PInf"
| "jneg (Fin a) = Fin (- a)"

fun jadd :: "fp \<Rightarrow> jsnum \<Rightarrow> jsnum \<Rightarrow> jsnum" where
  "jadd f (Fin a) (Fin b) = Fin (rnd f (a + b))"
| "jadd f NaN _ = NaN"
| "jadd f _ NaN = NaN"
| "jadd f PInf NInf = NaN"
| "jadd f NInf PInf = NaN"
| "jadd f PInf _ = PInf"
| "jadd f NInf _ = NInf"
| "jadd f _ PInf = PInf"
| "jadd f _ NInf = NInf"

definition jsub :: "fp \<Rightarrow> jsnum \<Rightarrow> jsnum \<Rightarrow> jsnum" where
  "jsub f a b = jadd f a (jneg b)"

definition jsgn :: "jsnum \<Rightarrow> real" where
  "jsgn x = (case x of NaN \<Rightarrow> 0 | PInf \<Rightarrow> 1 | NInf \<Rightarrow> -1 | Fin a \<Rightarrow> sgn a)"

definition jinf :: "real \<Rightarrow> jsnum" where
  "jinf s = (if s = 0 then NaN else if 0 < s then PInf else NInf)"

fun jmul :: "fp \<Rightarrow> jsnum \<Rightarrow> jsnum \<Rightarrow> jsnum" where
  "jmul f (Fin a) (Fin b) = Fin (rnd f (a * b))"
| "jmul f NaN _ = NaN"
| "jmul f _ NaN = NaN"
| "jmul f a b = jinf (jsgn a * jsgn b)"

fun jdiv :: "fp \<Rightarrow> jsnum \<Rightarrow> jsnum \<Rightarrow> jsnum" where
  "jdiv f (Fin a) (Fin b) = (if b = 0 then jinf (sgn a) else Fin (rnd f (a / b)))"
| "jdiv f NaN _ = NaN"
| "jdiv f _ NaN = NaN"
| "jdiv f (Fin a) _ = Fin 0"
| "jdiv f a (Fin b) = jinf (jsgn a * (if b = 0 then 1 else sgn b))"
| "jdiv f _ _ = NaN"

text \<open>\<open>Math.min\<close> and \<open>Math.max\<close> of two arguments: \<open>NaN\<close> is contagious.\<close>

definition jmin :: "jsnum \<Rightarrow> jsnum \<Rightarrow> jsnum" where
  "jmin a b = (if a = NaN \<or> b = NaN then NaN else if jlt b a then b else a)"

definition jmax :: "jsnum \<Rightarrow> jsnum \<Rightarrow> jsnum" where
  "jmax a b = (if a = NaN \<or> b = NaN then NaN else if jlt a b then b else a)"

fun jabs :: "jsnum \<Rightarrow> jsnum" where
  "jabs NaN = NaN"
| "jabs (Fin a) = Fin \<bar>a\<bar>"
| "jabs _ = PInf"

fun jexp :: "fp \<Rightarrow> jsnum \<Rightarrow> jsnum" where
  "jexp f NaN = NaN"
| "jexp f PInf = PInf"
| "jexp f NInf = Fin 0"
| "jexp f (Fin a) = Fin (fexp f a)"

fun jsqrt :: "fp \<Rightarrow> jsnum \<Rightarrow> jsnum" where
  "jsqrt f (Fin a) = (if a < 0 then NaN else Fin (fsqrt f a))"
| "jsqrt f PInf = PInf"
| "jsqrt f _ = NaN"

text \<open>\<open>Math.round\<close>: the nearest integer, halves towards positive infinity.\<close>

fun jround :: "jsnum \<Rightarrow> jsnum" where
  "jround (Fin a) = Fin (of_int \<lfloor>a + 1/2\<rfloor>)"
| "jround x = x"

section \<open>Laws\<close>

lemma jlt_NaN [simp]: "\<not> jlt NaN x" "\<not> jlt x NaN"
  by (cases x; simp)+

lemma jle_NaN [simp]: "\<not> jle NaN x" "\<not> jle x NaN"
  by (cases x; simp)+

lemma jlt_imp_not_jle: "jlt a b \<Longrightarrow> \<not> jle b a"
  by (cases a; cases b) auto

lemma jle_trans: "jle a b \<Longrightarrow> jle b c \<Longrightarrow> jle a c"
  by (cases a; cases b; cases c) auto

lemma jle_refl_iff [simp]: "jle a a \<longleftrightarrow> a \<noteq> NaN"
  by (cases a) auto

lemma rnd_mono: "fp_ok f \<Longrightarrow> a \<le> b \<Longrightarrow> rnd f a \<le> rnd f b"
  by (simp add: fp_ok_def monoD)

lemma rnd_nonneg: "fp_ok f \<Longrightarrow> 0 \<le> a \<Longrightarrow> 0 \<le> rnd f a"
  using rnd_mono [of f 0 a] by (simp add: fp_ok_def)

lemma rnd_nonpos: "fp_ok f \<Longrightarrow> a \<le> 0 \<Longrightarrow> rnd f a \<le> 0"
  using rnd_mono [of f a 0] by (simp add: fp_ok_def)

lemma rnd_idem: "fp_ok f \<Longrightarrow> rnd f (rnd f x) = rnd f x"
  by (simp add: fp_ok_def)

lemma rnd_uminus: "fp_ok f \<Longrightarrow> rnd f (- x) = - rnd f x"
  by (simp add: fp_ok_def)

lemma rnd_above: "fp_ok f \<Longrightarrow> rnd f x \<le> y \<Longrightarrow> rnd f x \<le> rnd f y"
  using rnd_mono [of f "rnd f x" y] by (simp add: rnd_idem)

lemma fexp_range: "fp_ok f \<Longrightarrow> 0 \<le> fexp f x" "fp_ok f \<Longrightarrow> x \<le> 0 \<Longrightarrow> fexp f x \<le> 1"
  by (auto simp: fp_ok_def)

lemma fsqrt_pos: "fp_ok f \<Longrightarrow> 0 < x \<Longrightarrow> 0 < fsqrt f x"
  by (simp add: fp_ok_def)

text \<open>An integer-valued number.\<close>

definition jsint :: "int \<Rightarrow> jsnum" where
  "jsint n = Fin (of_int n)"

text \<open>Clamping into the unit interval, the last step of the trust score.\<close>

definition clamp01 :: "jsnum \<Rightarrow> jsnum" where
  "clamp01 x = jmin (Fin 1) (jmax (Fin 0) x)"

lemma clamp01_cases: "clamp01 x = NaN \<and> x = NaN \<or> (\<exists>r. clamp01 x = Fin r \<and> 0 \<le> r \<and> r \<le> 1)"
  by (cases x) (auto simp: clamp01_def jmin_def jmax_def)

lemma clamp01_Fin: "clamp01 (Fin a) = Fin (min 1 (max 0 a))"
  by (auto simp: clamp01_def jmin_def jmax_def)

lemma clamp01_mono: "jle a b \<Longrightarrow> jle (clamp01 a) (clamp01 b)"
  by (cases a; cases b) (auto simp: clamp01_def jmin_def jmax_def)

lemma jadd_mono: "fp_ok f \<Longrightarrow> jle (Fin a) (Fin b) \<Longrightarrow> jle (jadd f (Fin a) (Fin c)) (jadd f (Fin b) (Fin c))"
  by (simp add: rnd_mono)

section \<open>Finiteness and signs\<close>

definition is_fin :: "jsnum \<Rightarrow> bool" where
  "is_fin x \<longleftrightarrow> (\<exists>r. x = Fin r)"

lemma is_fin_Fin [simp]: "is_fin (Fin r)"
  by (simp add: is_fin_def)

lemma is_fin_lit [simp]: "is_fin (lit f x)"
  by (simp add: lit_def)

lemma is_fin_jsint [simp]: "is_fin (jsint n)"
  by (simp add: jsint_def)

lemma is_fin_arith [simp]:
  "is_fin a \<Longrightarrow> is_fin b \<Longrightarrow> is_fin (jadd f a b)"
  "is_fin a \<Longrightarrow> is_fin b \<Longrightarrow> is_fin (jsub f a b)"
  "is_fin a \<Longrightarrow> is_fin b \<Longrightarrow> is_fin (jmul f a b)"
  "is_fin a \<Longrightarrow> is_fin (jabs a)"
  "is_fin a \<Longrightarrow> is_fin (jneg a)"
  "is_fin a \<Longrightarrow> is_fin (jexp f a)"
  "is_fin a \<Longrightarrow> is_fin b \<Longrightarrow> is_fin (jmin a b)"
  "is_fin a \<Longrightarrow> is_fin b \<Longrightarrow> is_fin (jmax a b)"
  by (auto simp: is_fin_def jsub_def jmin_def jmax_def)

lemma is_fin_jdiv: "is_fin a \<Longrightarrow> b = Fin r \<Longrightarrow> r \<noteq> 0 \<Longrightarrow> is_fin (jdiv f a b)"
  by (auto simp: is_fin_def)

definition nonneg :: "jsnum \<Rightarrow> bool" where
  "nonneg x \<longleftrightarrow> (\<exists>r \<ge> 0. x = Fin r)"

lemma nonneg_is_fin: "nonneg x \<Longrightarrow> is_fin x"
  by (auto simp: nonneg_def)

lemma nonneg_jadd: "fp_ok f \<Longrightarrow> nonneg a \<Longrightarrow> nonneg b \<Longrightarrow> nonneg (jadd f a b)"
  by (auto simp: nonneg_def rnd_nonneg)

lemma nonneg_square: "fp_ok f \<Longrightarrow> is_fin a \<Longrightarrow> nonneg (jmul f a a)"
  by (auto simp: nonneg_def is_fin_def rnd_nonneg)

lemma nonneg_jdiv: "fp_ok f \<Longrightarrow> nonneg a \<Longrightarrow> 0 < n \<Longrightarrow> nonneg (jdiv f a (jsint n))"
  by (auto simp: nonneg_def jsint_def intro!: rnd_nonneg)

text \<open>
  A running mean stays between the old mean and the new value, also with rounding, so the update of the sum of squares is never negative.
\<close>

lemma rnd_share:
  assumes "fp_ok f" and "0 \<le> x" and "2 \<le> n"
  shows "0 \<le> rnd f (rnd f x / n)" "rnd f (rnd f x / n) \<le> x"
proof -
  have r: "0 \<le> rnd f x" using assms rnd_nonneg by blast
  then show "0 \<le> rnd f (rnd f x / n)" using assms by (intro rnd_nonneg) simp_all
  have "rnd f x / n \<le> rnd f x / 2" using r assms(3) by (intro divide_left_mono) simp_all
  then have "rnd f (rnd f x / n) \<le> rnd f (rnd f x / 2)" by (rule rnd_mono [OF assms(1)])
  also have "\<dots> \<le> x" using assms(1,2) by (simp add: fp_ok_def)
  finally show "rnd f (rnd f x / n) \<le> x" .
qed

lemma mean_between:
  assumes "fp_ok f" and "2 \<le> n" and x: "rnd f x = x" and m': "m' = rnd f (m + rnd f (rnd f (x - m) / n))"
  shows "m \<le> x \<Longrightarrow> rnd f m \<le> m' \<and> m' \<le> x" "x \<le> m \<Longrightarrow> x \<le> m' \<and> m' \<le> rnd f m"
proof -
  show "rnd f m \<le> m' \<and> m' \<le> x" if "m \<le> x"
  proof
    note q = rnd_share [OF assms(1) _ assms(2), of "x - m"]
    show "rnd f m \<le> m'" unfolding m' using q that by (intro rnd_mono [OF assms(1)]) simp
    have "m' \<le> rnd f x" unfolding m' using q that by (intro rnd_mono [OF assms(1)]) simp
    then show "m' \<le> x" using x by simp
  qed
  show "x \<le> m' \<and> m' \<le> rnd f m" if "x \<le> m"
  proof
    have "rnd f (rnd f (x - m) / n) = - rnd f (rnd f (m - x) / n)"
      using rnd_uminus [OF assms(1), of "m - x"] rnd_uminus [OF assms(1), of "rnd f (m - x) / n"] by simp
    moreover note q = rnd_share [OF assms(1) _ assms(2), of "m - x"]
    ultimately have "x \<le> m + rnd f (rnd f (x - m) / n)" "m + rnd f (rnd f (x - m) / n) \<le> m" using that by simp_all
    then show "x \<le> m'" "m' \<le> rnd f m" unfolding m' using rnd_mono [OF assms(1)] x by metis+
  qed
qed

lemma squares_update_nonneg:
  assumes "fp_ok f" and "2 \<le> n" and "rnd f x = x" and "m' = rnd f (m + rnd f (rnd f (x - m) / n))"
  shows "0 \<le> rnd f (rnd f (x - m) * rnd f (x - m'))"
proof (cases "m \<le> x")
  case True
  then have "0 \<le> rnd f (x - m)" "0 \<le> rnd f (x - m')"
    using mean_between(1) [OF assms True] by (auto intro!: rnd_nonneg [OF assms(1)])
  then show ?thesis by (intro rnd_nonneg [OF assms(1)]) simp
next
  case False
  then have "rnd f (x - m) \<le> 0" "rnd f (x - m') \<le> 0"
    using mean_between(2) [OF assms] by (auto intro!: rnd_nonpos [OF assms(1)])
  then show ?thesis by (intro rnd_nonneg [OF assms(1)]) (simp add: mult_nonpos_nonpos)
qed

end
