(* ===== verification/Telemetry.thy ===== *)
theory Telemetry
  imports JsNum
begin

text \<open>
  The trust telemetry of \<open>src/src/trust-score/trust-telemetry.repository.ts\<close>: the two tables it reads
  and writes as lists of rows, the queries, and the read-modify-write upsert that maintains the
  per-identity counters. A transaction either applies both writes or none and throws
  (\<open>DbService.tx\<close>): the parameter \<open>fails\<close> says that the database rejects one of its statements.
\<close>

record TrustContext =
  tc_userId :: string
  tc_deviceId :: string
  tc_ip :: string
  tc_ja4h :: string
  tc_requestTimestamp :: "ms option"

record TrustSignalRow =
  tr_user_id :: string
  tr_device_id :: string
  tr_ip :: string
  tr_ja4h :: "string option"
  tr_first_seen_at :: ms
  tr_last_seen_at :: ms
  tr_allow_count :: int
  tr_hour_histogram :: "int list"
  tr_rate_ema :: jsnum
  tr_rate_ema_var :: jsnum
  tr_anomaly_observations :: int

record ActivityRow =
  ac_user_id :: string
  ac_ja4h :: "string option"
  ac_ip :: string
  ac_device_id :: string
  ac_score :: jsnum
  ac_ts :: ms

record TrustDb =
  trust_signals :: "TrustSignalRow list"
  trust_activity :: "ActivityRow list"

type_synonym identity = "string \<times> string \<times> string"

definition row_key :: "TrustSignalRow \<Rightarrow> identity" where
  "row_key r = (tr_user_id r, tr_device_id r, tr_ip r)"

definition ctx_key :: "TrustContext \<Rightarrow> identity" where
  "ctx_key c = (tc_userId c, tc_deviceId c, tc_ip c)"

section \<open>Queries\<close>

definition getSignalRow :: "string \<Rightarrow> string \<Rightarrow> string \<Rightarrow> TrustDb \<Rightarrow> TrustSignalRow option" where
  "getSignalRow u d ip db = find (\<lambda>r. row_key r = (u, d, ip)) (trust_signals db)"

definition sumAllowsForUserIp :: "string \<Rightarrow> string \<Rightarrow> TrustDb \<Rightarrow> int" where
  "sumAllowsForUserIp u ip db =
     sum_list (map tr_allow_count (filter (\<lambda>r. tr_user_id r = u \<and> tr_ip r = ip) (trust_signals db)))"

definition countActivitySince :: "string \<Rightarrow> ms \<Rightarrow> TrustDb \<Rightarrow> int" where
  "countActivitySince u since db =
     int (length (filter (\<lambda>a. ac_user_id a = u \<and> since < ac_ts a) (trust_activity db)))"

definition countAllTrustActivity :: "TrustDb \<Rightarrow> int" where
  "countAllTrustActivity db = int (length (trust_activity db))"

definition countAllowsForUserDeviceIp :: "string \<Rightarrow> string \<Rightarrow> string \<Rightarrow> TrustDb \<Rightarrow> int" where
  "countAllowsForUserDeviceIp u d ip db =
     (case getSignalRow u d ip db of None \<Rightarrow> 0 | Some r \<Rightarrow> tr_allow_count r)"

section \<open>Writes\<close>

text \<open>\<open>Date.prototype.getUTCHours\<close> on milliseconds since the epoch.\<close>

definition utc_hours :: "ms \<Rightarrow> nat" where
  "utc_hours t = nat ((t div 3600000) mod 24)"

definition pad24 :: "int list \<Rightarrow> int list" where
  "pad24 h = h @ replicate (24 - length h) 0"

text \<open>The rate of one request per \<open>interMs\<close>, in requests per minute.\<close>

definition inst_rate :: "fp \<Rightarrow> ms \<Rightarrow> ms \<Rightarrow> jsnum" where
  "inst_rate f ts last_seen = jdiv f (Fin 60000) (jsint (max 1 (ts - last_seen)))"

definition null_if_empty :: "string \<Rightarrow> string option" where
  "null_if_empty s = (if s = [] then None else Some s)"

definition first_row :: "TrustContext \<Rightarrow> ms \<Rightarrow> TrustSignalRow" where
  "first_row c ts = \<lparr>tr_user_id = tc_userId c, tr_device_id = tc_deviceId c, tr_ip = tc_ip c,
     tr_ja4h = null_if_empty (tc_ja4h c), tr_first_seen_at = ts, tr_last_seen_at = ts,
     tr_allow_count = 1, tr_hour_histogram = (replicate 24 0)[utc_hours ts := 1],
     tr_rate_ema = Fin 0, tr_rate_ema_var = Fin 0, tr_anomaly_observations = 1\<rparr>"

text \<open>
  The row written over an existing one: the running mean and variance of the rate, and the \<open>ON CONFLICT\<close>
  clause, which keeps the stored fingerprint when the new one is null. The first sighting is the stored
  one on both sides of the clause's \<open>LEAST\<close>, so it does not change.
\<close>

definition next_row :: "fp \<Rightarrow> TrustContext \<Rightarrow> ms \<Rightarrow> TrustSignalRow \<Rightarrow> TrustSignalRow" where
  "next_row f c ts row =
     (let hist = pad24 (tr_hour_histogram row);
          hr = utc_hours ts;
          rate = inst_rate f ts (tr_last_seen_at row);
          nObs = tr_anomaly_observations row + 1;
          prevMean = tr_rate_ema row;
          newMean = jadd f prevMean (jdiv f (jsub f rate prevMean) (jsint nObs));
          newVar = (if nObs = 1 then Fin 0
                    else jdiv f
                      (jadd f (jmul f (jsint (nObs - 2)) (tr_rate_ema_var row))
                              (jmul f (jsub f rate prevMean) (jsub f rate newMean)))
                      (jsint (nObs - 1)))
      in row\<lparr>tr_ja4h := (case null_if_empty (tc_ja4h c) of None \<Rightarrow> tr_ja4h row | Some j \<Rightarrow> Some j),
             tr_last_seen_at := ts,
             tr_allow_count := tr_allow_count row + 1,
             tr_hour_histogram := hist[hr := hist ! hr + 1],
             tr_rate_ema := newMean, tr_rate_ema_var := newVar,
             tr_anomaly_observations := nObs\<rparr>)"

definition upsertSignalRow :: "fp \<Rightarrow> TrustContext \<Rightarrow> ms \<Rightarrow> TrustDb \<Rightarrow> TrustDb" where
  "upsertSignalRow f c ts db =
     (case getSignalRow (tc_userId c) (tc_deviceId c) (tc_ip c) db of
        None \<Rightarrow> db\<lparr>trust_signals := trust_signals db @ [first_row c ts]\<rparr>
      | Some row \<Rightarrow>
          db\<lparr>trust_signals :=
            map (\<lambda>r. if row_key r = ctx_key c then next_row f c ts row else r) (trust_signals db)\<rparr>)"

definition insertActivityRow :: "TrustContext \<Rightarrow> jsnum \<Rightarrow> ms \<Rightarrow> TrustDb \<Rightarrow> TrustDb" where
  "insertActivityRow c score dbnow db =
     db\<lparr>trust_activity := trust_activity db @
       [\<lparr>ac_user_id = tc_userId c, ac_ja4h = null_if_empty (tc_ja4h c), ac_ip = tc_ip c,
         ac_device_id = tc_deviceId c, ac_score = score, ac_ts = dbnow\<rparr>]\<rparr>"

text \<open>
  \<open>recordAllowOutcome\<close>: \<^const>\<open>None\<close> is the exception of a rolled-back transaction, after which the
  database is as before. \<open>now\<close> is \<open>new Date()\<close> and \<open>dbnow\<close> the database's \<open>now()\<close>.
\<close>

definition recordAllowOutcome ::
    "fp \<Rightarrow> bool \<Rightarrow> ms \<Rightarrow> ms \<Rightarrow> TrustContext \<Rightarrow> jsnum \<Rightarrow> TrustDb \<Rightarrow> TrustDb option" where
  "recordAllowOutcome f fails now dbnow c score db =
     (let ts = (case tc_requestTimestamp c of None \<Rightarrow> now | Some t \<Rightarrow> t)
      in if fails then None
         else Some (upsertSignalRow f c ts (insertActivityRow c score dbnow db)))"


section \<open>Lookup after write\<close>

lemma row_key_next_row [simp]: "row_key (next_row f c ts row) = row_key row"
  by (simp add: next_row_def row_key_def Let_def)

lemma next_row_simps [simp]:
  "tr_allow_count (next_row f c ts row) = tr_allow_count row + 1"
  "tr_user_id (next_row f c ts row) = tr_user_id row"
  "tr_ip (next_row f c ts row) = tr_ip row"
  "tr_last_seen_at (next_row f c ts row) = ts"
  "tr_anomaly_observations (next_row f c ts row) = tr_anomaly_observations row + 1"
  by (simp_all add: next_row_def Let_def)

lemma row_key_first_row [simp]: "row_key (first_row c ts) = ctx_key c"
  by (simp add: first_row_def row_key_def ctx_key_def)

lemma getSignalRow_key: "getSignalRow u d ip db = Some r \<Longrightarrow> r \<in> set (trust_signals db) \<and> row_key r = (u, d, ip)"
  by (auto simp: getSignalRow_def find_Some_iff)

lemma find_map_replace:
  assumes "find (\<lambda>r. key r = k) xs = Some x" and "key y = k"
  shows "find (\<lambda>r. key r = k) (map (\<lambda>r. if key r = k then y else r) xs) = Some y"
  using assms by (induction xs) (auto split: if_splits)

lemma find_map_other:
  assumes "k' \<noteq> k" and "key y = k"
  shows "find (\<lambda>r. key r = k') (map (\<lambda>r. if key r = k then y else r) xs) = find (\<lambda>r. key r = k') xs"
  using assms by (induction xs) auto

abbreviation row_of :: "TrustContext \<Rightarrow> TrustDb \<Rightarrow> TrustSignalRow option" where
  "row_of c db \<equiv> getSignalRow (tc_userId c) (tc_deviceId c) (tc_ip c) db"

lemma row_of_def: "row_of c db = find (\<lambda>r. row_key r = ctx_key c) (trust_signals db)"
  by (simp add: getSignalRow_def ctx_key_def)

lemma row_of_upsert:
  "row_of c (upsertSignalRow f c ts db) =
     Some (case row_of c db of None \<Rightarrow> first_row c ts | Some row \<Rightarrow> next_row f c ts row)"
proof (cases "row_of c db")
  case None
  then show ?thesis by (simp add: upsertSignalRow_def row_of_def find_append)
next
  case (Some row)
  then have "row_key row = ctx_key c" using getSignalRow_key by (auto simp: ctx_key_def)
  with Some show ?thesis
    by (simp add: upsertSignalRow_def row_of_def find_map_replace [where y = "next_row f c ts row"])
qed

lemma trust_signals_insertActivityRow [simp]:
  "trust_signals (insertActivityRow c score t db) = trust_signals db"
  "getSignalRow u d ip (insertActivityRow c score t db) = getSignalRow u d ip db"
  by (simp_all add: insertActivityRow_def getSignalRow_def)

lemma trust_activity_upsert [simp]: "trust_activity (upsertSignalRow f c ts db) = trust_activity db"
  by (simp add: upsertSignalRow_def split: option.splits)

section \<open>The telemetry invariant\<close>

text \<open>
  A row counts each recorded request once in its total, once in the histogram of hours and once as an
  observation of the rate; across the tables, the total of a user at an address is the number of its
  activity rows.
\<close>

definition row_ok :: "TrustSignalRow \<Rightarrow> bool" where
  "row_ok r \<longleftrightarrow> length (tr_hour_histogram r) = 24 \<and> sum_list (tr_hour_histogram r) = tr_allow_count r
     \<and> (\<forall>n \<in> set (tr_hour_histogram r). 0 \<le> n)
     \<and> tr_anomaly_observations r = tr_allow_count r \<and> 1 \<le> tr_allow_count r"

definition activity_count :: "string \<Rightarrow> string \<Rightarrow> TrustDb \<Rightarrow> int" where
  "activity_count u ip db = int (length (filter (\<lambda>a. ac_user_id a = u \<and> ac_ip a = ip) (trust_activity db)))"

definition telemetry_ok :: "TrustDb \<Rightarrow> bool" where
  "telemetry_ok db \<longleftrightarrow> distinct (map row_key (trust_signals db)) \<and> (\<forall>r \<in> set (trust_signals db). row_ok r)
     \<and> (\<forall>u ip. sumAllowsForUserIp u ip db = activity_count u ip db)"

lemma utc_hours_less [simp]: "utc_hours t < 24"
  by (simp add: utc_hours_def nat_less_iff)

lemma pad24_id [simp]: "length h = 24 \<Longrightarrow> pad24 h = h"
  by (simp add: pad24_def)

lemma sum_list_upd: "i < length xs \<Longrightarrow> sum_list (xs[i := v]) = sum_list xs - xs ! i + (v :: int)"
proof (induction xs arbitrary: i)
  case Nil
  then show ?case by simp
next
  case (Cons x xs)
  then show ?case by (cases i) auto
qed

lemma row_ok_first_row: "row_ok (first_row c ts)"
  by (auto simp: row_ok_def first_row_def sum_list_upd sum_list_replicate dest!: set_update_subset_insert [THEN subsetD])

lemma row_ok_next_row: "row_ok r \<Longrightarrow> row_ok (next_row f c ts r)"
  by (auto simp: row_ok_def next_row_def Let_def sum_list_upd dest!: set_update_subset_insert [THEN subsetD])

lemma sumAllows_alt:
  "sumAllowsForUserIp u ip db =
     (\<Sum>r\<leftarrow>trust_signals db. if tr_user_id r = u \<and> tr_ip r = ip then tr_allow_count r else 0)"
  by (simp add: sumAllowsForUserIp_def sum_list_map_filter')

lemma sum_replace_one:
  fixes g :: "'a \<Rightarrow> int"
  assumes "distinct (map key xs)" and "x \<in> set xs" and "key x = k"
  shows "(\<Sum>r\<leftarrow>map (\<lambda>r. if key r = k then y else r) xs. g r) = (\<Sum>r\<leftarrow>xs. g r) - g x + g y"
  using assms
proof (induction xs)
  case Nil
  then show ?case by simp
next
  case (Cons z zs)
  show ?case
  proof (cases "key z = k")
    case True
    with Cons.prems have "\<forall>r \<in> set zs. key r \<noteq> k" and "x = z" by (auto simp: image_iff)
    then have "map (\<lambda>r. if key r = k then y else r) zs = zs" by (simp add: map_idI)
    with True \<open>x = z\<close> show ?thesis by simp
  next
    case False
    with Cons show ?thesis by auto
  qed
qed

lemma sumAllows_upsert:
  assumes "distinct (map row_key (trust_signals db))"
  shows "sumAllowsForUserIp u ip (upsertSignalRow f c ts db) =
    sumAllowsForUserIp u ip db + (if tc_userId c = u \<and> tc_ip c = ip then 1 else 0)"
proof (cases "row_of c db")
  case None
  then show ?thesis by (auto simp: upsertSignalRow_def sumAllows_alt first_row_def)
next
  case (Some row)
  then have row: "row \<in> set (trust_signals db)" "row_key row = ctx_key c"
    using getSignalRow_key by (auto simp: ctx_key_def)
  from Some show ?thesis
    unfolding upsertSignalRow_def sumAllows_alt
    using sum_replace_one [OF assms row, of "\<lambda>r. if tr_user_id r = u \<and> tr_ip r = ip then tr_allow_count r else 0"
        "next_row f c ts row"] row(2)
    by (auto simp: row_key_def ctx_key_def o_def)
qed

lemma activity_count_upsert [simp]: "activity_count u ip (upsertSignalRow f c ts db) = activity_count u ip db"
  by (simp add: activity_count_def)

lemma activity_count_insert:
  "activity_count u ip (insertActivityRow c score t db) =
     activity_count u ip db + (if tc_userId c = u \<and> tc_ip c = ip then 1 else 0)"
  by (simp add: activity_count_def insertActivityRow_def)

lemma sumAllows_insert [simp]:
  "sumAllowsForUserIp u ip (insertActivityRow c score t db) = sumAllowsForUserIp u ip db"
  by (simp add: sumAllows_alt)

lemma upsert_rows_ok:
  assumes "distinct (map row_key (trust_signals db))" and "\<forall>r \<in> set (trust_signals db). row_ok r"
  shows "distinct (map row_key (trust_signals (upsertSignalRow f c ts db)))
    \<and> (\<forall>r \<in> set (trust_signals (upsertSignalRow f c ts db)). row_ok r)"
proof (cases "row_of c db")
  case None
  then have "ctx_key c \<notin> row_key ` set (trust_signals db)"
    by (auto simp: row_of_def find_None_iff)
  with None show ?thesis using assms
    by (auto simp: upsertSignalRow_def row_ok_first_row)
next
  case (Some row)
  then have row: "row \<in> set (trust_signals db)" "row_key row = ctx_key c"
    using getSignalRow_key by (auto simp: ctx_key_def)
  then have "map row_key (map (\<lambda>r. if row_key r = ctx_key c then next_row f c ts row else r) (trust_signals db))
      = map row_key (trust_signals db)"
    by simp
  with Some row assms show ?thesis
    by (auto simp: upsertSignalRow_def row_ok_next_row simp del: map_map)
qed

lemma telemetry_ok_record:
  assumes "telemetry_ok db" and "recordAllowOutcome f fails now dbnow c score db = Some db'"
  shows "telemetry_ok db'"
proof -
  let ?db = "insertActivityRow c score dbnow db"
  obtain ts where "db' = upsertSignalRow f c ts ?db"
    using assms(2) by (auto simp: recordAllowOutcome_def Let_def split: if_splits)
  moreover have "distinct (map row_key (trust_signals ?db))" "\<forall>r \<in> set (trust_signals ?db). row_ok r"
    using assms(1) by (auto simp: telemetry_ok_def)
  ultimately show ?thesis using assms(1) upsert_rows_ok [of ?db f c ts]
    by (simp add: telemetry_ok_def sumAllows_upsert activity_count_insert)
qed


text \<open>The database after one call, whether or not the call threw.\<close>

definition db_after :: "TrustDb option \<Rightarrow> TrustDb \<Rightarrow> TrustDb" where
  "db_after res db = (case res of None \<Rightarrow> db | Some db' \<Rightarrow> db')"

type_synonym allow_call = "bool \<times> ms \<times> ms \<times> TrustContext \<times> jsnum"

fun record_calls :: "fp \<Rightarrow> allow_call list \<Rightarrow> TrustDb \<Rightarrow> TrustDb" where
  "record_calls f [] db = db"
| "record_calls f ((fails, now, dbnow, c, score) # xs) db =
     record_calls f xs (db_after (recordAllowOutcome f fails now dbnow c score db) db)"

definition empty_db :: TrustDb where
  "empty_db = \<lparr>trust_signals = [], trust_activity = []\<rparr>"

lemma telemetry_ok_empty: "telemetry_ok empty_db"
  by (simp add: telemetry_ok_def empty_db_def sumAllowsForUserIp_def activity_count_def)

lemma telemetry_ok_calls: "telemetry_ok db \<Longrightarrow> telemetry_ok (record_calls f xs db)"
proof (induction f xs db rule: record_calls.induct)
  case (1 f db)
  then show ?case by simp
next
  case (2 f fails now dbnow c score xs db)
  then show ?case
    by (auto simp: db_after_def telemetry_ok_record split: option.splits)
qed

section \<open>The numeric columns\<close>

text \<open>The numeric columns of a stored row, as the database declares them and the upsert writes them.\<close>

definition row_num_ok :: "TrustSignalRow \<Rightarrow> bool" where
  "row_num_ok r \<longleftrightarrow> is_fin (tr_rate_ema r) \<and> nonneg (tr_rate_ema_var r)"

lemma is_fin_inst_rate: "is_fin (inst_rate f t l)"
  unfolding inst_rate_def by (rule is_fin_jdiv) (auto simp: jsint_def)

lemma row_num_ok_first_row: "row_num_ok (first_row c ts)"
  by (simp add: row_num_ok_def first_row_def nonneg_def)

lemma inst_rate_rounded: "inst_rate f t l = Fin (rnd f (60000 / real_of_int (max 1 (t - l))))"
  by (auto simp: inst_rate_def jsint_def)

text \<open>One recording: the new mean lies between the old one and the new rate, and the variance stays a non-negative number.\<close>

lemma next_row_num:
  assumes "fp_ok f" and "row_num_ok r" and "1 \<le> tr_anomaly_observations r"
  shows "row_num_ok (next_row f c ts r)"
    and "rnd f lo = lo \<Longrightarrow> rnd f hi = hi \<Longrightarrow> jle (Fin lo) (tr_rate_ema r) \<Longrightarrow> jle (tr_rate_ema r) (Fin hi) \<Longrightarrow>
      lo \<le> 60000 / real_of_int (max 1 (ts - tr_last_seen_at r)) \<Longrightarrow> 60000 / real_of_int (max 1 (ts - tr_last_seen_at r)) \<le> hi \<Longrightarrow>
      jle (Fin lo) (tr_rate_ema (next_row f c ts r)) \<and> jle (tr_rate_ema (next_row f c ts r)) (Fin hi)"
proof -
  define x0 where "x0 = 60000 / real_of_int (max 1 (ts - tr_last_seen_at r))"
  define x where "x = rnd f x0"
  define n where "n = real_of_int (tr_anomaly_observations r + 1)"
  obtain m v where mv: "tr_rate_ema r = Fin m" "tr_rate_ema_var r = Fin v" "0 \<le> v"
    using assms(2) by (auto simp: row_num_ok_def is_fin_def nonneg_def)
  define m' where "m' = rnd f (m + rnd f (rnd f (x - m) / n))"
  have n: "2 \<le> n" "n \<noteq> 0" using assms(3) by (simp_all add: n_def)
  have x: "rnd f x = x" by (simp add: x_def rnd_idem [OF assms(1)])
  have mean: "tr_rate_ema (next_row f c ts r) = Fin m'"
    using n by (simp add: next_row_def Let_def inst_rate_rounded mv jsub_def jsint_def m'_def x_def x0_def n_def)
  have "0 \<le> rnd f (rnd f (x - m) * rnd f (x - m'))" by (rule squares_update_nonneg [OF assms(1) n(1) x m'_def])
  moreover have "0 \<le> rnd f ((n - 2) * v)" using n mv(3) by (intro rnd_nonneg [OF assms(1)]) simp
  ultimately have "0 \<le> rnd f (rnd f (rnd f ((n - 2) * v) + rnd f (rnd f (x - m) * rnd f (x - m'))) / (n - 1))"
    using n by (intro rnd_nonneg [OF assms(1)] divide_nonneg_nonneg) simp_all
  moreover have "tr_rate_ema_var (next_row f c ts r) =
      Fin (rnd f (rnd f (rnd f ((n - 2) * v) + rnd f (rnd f (x - m) * rnd f (x - m'))) / (n - 1)))"
    using assms(3) n by (simp add: next_row_def Let_def inst_rate_rounded mv jsub_def jsint_def m'_def x_def x0_def n_def)
  ultimately show "row_num_ok (next_row f c ts r)" using mean by (auto simp: row_num_ok_def nonneg_def)
  assume b: "rnd f lo = lo" "rnd f hi = hi" "jle (Fin lo) (tr_rate_ema r)" "jle (tr_rate_ema r) (Fin hi)"
    "lo \<le> 60000 / real_of_int (max 1 (ts - tr_last_seen_at r))" "60000 / real_of_int (max 1 (ts - tr_last_seen_at r)) \<le> hi"
  then have "lo \<le> x" "x \<le> hi" "lo \<le> rnd f m" "rnd f m \<le> hi"
    using rnd_mono [OF assms(1), of lo] rnd_mono [OF assms(1), of _ hi] mv(1) by (auto simp: x_def x0_def)
  then have "lo \<le> m'" "m' \<le> hi" using mean_between [OF assms(1) n(1) x m'_def] by linarith+
  then show "jle (Fin lo) (tr_rate_ema (next_row f c ts r)) \<and> jle (tr_rate_ema (next_row f c ts r)) (Fin hi)"
    by (simp add: mean)
qed

section \<open>The running mean and variance\<close>

definition batch_mean :: "real list \<Rightarrow> real" where
  "batch_mean xs = sum_list xs / real (length xs)"

definition batch_sq :: "real list \<Rightarrow> real" where
  "batch_sq xs = (\<Sum>x\<leftarrow>xs. (x - batch_mean xs)\<^sup>2)"

definition batch_var :: "real list \<Rightarrow> real" where
  "batch_var xs = (if length xs \<le> 1 then 0 else batch_sq xs / (real (length xs) - 1))"

text \<open>The rates between consecutive recordings, in requests per minute.\<close>

fun rates :: "ms \<Rightarrow> ms list \<Rightarrow> real list" where
  "rates t [] = []"
| "rates t (t' # ts) = 60000 / real_of_int (max 1 (t' - t)) # rates t' ts"

lemma batch_sq_alt:
  assumes "xs \<noteq> []"
  shows "batch_sq xs = (\<Sum>x\<leftarrow>xs. x\<^sup>2) - real (length xs) * (batch_mean xs)\<^sup>2"
proof -
  have "(\<Sum>x\<leftarrow>xs. (x - m)\<^sup>2) = (\<Sum>x\<leftarrow>xs. x\<^sup>2) - 2 * m * sum_list xs + real (length xs) * m\<^sup>2" for m
    by (induction xs) (auto simp: power2_eq_square algebra_simps)
  then have "batch_sq xs = (\<Sum>x\<leftarrow>xs. x\<^sup>2) - 2 * batch_mean xs * sum_list xs + real (length xs) * (batch_mean xs)\<^sup>2"
    by (simp add: batch_sq_def)
  moreover have "sum_list xs = real (length xs) * batch_mean xs"
    using assms by (simp add: batch_mean_def)
  ultimately show ?thesis by (simp add: power2_eq_square)
qed

lemma batch_mean_snoc:
  assumes "xs \<noteq> []"
  shows "batch_mean (xs @ [x]) = batch_mean xs + (x - batch_mean xs) / (real (length xs) + 1)"
proof -
  define n where "n = real (length xs)"
  have "0 < n" using assms by (simp add: n_def)
  moreover have "batch_mean (xs @ [x]) = (sum_list xs + x) / (n + 1)" "batch_mean xs = sum_list xs / n"
    by (simp_all add: batch_mean_def n_def add.commute)
  moreover have "(a + x) / (n + 1) = a / n + (x - a / n) / (n + 1)" for a
    using \<open>0 < n\<close> by (simp add: divide_simps) (simp add: algebra_simps)
  ultimately show ?thesis unfolding n_def [symmetric] by simp
qed

lemma batch_sq_snoc:
  assumes "xs \<noteq> []"
  shows "batch_sq (xs @ [x]) = batch_sq xs + (x - batch_mean xs) * (x - batch_mean (xs @ [x]))"
proof -
  define n m where "n = real (length xs)" and "m = batch_mean xs"
  define m' where "m' = batch_mean (xs @ [x])"
  have n: "0 < n" using assms by (simp add: n_def)
  have m': "(n + 1) * m' = n * m + x"
    using batch_mean_snoc [OF assms, of x] n by (simp add: n_def m_def m'_def field_simps)
  have "batch_sq (xs @ [x]) = (\<Sum>x\<leftarrow>xs. x\<^sup>2) + x\<^sup>2 - (n + 1) * m'\<^sup>2"
    by (simp add: batch_sq_alt n_def m'_def add.commute)
  also have "\<dots> = (\<Sum>x\<leftarrow>xs. x\<^sup>2) + x\<^sup>2 - (n * m + x) * m'"
    using m' by (simp add: power2_eq_square)
  also have "\<dots> = (\<Sum>x\<leftarrow>xs. x\<^sup>2) - n * m\<^sup>2 + (x - m) * (x - m')"
  proof -
    have "n * m * m = m * ((n + 1) * m') - m * x" using m' by (simp add: algebra_simps)
    then show ?thesis by (simp add: power2_eq_square algebra_simps)
  qed
  finally show ?thesis
    using batch_sq_alt [OF assms] by (simp add: n_def m_def m'_def)
qed

text \<open>The statistics a row holds when the rates seen so far are \<open>xs\<close>.\<close>

definition row_stats :: "real list \<Rightarrow> TrustSignalRow \<Rightarrow> bool" where
  "row_stats xs r \<longleftrightarrow> xs \<noteq> [] \<and> tr_anomaly_observations r = int (length xs)
     \<and> tr_rate_ema r = Fin (batch_mean xs) \<and> tr_rate_ema_var r = Fin (batch_var xs)"

lemma row_stats_first: "row_stats [0] (first_row c ts)"
  by (simp add: row_stats_def first_row_def batch_mean_def batch_var_def)

lemma row_stats_next:
  assumes "row_stats xs r"
  shows "row_stats (xs @ [60000 / real_of_int (max 1 (ts - tr_last_seen_at r))]) (next_row exact_fp c ts r)"
proof -
  define x where "x = 60000 / real_of_int (max 1 (ts - tr_last_seen_at r))"
  define n where "n = length xs"
  have xs: "xs \<noteq> []" and n: "1 \<le> n" using assms by (auto simp: row_stats_def n_def Suc_le_eq)
  have rate: "inst_rate exact_fp ts (tr_last_seen_at r) = Fin x"
    by (auto simp: inst_rate_def jsint_def x_def)
  have mean: "batch_mean xs + (x - batch_mean xs) / (real n + 1) = batch_mean (xs @ [x])"
    using batch_mean_snoc [OF xs] by (simp add: n_def)
  have sq: "(real n - 1) * batch_var xs = batch_sq xs"
    using xs n by (cases xs) (auto simp: batch_var_def n_def batch_sq_def batch_mean_def)
  have "((real n - 1) * batch_var xs + (x - batch_mean xs) * (x - batch_mean (xs @ [x]))) / real n
      = batch_var (xs @ [x])"
    unfolding sq batch_sq_snoc [OF xs, symmetric] using n by (simp add: batch_var_def n_def)
  then show ?thesis
    using assms n mean unfolding x_def [symmetric]
    by (simp add: row_stats_def next_row_def Let_def rate jsint_def jsub_def n_def [symmetric]
        add.commute diff_conv_add_uminus [symmetric] del: diff_conv_add_uminus)
qed


text \<open>Recording one allowed request per time stamp for one identity.\<close>

fun record_times :: "fp \<Rightarrow> TrustContext \<Rightarrow> jsnum \<Rightarrow> ms list \<Rightarrow> TrustDb \<Rightarrow> TrustDb" where
  "record_times f c score [] db = db"
| "record_times f c score (t # ts) db =
     record_times f c score ts (db_after (recordAllowOutcome f False t t (c\<lparr>tc_requestTimestamp := Some t\<rparr>) score db) db)"

lemma record_times_step:
  "row_of c (db_after (recordAllowOutcome f False t t (c\<lparr>tc_requestTimestamp := Some t\<rparr>) score db) db) =
     Some (case row_of c db of None \<Rightarrow> first_row c t | Some row \<Rightarrow> next_row f c t row)"
proof -
  let ?c = "c\<lparr>tc_requestTimestamp := Some t\<rparr>"
  have "first_row ?c t = first_row c t" and "next_row f ?c t row = next_row f c t row" for row
    by (simp_all add: first_row_def next_row_def Let_def)
  then show ?thesis
    using row_of_upsert [of ?c f t "insertActivityRow ?c score t db"]
    by (simp add: recordAllowOutcome_def db_after_def split: option.splits)
qed

lemma record_times_stats:
  assumes "row_of c db = Some r" and "row_stats xs r"
  shows "\<exists>r'. row_of c (record_times exact_fp c score ts db) = Some r'
    \<and> row_stats (xs @ rates (tr_last_seen_at r) ts) r'"
  using assms
proof (induction ts arbitrary: db r xs)
  case Nil
  then show ?case by simp
next
  case (Cons t ts)
  let ?r = "next_row exact_fp c t r"
  have "row_of c (db_after (recordAllowOutcome exact_fp False t t (c\<lparr>tc_requestTimestamp := Some t\<rparr>) score db) db) = Some ?r"
    using Cons.prems(1) by (simp only: record_times_step option.case)
  from Cons.IH [OF this row_stats_next [OF Cons.prems(2)]] show ?case by simp
qed

lemma record_times_num:
  assumes "fp_ok f" and "row_of c db = Some r" and "row_num_ok r" and "1 \<le> tr_anomaly_observations r"
  shows "\<exists>r'. row_of c (record_times f c score ts db) = Some r' \<and> row_num_ok r'
    \<and> tr_anomaly_observations r' = tr_anomaly_observations r + int (length ts)
    \<and> (\<forall>lo hi. rnd f lo = lo \<and> rnd f hi = hi \<and> jle (Fin lo) (tr_rate_ema r) \<and> jle (tr_rate_ema r) (Fin hi)
         \<and> (\<forall>x \<in> set (rates (tr_last_seen_at r) ts). lo \<le> x \<and> x \<le> hi) \<longrightarrow>
         jle (Fin lo) (tr_rate_ema r') \<and> jle (tr_rate_ema r') (Fin hi))"
  using assms(2-)
proof (induction ts arbitrary: db r)
  case Nil
  then show ?case by simp
next
  case (Cons t ts)
  let ?r = "next_row f c t r"
  have row: "row_of c (db_after (recordAllowOutcome f False t t (c\<lparr>tc_requestTimestamp := Some t\<rparr>) score db) db) = Some ?r"
    using Cons.prems(1) by (simp only: record_times_step option.case)
  note num = next_row_num [OF assms(1) Cons.prems(2,3), where c = c and ts = t]
  obtain r' where r': "row_of c (record_times f c score (t # ts) db) = Some r'" "row_num_ok r'"
      "tr_anomaly_observations r' = tr_anomaly_observations ?r + int (length ts)"
      "\<forall>lo hi. rnd f lo = lo \<and> rnd f hi = hi \<and> jle (Fin lo) (tr_rate_ema ?r) \<and> jle (tr_rate_ema ?r) (Fin hi)
         \<and> (\<forall>x \<in> set (rates t ts). lo \<le> x \<and> x \<le> hi) \<longrightarrow> jle (Fin lo) (tr_rate_ema r') \<and> jle (tr_rate_ema r') (Fin hi)"
    using Cons.IH [OF row num(1)] Cons.prems(3) by auto
  have bounds: "jle (Fin lo) (tr_rate_ema r') \<and> jle (tr_rate_ema r') (Fin hi)"
    if "rnd f lo = lo \<and> rnd f hi = hi \<and> jle (Fin lo) (tr_rate_ema r) \<and> jle (tr_rate_ema r) (Fin hi)
         \<and> (\<forall>x \<in> set (rates (tr_last_seen_at r) (t # ts)). lo \<le> x \<and> x \<le> hi)" for lo hi
    using that num(2) [of lo hi] r'(4) [rule_format, of lo hi] by simp
  have "tr_anomaly_observations r' = tr_anomaly_observations r + int (length (t # ts))" using r'(3) by simp
  with r'(1,2) bounds show ?case by (intro exI [of _ r'] conjI allI impI) blast+
qed

section \<open>Properties\<close>

text \<open>
  From an empty database, whatever allowed requests are recorded and whichever transactions fail, every
  identity keeps one row whose hour histogram has 24 non-negative bins that sum to its allow count, and
  the reputation the IP rule reads for a user and an address is the number of activity rows that were
  really committed for them.
\<close>

lemma telemetry_consistent:
  "telemetry_ok (record_calls f xs empty_db)"
  by (rule telemetry_ok_calls [OF telemetry_ok_empty])

text \<open>
  The first recording of an identity counts as an observation of rate 0, although no rate was observed: in exact arithmetic
  the statistics after recordings at the times \<open>t # ts\<close> are those of the inter-request rates and one 0 before them.
\<close>

lemma phantom_observation:
  assumes "row_of c db = None"
  shows "\<exists>r. row_of c (record_times exact_fp c score (t # ts) db) = Some r \<and> row_stats (0 # rates t ts) r"
proof -
  have "row_of c (db_after (recordAllowOutcome exact_fp False t t (c\<lparr>tc_requestTimestamp := Some t\<rparr>) score db) db)
      = Some (first_row c t)"
    using assms by (simp only: record_times_step option.case)
  from record_times_stats [OF this row_stats_first, of score ts]
  show ?thesis by (auto simp: first_row_def)
qed

text \<open>
  C19. The running statistics of a known identity. Whatever way numbers are rounded, as long as it has the properties of \<open>fp_ok\<close>: from a row with a finite mean, a
  non-negative variance and at least one observation, further recordings count one observation each, keep the variance a non-negative number, and keep the mean
  within any representable bounds that hold for the mean before and for the new inter-request rates. With rounding left out, Welford's
  recurrence is the batch statistic: when the row holds the mean and the sample variance of some observations, then after further recordings it holds
  the mean and the sample variance of these observations and the new rates together.
\<close>

theorem welford_is_batch:
  assumes "fp_ok f" and "row_of c db = Some r" and "row_num_ok r" and "1 \<le> tr_anomaly_observations r"
  shows "\<exists>r' m v. row_of c (record_times f c score ts db) = Some r'
    \<and> tr_anomaly_observations r' = tr_anomaly_observations r + int (length ts)
    \<and> tr_rate_ema r' = Fin m \<and> tr_rate_ema_var r' = Fin v \<and> 0 \<le> v
    \<and> (\<forall>lo hi. rnd f lo = lo \<and> rnd f hi = hi \<and> jle (Fin lo) (tr_rate_ema r) \<and> jle (tr_rate_ema r) (Fin hi)
         \<and> (\<forall>x \<in> set (rates (tr_last_seen_at r) ts). lo \<le> x \<and> x \<le> hi) \<longrightarrow> lo \<le> m \<and> m \<le> hi)
    \<and> (\<forall>xs. f = exact_fp \<and> xs \<noteq> [] \<and> tr_anomaly_observations r = int (length xs)
         \<and> tr_rate_ema r = Fin (batch_mean xs) \<and> tr_rate_ema_var r = Fin (batch_var xs) \<longrightarrow>
         m = batch_mean (xs @ rates (tr_last_seen_at r) ts) \<and> v = batch_var (xs @ rates (tr_last_seen_at r) ts))"
proof -
  obtain r' where r': "row_of c (record_times f c score ts db) = Some r'" "row_num_ok r'"
      "tr_anomaly_observations r' = tr_anomaly_observations r + int (length ts)"
      "\<forall>lo hi. rnd f lo = lo \<and> rnd f hi = hi \<and> jle (Fin lo) (tr_rate_ema r) \<and> jle (tr_rate_ema r) (Fin hi)
         \<and> (\<forall>x \<in> set (rates (tr_last_seen_at r) ts). lo \<le> x \<and> x \<le> hi) \<longrightarrow>
         jle (Fin lo) (tr_rate_ema r') \<and> jle (tr_rate_ema r') (Fin hi)"
    using record_times_num [OF assms, of score ts] by blast
  then obtain m v where mv: "tr_rate_ema r' = Fin m" "tr_rate_ema_var r' = Fin v" "0 \<le> v"
    by (auto simp: row_num_ok_def is_fin_def nonneg_def)
  have "m = batch_mean (xs @ rates (tr_last_seen_at r) ts) \<and> v = batch_var (xs @ rates (tr_last_seen_at r) ts)"
    if "f = exact_fp" "row_stats xs r" for xs
    using record_times_stats [OF assms(2) that(2), of score ts] r'(1) mv that(1) by (auto simp: row_stats_def)
  with r' mv show ?thesis by (intro exI [of _ r'] exI [of _ m] exI [of _ v]) (simp add: row_stats_def)
qed

definition steady_client :: TrustContext where
  "steady_client = \<lparr>tc_userId = ''u'', tc_deviceId = ''d'', tc_ip = ''ip'', tc_ja4h = [], tc_requestTimestamp = None\<rparr>"

definition steady_db :: TrustDb where
  "steady_db = \<lparr>trust_signals = [(first_row steady_client 0)\<lparr>tr_rate_ema := Fin 3, tr_rate_ema_var := Fin 0\<rparr>], trust_activity = []\<rparr>"

theorem welford_is_batch_witness:
  "\<exists>r. row_of steady_client (record_times exact_fp steady_client (Fin 0) [60000, 90000] steady_db) = Some r
    \<and> tr_anomaly_observations r = 3 \<and> tr_rate_ema r = Fin 2 \<and> tr_rate_ema_var r = Fin 1"
proof -
  let ?r = "(first_row steady_client 0)\<lparr>tr_rate_ema := Fin 3, tr_rate_ema_var := Fin 0\<rparr>"
  have row: "row_of steady_client steady_db = Some ?r"
    by (simp add: getSignalRow_def steady_db_def row_key_def first_row_def steady_client_def)
  have ok: "row_num_ok ?r" "1 \<le> tr_anomaly_observations ?r" by (simp_all add: row_num_ok_def nonneg_def first_row_def)
  have xs: "[3] \<noteq> ([] :: real list)" "tr_anomaly_observations ?r = int (length [3 :: real])" "tr_rate_ema ?r = Fin (batch_mean [3])"
    "tr_rate_ema_var ?r = Fin (batch_var [3])" "tr_last_seen_at ?r = 0"
    by (simp_all add: first_row_def batch_mean_def batch_var_def)
  have ends: "batch_mean ([3] @ rates 0 [60000, 90000]) = 2" "batch_var ([3] @ rates 0 [60000, 90000]) = 1"
    by (simp_all add: batch_mean_def batch_var_def batch_sq_def)
  from welford_is_batch [OF fp_ok_exact row ok, of "Fin 0" "[60000, 90000]"] xs ends show ?thesis by fastforce
qed

end
