(* ===== verification/Ttl_Store.thy ===== *)
theory Ttl_Store
  imports Prelude
begin

text \<open>
  The contract the in-memory stores of the gateway share (\<open>FingerprintStore\<close>,
  \<open>TokenRevocationService\<close>, \<open>PendingEnrollmentStore\<close>, \<open>UsedNonceStore\<close>): a keyed store whose entries
  carry an expiry time, where a read of an expired entry deletes it and answers as if it were absent.
  \<open>lazy_reads\<close> is the read half; \<open>ttl_store\<close> adds a write that overwrites the entry of its key.
  The stores are interpreted in the theories that define them.
\<close>

locale lazy_reads =
  fixes contents :: "'s \<Rightarrow> 'k \<rightharpoonup> 'e"
    and expiry :: "'e \<Rightarrow> int"
    and answer :: "'e \<Rightarrow> 'o"
    and absent :: "'o"
    and read :: "int \<Rightarrow> 'k \<Rightarrow> 's \<Rightarrow> 'o \<times> 's"
    and wf :: "'s \<Rightarrow> bool"
  assumes read_none: "contents s k = None \<Longrightarrow> read now k s = (absent, s)"
    and read_live: "contents s k = Some e \<Longrightarrow> now < expiry e \<Longrightarrow> read now k s = (answer e, s)"
    and read_dead_answer: "contents s k = Some e \<Longrightarrow> expiry e \<le> now \<Longrightarrow> fst (read now k s) = absent"
    and read_dead_contents: "contents s k = Some e \<Longrightarrow> expiry e \<le> now \<Longrightarrow>
          contents (snd (read now k s)) = (contents s)(k := None)"
    and wf_read: "wf s \<Longrightarrow> wf (snd (read now k s))"
begin

definition answer_at :: "int \<Rightarrow> 'k \<Rightarrow> 's \<Rightarrow> 'o" where
  "answer_at now k s =
     (case contents s k of None \<Rightarrow> absent | Some e \<Rightarrow> if now < expiry e then answer e else absent)"

lemma read_answer: "fst (read now k s) = answer_at now k s"
  by (cases "contents s k") (auto simp: answer_at_def read_none read_live read_dead_answer not_less)

lemma read_contents:
  "contents (snd (read now k s)) k' =
     (case contents s k' of None \<Rightarrow> None
      | Some e \<Rightarrow> if k' = k \<and> expiry e \<le> now then None else Some e)"
proof (cases "contents s k")
  case None
  then show ?thesis by (auto simp: read_none split: option.splits)
next
  case (Some e)
  then show ?thesis
    by (cases "now < expiry e") (auto simp: read_live read_dead_contents not_less split: option.splits)
qed

text \<open>
  Lazy eviction cannot be observed: a read at an earlier time, of any key, does not change what a later
  read of any key answers.
\<close>

lemma eviction_transparent:
  assumes "t \<le> t'"
  shows "fst (read t' k' (snd (read t k s))) = fst (read t' k' s)"
  using assms by (auto simp: read_answer answer_at_def read_contents split: option.splits)

lemma evictions_transparent:
  assumes "\<forall>(t, k) \<in> set rs. t \<le> t'"
  shows "fst (read t' k' (fold (\<lambda>(t, k) s. snd (read t k s)) rs s)) = fst (read t' k' s)"
  using assms
proof (induction rs arbitrary: s)
  case Nil
  show ?case by simp
next
  case (Cons r rs)
  then show ?case by (auto simp: eviction_transparent split: prod.splits)
qed

end

locale ttl_store = lazy_reads contents expiry answer absent read wf
  for contents :: "'s \<Rightarrow> 'k \<rightharpoonup> 'e"
    and expiry :: "'e \<Rightarrow> int"
    and answer :: "'e \<Rightarrow> 'o"
    and absent :: "'o"
    and read :: "int \<Rightarrow> 'k \<Rightarrow> 's \<Rightarrow> 'o \<times> 's"
    and wf :: "'s \<Rightarrow> bool" +
  fixes "write" :: "'k \<Rightarrow> 'e \<Rightarrow> 's \<Rightarrow> 's"
  assumes write_contents: "contents (write k e s) = (contents s)(k \<mapsto> e)"
    and wf_write: "wf s \<Longrightarrow> wf (write k e s)"
begin

lemma read_after_write:
  "fst (read now k (write k e s)) = (if now < expiry e then answer e else absent)"
  by (simp add: read_answer answer_at_def write_contents)

lemma read_other_after_write:
  "k' \<noteq> k \<Longrightarrow> fst (read now k' (write k e s)) = fst (read now k' s)"
  by (simp add: read_answer answer_at_def write_contents)

text \<open>A written entry answers until it expires, whatever is read in between.\<close>

lemma written_until_expiry:
  assumes "\<forall>(t, k) \<in> set rs. t \<le> t'"
  shows "fst (read t' k (fold (\<lambda>(t, k) s. snd (read t k s)) rs (write k e s))) =
    (if t' < expiry e then answer e else absent)"
  using assms by (simp add: evictions_transparent read_after_write)

end

end
