(* ===== verification/Http.thy ===== *)
theory Http
  imports JsNum
begin

text \<open>
  Requests as the gateway sees them, the authenticated claims attached to them
  (\<open>src/src/auth/interfaces/user-claims.interface.ts\<close>), JSON values, and the extraction helpers of
  \<open>src/src/shared/request-context.util.ts\<close>. Header names of \<open>headers\<close> are the lower-cased keys Node
  produces; \<open>rawHeaders\<close> keeps the client's spelling and order.
\<close>

record UserClaims =
  userId :: string
  roles :: "string list"
  jti :: string
  exp_at :: "int option"
  email :: "string option"
  sessionId :: "string option"
  deviceId :: string

text \<open>
  JSON-like values. \<open>JUndef\<close> is \<open>undefined\<close>, \<open>JOpaque\<close> an object that is not a plain object (a Buffer,
  a Date, a class instance).
\<close>

datatype json =
    JUndef
  | JNull
  | JBool bool
  | JNum jsnum
  | JStr string
  | JArr "json list"
  | JObj "(string \<times> json) list"
  | JOpaque

datatype hval = HStr string | HArr "string list"

record Request =
  req_method :: string
  originalUrl :: "string option"
  url :: "string option"
  url_path :: string
  httpVersion :: "string option"
  headers :: "(string \<times> hval) list"
  rawHeaders :: "string list"
  remoteAddress :: "string option"
  req_ip :: "string option"
  req_body :: json
  x_ja4h :: "string option"
  user :: "UserClaims option"
  req_trustScore :: "jsnum option"
  gateway_validated :: bool

text \<open>A response written by the gateway: status, the headers it sets and the body.\<close>

record HttpResponse =
  resp_status :: nat
  resp_headers :: "(string \<times> string) list"
  resp_body :: json

definition json_response :: "nat \<Rightarrow> (string \<times> json) list \<Rightarrow> HttpResponse" where
  "json_response st fs = \<lparr>resp_status = st, resp_headers = [], resp_body = JObj fs\<rparr>"

definition jint :: "int \<Rightarrow> json" where
  "jint n = JNum (Fin (of_int n))"

definition header :: "Request \<Rightarrow> string \<Rightarrow> hval option" where
  "header req k = map_of (headers req) k"

text \<open>
  A header read through the cast \<open>as string | undefined\<close>. Node joins repeated headers into one string,
  so the array case does not occur for the names the gateway casts; it is rendered as JavaScript's
  string conversion of the array.
\<close>

definition header_string :: "Request \<Rightarrow> string \<Rightarrow> string option" where
  "header_string req k =
     (case header req k of None \<Rightarrow> None | Some (HStr s) \<Rightarrow> Some s | Some (HArr xs) \<Rightarrow> Some (join_with '','' xs))"

text \<open>The JavaScript idioms \<open>x || d\<close> on a possibly missing string and \<open>x ?? d\<close>.\<close>

definition or_else :: "string option \<Rightarrow> string \<Rightarrow> string" where
  "or_else x d = (case x of None \<Rightarrow> d | Some s \<Rightarrow> if s = [] then d else s)"

definition nullish :: "'a option \<Rightarrow> 'a \<Rightarrow> 'a" where
  "nullish x d = (case x of None \<Rightarrow> d | Some s \<Rightarrow> s)"

text \<open>The two regular expressions: four groups of one to three digits, and hexadecimal digits or colons.\<close>

definition ipv4_re :: "string \<Rightarrow> bool" where
  "ipv4_re s \<longleftrightarrow> (let ps = split_on CHR ''.'' s in
     length ps = 4 \<and> (\<forall>p \<in> set ps. 1 \<le> length p \<and> length p \<le> 3 \<and> list_all is_digit p))"

definition hex_char :: "char \<Rightarrow> bool" where
  "hex_char c \<longleftrightarrow> (let n = of_char c :: nat in
     (48 \<le> n \<and> n \<le> 57) \<or> (97 \<le> n \<and> n \<le> 102) \<or> (65 \<le> n \<and> n \<le> 70))"

definition ipv6_re :: "string \<Rightarrow> bool" where
  "ipv6_re s \<longleftrightarrow> s \<noteq> [] \<and> list_all (\<lambda>c. hex_char c \<or> c = CHR '':'') s"

definition isValidIp :: "string \<Rightarrow> bool" where
  "isValidIp ip \<longleftrightarrow> ipv4_re ip \<or> ipv6_re ip"

definition first_forwarded :: "hval \<Rightarrow> string option" where
  "first_forwarded h = (case h of HStr s \<Rightarrow> Some s | HArr [] \<Rightarrow> None | HArr (x # xs) \<Rightarrow> Some x)"

text \<open>
  \<open>extractIp\<close>: the first comma-separated entry of \<open>x-forwarded-for\<close> when it is not empty and looks like
  an address, else the socket address, else \<open>'unknown'\<close>. An empty header is falsy and ignored.
\<close>

definition extractIp :: "Request \<Rightarrow> string" where
  "extractIp req =
     (let fallback = or_else (remoteAddress req) ''unknown'' in
      case header req ''x-forwarded-for'' of
        None \<Rightarrow> fallback
      | Some h \<Rightarrow>
          (case first_forwarded h of
             None \<Rightarrow> fallback
           | Some s \<Rightarrow>
               (let first = js_trim (hd (split_on CHR '','' s))
                in if first \<noteq> [] \<and> isValidIp first then first else fallback)))"

definition extractUserAgent :: "Request \<Rightarrow> string" where
  "extractUserAgent req = or_else (header_string req ''user-agent'') ''unknown''"

definition extractDeviceId :: "Request \<Rightarrow> string option" where
  "extractDeviceId req =
     (case header_string req ''x-device-id'' of None \<Rightarrow> None | Some s \<Rightarrow> if s = [] then None else Some s)"

definition extractJa4h :: "Request \<Rightarrow> string option" where
  "extractJa4h req = (case x_ja4h req of None \<Rightarrow> None | Some v \<Rightarrow> if v = [] then None else Some v)"

text \<open>The derivation of the request path shared by the context builder, the policy and the proxy.\<close>

definition raw_url :: "Request \<Rightarrow> string" where
  "raw_url req = nullish (originalUrl req) (nullish (url req) (url_path req))"

definition req_path :: "Request \<Rightarrow> string" where
  "req_path req = before_char CHR ''?'' (raw_url req)"

text \<open>A request the witnesses of the development use.\<close>

definition sample_request :: Request where
  "sample_request = \<lparr>req_method = ''GET'', originalUrl = Some ''/api/orders/1?x=1'', url = None,
     url_path = ''/api/orders/1'', httpVersion = Some ''1.1'',
     headers = [(''accept'', HStr ''*/*''), (''user-agent'', HStr ''curl'')],
     rawHeaders = [''Accept'', ''*/*'', ''User-Agent'', ''curl''], remoteAddress = Some ''10.0.0.9'',
     req_ip = Some ''10.0.0.9'', req_body = JUndef, x_ja4h = None, user = None,
     req_trustScore = None, gateway_validated = False\<rparr>"

definition sample_claims :: UserClaims where
  "sample_claims = \<lparr>userId = ''alice'', roles = [''user''], jti = ''t1'', exp_at = Some 2000000000,
     email = None, sessionId = None, deviceId = ''d1''\<rparr>"

definition sample_user_request :: Request where
  "sample_user_request = sample_request\<lparr>user := Some sample_claims, req_trustScore := Some (Fin (1/5))\<rparr>"

lemma extractIp_cases:
  "isValidIp (extractIp req) \<or> extractIp req = or_else (remoteAddress req) ''unknown''"
  by (auto simp: extractIp_def Let_def split: option.splits)

lemma extractJa4h_nonempty: "extractJa4h req = Some v \<Longrightarrow> v \<noteq> []"
  by (auto simp: extractJa4h_def split: option.splits if_splits)

end
