(* ===== verification/Fingerprint.thy ===== *)
theory Fingerprint
  imports Ttl_Store Events Http
begin

text \<open>
  The JA4H fingerprint and its blacklist: \<open>src/src/fingerprint/fingerprint.store.ts\<close>,
  \<open>ja4h.util.ts\<close> and \<open>ja4h.middleware.ts\<close>. The blacklist is an insertion-ordered map; every operation
  that changes it returns the size event it emits. SHA-256 is the parameter \<open>sha256\<close> and the random
  number of the tarpit delay the parameter \<open>r\<close>. The store is an instance of the
  expiring-store contract of \<open>Ttl_Store\<close>, once for \<open>isBlacklisted\<close> and once for \<open>isTerminal\<close>.
\<close>

record BlacklistEntry =
  expiresAt :: ms
  terminal :: bool

type_synonym blacklist = "(string, BlacklistEntry) jsmap"

definition emitSize :: "blacklist \<Rightarrow> bus_event list" where
  "emitSize bl = [FINGERPRINT_BLACKLIST_SIZE_CHANGED (length bl)]"

definition bl_add :: "ms \<Rightarrow> string \<Rightarrow> int \<Rightarrow> bool \<Rightarrow> blacklist \<Rightarrow> blacklist \<times> bus_event list" where
  "bl_add now fpr ttlMs term bl =
     (let bl' = AList.update fpr \<lparr>expiresAt = now + ttlMs, terminal = term\<rparr> bl
      in (bl', emitSize bl'))"

definition isBlacklisted :: "ms \<Rightarrow> string \<Rightarrow> blacklist \<Rightarrow> bool \<times> blacklist \<times> bus_event list" where
  "isBlacklisted now fpr bl =
     (case map_of bl fpr of
        None \<Rightarrow> (False, bl, [])
      | Some e \<Rightarrow>
          if expiresAt e \<le> now
          then (let bl' = AList.delete fpr bl in (False, bl', emitSize bl'))
          else (True, bl, []))"

definition isTerminal :: "ms \<Rightarrow> string \<Rightarrow> blacklist \<Rightarrow> bool \<times> blacklist \<times> bus_event list" where
  "isTerminal now fpr bl =
     (case map_of bl fpr of
        None \<Rightarrow> (False, bl, [])
      | Some e \<Rightarrow>
          if expiresAt e \<le> now
          then (let bl' = AList.delete fpr bl in (False, bl', emitSize bl'))
          else (terminal e, bl, []))"

definition bl_size :: "blacklist \<Rightarrow> nat" where
  "bl_size bl = length bl"

definition bl_clear :: "blacklist \<Rightarrow> blacklist \<times> bus_event list" where
  "bl_clear bl = ([], emitSize [])"

section \<open>The fingerprint\<close>

text \<open>The entries at even indices: the loop \<open>for (i = 0; i < length; i += 2)\<close> over the raw headers.\<close>

fun header_names :: "string list \<Rightarrow> string list" where
  "header_names [] = []"
| "header_names [n] = [n]"
| "header_names (n # v # rest) = n # header_names rest"

definition ja4h_input :: "Request \<Rightarrow> string" where
  "ja4h_input req = join_with ''|''
     [req_method req, nullish (httpVersion req) ''1.1'', join_with '','' (header_names (rawHeaders req)),
      nullish (header_string req ''accept'') [], nullish (header_string req ''content-type'') []]"

definition computeJa4h :: "(string \<Rightarrow> string) \<Rightarrow> Request \<Rightarrow> string" where
  "computeJa4h sha256 req = sha256 (ja4h_input req)"

text \<open>\<open>randomDelay\<close> for \<open>Math.random() = r\<close>.\<close>

definition randomDelay :: "int \<Rightarrow> int \<Rightarrow> real \<Rightarrow> int" where
  "randomDelay lo hi r = \<lfloor>r * of_int (hi - lo)\<rfloor> + lo"

text \<open>
  What the middleware does to one request: the request with the fingerprint attached, the response it
  wrote (\<^const>\<open>None\<close> when it calls \<open>next()\<close>), the milliseconds it slept, the store and the
  emitted events.
\<close>

record Ja4hResult =
  jr_request :: Request
  jr_response :: "HttpResponse option"
  jr_delay :: int
  jr_store :: blacklist
  jr_events :: "bus_event list"

definition ja4h_middleware ::
    "(string \<Rightarrow> string) \<Rightarrow> real \<Rightarrow> ms \<Rightarrow> Request \<Rightarrow> blacklist \<Rightarrow> Ja4hResult" where
  "ja4h_middleware sha256 r now req bl =
     (let fpr = computeJa4h sha256 req; req' = req\<lparr>x_ja4h := Some fpr\<rparr>
      in case isBlacklisted now fpr bl of
           (hit, bl', es) \<Rightarrow>
             if hit
             then \<lparr>jr_request = req',
                    jr_response = Some (json_response 403
                      [(''statusCode'', jint 403), (''message'', JStr ''Forbidden'')]),
                    jr_delay = randomDelay 2000 5000 r, jr_store = bl', jr_events = es\<rparr>
             else \<lparr>jr_request = req', jr_response = None, jr_delay = 0, jr_store = bl', jr_events = es\<rparr>)"

section \<open>The store contract\<close>

interpretation blk: ttl_store map_of expiresAt "\<lambda>_. True" False
  "\<lambda>now k bl. (fst (isBlacklisted now k bl), fst (snd (isBlacklisted now k bl)))" jsmap_wf
  "AList.update"
  by unfold_locales (auto simp: isBlacklisted_def Let_def fun_eq_iff intro: inv_intros split: option.splits)

interpretation trm: ttl_store map_of expiresAt terminal False
  "\<lambda>now k bl. (fst (isTerminal now k bl), fst (snd (isTerminal now k bl)))" jsmap_wf
  "AList.update"
  by unfold_locales (auto simp: isTerminal_def Let_def fun_eq_iff intro: inv_intros split: option.splits)


section \<open>Sequences of operations\<close>

datatype bl_op =
    BlAdd ms string int bool
  | BlIsBlacklisted ms string
  | BlIsTerminal ms string
  | BlClear ms

fun bl_apply :: "bl_op \<Rightarrow> blacklist \<Rightarrow> blacklist \<times> bus_event list" where
  "bl_apply (BlAdd t f ttl tm) bl = bl_add t f ttl tm bl"
| "bl_apply (BlIsBlacklisted t f) bl = snd (isBlacklisted t f bl)"
| "bl_apply (BlIsTerminal t f) bl = snd (isTerminal t f bl)"
| "bl_apply (BlClear t) bl = bl_clear bl"

fun bl_run :: "bl_op list \<Rightarrow> blacklist \<Rightarrow> blacklist \<times> bus_event list" where
  "bl_run [] bl = (bl, [])"
| "bl_run (x # xs) bl =
     (case bl_apply x bl of (bl', es) \<Rightarrow> case bl_run xs bl' of (bl'', es') \<Rightarrow> (bl'', es @ es'))"

fun bl_op_time :: "bl_op \<Rightarrow> ms" where
  "bl_op_time (BlAdd t f ttl tm) = t"
| "bl_op_time (BlIsBlacklisted t f) = t"
| "bl_op_time (BlIsTerminal t f) = t"
| "bl_op_time (BlClear t) = t"

text \<open>The operations that may take a fingerprint's entry away before its time: overwriting and clearing.\<close>

fun bl_overrides :: "string \<Rightarrow> bl_op \<Rightarrow> bool" where
  "bl_overrides f (BlAdd t g ttl tm) = (f = g)"
| "bl_overrides f (BlClear t) = True"
| "bl_overrides f _ = False"

text \<open>The value of the size gauge after a stream of events.\<close>

fun gauge_after :: "nat \<Rightarrow> bus_event list \<Rightarrow> nat" where
  "gauge_after g [] = g"
| "gauge_after g (FINGERPRINT_BLACKLIST_SIZE_CHANGED n # es) = gauge_after n es"
| "gauge_after g (_ # es) = gauge_after g es"

lemma gauge_after_append [simp]: "gauge_after g (xs @ ys) = gauge_after (gauge_after g xs) ys"
  by (induction g xs rule: gauge_after.induct) auto

lemma bl_apply_gauge: "gauge_after (bl_size bl) (snd (bl_apply x bl)) = bl_size (fst (bl_apply x bl))"
  by (cases x)
    (auto simp: bl_add_def isBlacklisted_def isTerminal_def bl_clear_def emitSize_def bl_size_def Let_def
      split: option.splits)

lemma bl_apply_entry:
  assumes "\<not> bl_overrides f x" and "bl_op_time x < expiresAt e" and "map_of bl f = Some e"
  shows "map_of (fst (bl_apply x bl)) f = Some e"
  using assms
  by (cases x) (auto simp: bl_add_def isBlacklisted_def isTerminal_def Let_def split: option.splits)

lemma bl_run_entry:
  assumes "\<forall>x \<in> set xs. \<not> bl_overrides f x \<and> bl_op_time x < expiresAt e" and "map_of bl f = Some e"
  shows "map_of (fst (bl_run xs bl)) f = Some e"
  using assms
proof (induction xs arbitrary: bl)
  case Nil
  then show ?case by simp
next
  case (Cons x xs)
  then have "map_of (fst (bl_apply x bl)) f = Some e" by (intro bl_apply_entry) auto
  with Cons show ?case by (auto simp: split_def)
qed

lemma bl_apply_answer:
  assumes "\<not> bl_overrides f x" and "bl_op_time x \<le> now"
  shows "blk.answer_at now f (fst (bl_apply x bl)) = blk.answer_at now f bl"
  using assms
  by (cases x)
    (auto simp: blk.answer_at_def bl_add_def isBlacklisted_def isTerminal_def Let_def split: option.splits)

lemma bl_run_answer:
  assumes "\<forall>x \<in> set xs. \<not> bl_overrides f x \<and> bl_op_time x \<le> now"
  shows "blk.answer_at now f (fst (bl_run xs bl)) = blk.answer_at now f bl"
  using assms
proof (induction xs arbitrary: bl)
  case Nil
  then show ?case by simp
next
  case (Cons x xs)
  then show ?case by (auto simp: split_def bl_apply_answer)
qed

lemma randomDelay_range:
  assumes "0 \<le> r" and "r < 1" and "lo < hi"
  shows "lo \<le> randomDelay lo hi r \<and> randomDelay lo hi r < hi"
proof -
  have "r * of_int (hi - lo) < 1 * of_int (hi - lo)"
    using assms by (intro mult_strict_right_mono) auto
  then have "\<lfloor>r * of_int (hi - lo)\<rfloor> < hi - lo" by (simp add: floor_less_iff)
  moreover have "0 \<le> \<lfloor>r * of_int (hi - lo)\<rfloor>" using assms by simp
  ultimately show ?thesis by (auto simp: randomDelay_def)
qed

lemma ja4h_middleware_simps:
  "jr_response (ja4h_middleware sha256 r now req bl) =
     (if fst (isBlacklisted now (computeJa4h sha256 req) bl)
      then Some (json_response 403 [(''statusCode'', jint 403), (''message'', JStr ''Forbidden'')]) else None)"
  "jr_delay (ja4h_middleware sha256 r now req bl) =
     (if fst (isBlacklisted now (computeJa4h sha256 req) bl) then randomDelay 2000 5000 r else 0)"
  "jr_request (ja4h_middleware sha256 r now req bl) = req\<lparr>x_ja4h := Some (computeJa4h sha256 req)\<rparr>"
  by (auto simp: ja4h_middleware_def Let_def split: prod.splits)

section \<open>Properties\<close>

text \<open>
  C17. A fingerprint added to the blacklist is answered 403, after a delay of at least two and less than
  five seconds, exactly until its time to live is over: neither reads (with their lazy evictions) nor
  additions of other fingerprints in between change that.
\<close>

theorem blacklisted_until_expiry:
  assumes "\<forall>x \<in> set xs. \<not> bl_overrides (computeJa4h sha256 req) x \<and> bl_op_time x \<le> now"
    and "0 \<le> r" and "r < 1"
    and "bl = fst (bl_run xs (fst (bl_add t (computeJa4h sha256 req) ttl tm bl0)))"
  shows "if now < t + ttl
    then map_option resp_status (jr_response (ja4h_middleware sha256 r now req bl)) = Some 403
       \<and> 2000 \<le> jr_delay (ja4h_middleware sha256 r now req bl)
       \<and> jr_delay (ja4h_middleware sha256 r now req bl) < 5000
    else jr_response (ja4h_middleware sha256 r now req bl) = None"
proof -
  let ?f = "computeJa4h sha256 req"
  have "fst (isBlacklisted now ?f bl) = blk.answer_at now ?f bl"
    using blk.read_answer by simp
  also have "\<dots> = blk.answer_at now ?f (fst (bl_add t ?f ttl tm bl0))"
    using assms(1,4) by (simp add: bl_run_answer)
  also have "\<dots> = (now < t + ttl)"
    by (simp add: blk.answer_at_def bl_add_def Let_def)
  finally show ?thesis
    using randomDelay_range [OF assms(2,3), of 2000 5000]
    by (simp add: ja4h_middleware_simps json_response_def)
qed

theorem blacklisted_until_expiry_witness:
  "map_option resp_status (jr_response (ja4h_middleware (\<lambda>s. s) (1/2) 59999 sample_request
     (fst (bl_run [BlIsBlacklisted 10 ''other'']
       (fst (bl_add 0 (computeJa4h (\<lambda>s. s) sample_request) 60000 True [])))))) = Some 403"
  using blacklisted_until_expiry [of "[BlIsBlacklisted 10 ''other'']" "\<lambda>s. s" sample_request 59999 "1/2" _ 0 60000 True "[]",
      OF _ _ _ refl]
  by simp

text \<open>
  The metric that mirrors the blacklist never drifts: after any sequence of operations, the size last
  announced on the bus is the number of entries the map really holds.
\<close>

lemma blacklist_gauge_exact:
  "gauge_after (bl_size bl) (snd (bl_run xs bl)) = bl_size (fst (bl_run xs bl))"
proof (induction xs arbitrary: bl)
  case Nil
  show ?case by simp
next
  case (Cons x xs)
  then show ?case
    using bl_apply_gauge [of bl x] by (auto simp: split_def)
qed

end
