(* ===== verification/TrustScore.thy ===== *)
theory TrustScore
  imports Telemetry Fingerprint Config
begin

text \<open>
  Trust scoring: \<open>src/src/trust-score/signal-rules.ts\<close>, the providers under \<open>providers/\<close> and
  \<open>trust-score.service.ts\<close>. The rules and providers run concurrently, each with its own query; the
  parameter \<open>reads\<close> gives the database each task sees, or \<^const>\<open>None\<close> when its query rejects, and
  \<open>clk\<close> the wall clock each task reads, so every theorem holds for every interleaving with other
  requests. Arithmetic is that of \<open>JsNum\<close>. The events of the concurrent tasks are listed in task order.
\<close>

record SignalAdjustment =
  sa_source :: string
  sa_delta :: jsnum
  sa_reason :: string
  sa_decayable :: bool

datatype compare_op = GTE | GT

record SignalRule =
  sr_name :: string
  sr_decayable :: bool
  sr_query :: "TrustDb \<Rightarrow> TrustContext \<Rightarrow> TrustConfig \<Rightarrow> ms \<Rightarrow> int"
  sr_threshold :: "TrustConfig \<Rightarrow> int"
  sr_compare :: compare_op
  sr_whenMet :: "real \<times> string"
  sr_whenUnmet :: "real \<times> string"

definition ctx_time :: "TrustContext \<Rightarrow> ms \<Rightarrow> ms" where
  "ctx_time c now = (case tc_requestTimestamp c of None \<Rightarrow> now | Some t \<Rightarrow> t)"

definition device_reputation :: SignalRule where
  "device_reputation = \<lparr>sr_name = ''device_reputation'', sr_decayable = True,
     sr_query = (\<lambda>db c cfg now. countAllowsForUserDeviceIp (tc_userId c) (tc_deviceId c) (tc_ip c) db),
     sr_threshold = knownThreshold, sr_compare = GTE,
     sr_whenMet = (- 15/100, ''device_known''), sr_whenUnmet = (15/100, ''device_unknown'')\<rparr>"

definition ip_reputation :: SignalRule where
  "ip_reputation = \<lparr>sr_name = ''ip_reputation'', sr_decayable = True,
     sr_query = (\<lambda>db c cfg now. sumAllowsForUserIp (tc_userId c) (tc_ip c) db),
     sr_threshold = knownThreshold, sr_compare = GTE,
     sr_whenMet = (- 15/100, ''ip_trusted''), sr_whenUnmet = (15/100, ''ip_untrusted'')\<rparr>"

definition request_frequency :: SignalRule where
  "request_frequency = \<lparr>sr_name = ''request_frequency'', sr_decayable = False,
     sr_query = (\<lambda>db c cfg now. countActivitySince (tc_userId c) (ctx_time c now - frequencyWindowMs cfg) db),
     sr_threshold = frequencyNormalMax, sr_compare = GT,
     sr_whenMet = (20/100, ''frequency_burst''), sr_whenUnmet = (- 10/100, ''frequency_normal'')\<rparr>"

definition SIGNAL_RULES :: "SignalRule list" where
  "SIGNAL_RULES = [device_reputation, ip_reputation, request_frequency]"

definition evaluateRule :: "fp \<Rightarrow> SignalRule \<Rightarrow> TrustDb \<Rightarrow> TrustConfig \<Rightarrow> TrustContext \<Rightarrow> ms \<Rightarrow> SignalAdjustment" where
  "evaluateRule f rule db cfg c now =
     (let val = sr_query rule db c cfg now;
          threshold = sr_threshold rule cfg;
          matches = (case sr_compare rule of GTE \<Rightarrow> threshold \<le> val | GT \<Rightarrow> threshold < val);
          outcome = (if matches then sr_whenMet rule else sr_whenUnmet rule)
      in \<lparr>sa_source = sr_name rule, sa_delta = lit f (fst outcome), sa_reason = snd outcome,
          sa_decayable = sr_decayable rule\<rparr>)"

section \<open>Providers\<close>

definition ja4h_drift_compute :: "fp \<Rightarrow> TrustDb \<Rightarrow> TrustContext \<Rightarrow> SignalAdjustment \<times> bus_event list" where
  "ja4h_drift_compute f db c =
     (let stable = \<lparr>sa_source = ''ja4h_drift'', sa_delta = lit f (- 5/100), sa_reason = ''ja4h_stable'', sa_decayable = False\<rparr>
      in case row_of c db of
           None \<Rightarrow> (stable, [])
         | Some row \<Rightarrow>
             (case tr_ja4h row of
                None \<Rightarrow> (stable, [])
              | Some j \<Rightarrow>
                  if j = [] then (stable, [])
                  else if j \<noteq> tc_ja4h c
                  then (\<lparr>sa_source = ''ja4h_drift'', sa_delta = lit f (30/100), sa_reason = ''ja4h_drift'', sa_decayable = False\<rparr>,
                        [FINGERPRINT_DRIFT_DETECTED])
                  else (stable, [])))"

text \<open>\<open>reduce((a, b) => a + b, 0)\<close> over a list of numbers; \<open>x ** 2\<close> is rendered as \<open>x * x\<close>.\<close>

definition jsum :: "fp \<Rightarrow> jsnum list \<Rightarrow> jsnum" where
  "jsum f xs = foldl (jadd f) (Fin 0) xs"

definition z_hour :: "fp \<Rightarrow> int list \<Rightarrow> nat \<Rightarrow> jsnum" where
  "z_hour f hist h =
     (let n = jsint (max 1 (int (length hist)));
          meanH = jdiv f (jsum f (map jsint hist)) n;
          varH = jdiv f (jsum f (map (\<lambda>v. jmul f (jsub f (jsint v) meanH) (jsub f (jsint v) meanH)) hist)) n;
          stdH = jsqrt f (jadd f varH (lit f (1 / 10 ^ 9)))
      in if jlt (lit f (1 / 10 ^ 6)) stdH then jabs (jdiv f (jsub f (jsint (hist ! h)) meanH) stdH) else Fin 0)"

definition z_rate :: "fp \<Rightarrow> TrustSignalRow \<Rightarrow> ms \<Rightarrow> jsnum" where
  "z_rate f row now =
     jdiv f (jabs (jsub f (inst_rate f now (tr_last_seen_at row)) (tr_rate_ema row)))
            (jsqrt f (jadd f (tr_rate_ema_var row) (lit f (1 / 10 ^ 9))))"

definition behavior_anomaly_compute ::
    "fp \<Rightarrow> TrustConfig \<Rightarrow> TrustDb \<Rightarrow> TrustContext \<Rightarrow> ms \<Rightarrow> SignalAdjustment" where
  "behavior_anomaly_compute f cfg db c clock =
     (let warmup = \<lparr>sa_source = ''behavior_anomaly'', sa_delta = Fin 0, sa_reason = ''anomaly_warmup'', sa_decayable = False\<rparr>
      in case row_of c db of
           None \<Rightarrow> warmup
         | Some row \<Rightarrow>
             if tr_allow_count row < anomalyWarmupN cfg then warmup
             else
               (let hist = pad24 (tr_hour_histogram row);
                    now = ctx_time c clock;
                    raw = jadd f (z_hour f hist (utc_hours now)) (z_rate f row now)
                in \<lparr>sa_source = ''behavior_anomaly'', sa_delta = jmin (lit f (40/100)) (jmax (Fin 0) raw),
                    sa_reason = ''behavior_anomaly'', sa_decayable = False\<rparr>))"

definition decay_correction :: "fp \<Rightarrow> jsnum \<Rightarrow> SignalAdjustment list \<Rightarrow> jsnum" where
  "decay_correction f k adjs =
     foldl (\<lambda>s a. jadd f s (jmul f (sa_delta a) (jsub f k (Fin 1)))) (Fin 0)
       (filter (\<lambda>a. sa_decayable a \<and> jlt (sa_delta a) (Fin 0)) adjs)"

definition trust_decay_attenuate ::
    "fp \<Rightarrow> TrustConfig \<Rightarrow> TrustDb \<Rightarrow> TrustContext \<Rightarrow> ms \<Rightarrow> SignalAdjustment list \<Rightarrow> SignalAdjustment" where
  "trust_decay_attenuate f cfg db c clock adjs =
     (case row_of c db of
        None \<Rightarrow> \<lparr>sa_source = ''trust_decay'', sa_delta = Fin 0, sa_reason = ''trust_decay_none'', sa_decayable = False\<rparr>
      | Some row \<Rightarrow>
          (let idleMs = max 0 (ctx_time c clock - tr_last_seen_at row);
               k = jexp f (jdiv f (jneg (jsint idleMs)) (jsint (decayHalfLifeMs cfg)))
           in \<lparr>sa_source = ''trust_decay'', sa_delta = decay_correction f k adjs,
               sa_reason = ''trust_decay'', sa_decayable = False\<rparr>))"

section \<open>The service\<close>

definition faultAdjustment :: "fp \<Rightarrow> string \<Rightarrow> SignalAdjustment \<times> bus_event list" where
  "faultAdjustment f source =
     (\<lparr>sa_source = source, sa_delta = lit f (10/100), sa_reason = source @ ''_fault'', sa_decayable = False\<rparr>,
      [TRUST_PROVIDER_FAULT source])"

datatype trust_task = RuleRead string | DriftRead | AnomalyRead | DecayRead

definition rule_task ::
    "fp \<Rightarrow> TrustConfig \<Rightarrow> (trust_task \<Rightarrow> TrustDb option) \<Rightarrow> (trust_task \<Rightarrow> ms) \<Rightarrow> TrustContext \<Rightarrow> SignalRule \<Rightarrow>
      SignalAdjustment \<times> bus_event list" where
  "rule_task f cfg reads clk c rule =
     (case reads (RuleRead (sr_name rule)) of
        None \<Rightarrow> faultAdjustment f (sr_name rule)
      | Some db \<Rightarrow> (evaluateRule f rule db cfg c (clk (RuleRead (sr_name rule))), []))"

definition phase1 ::
    "fp \<Rightarrow> TrustConfig \<Rightarrow> (trust_task \<Rightarrow> TrustDb option) \<Rightarrow> (trust_task \<Rightarrow> ms) \<Rightarrow> TrustContext \<Rightarrow>
      (SignalAdjustment \<times> bus_event list) list" where
  "phase1 f cfg reads clk c =
     map (rule_task f cfg reads clk c) SIGNAL_RULES @
     [case reads DriftRead of None \<Rightarrow> faultAdjustment f ''ja4h_drift'' | Some db \<Rightarrow> ja4h_drift_compute f db c,
      case reads AnomalyRead of None \<Rightarrow> faultAdjustment f ''behavior_anomaly''
      | Some db \<Rightarrow> (behavior_anomaly_compute f cfg db c (clk AnomalyRead), [])]"

definition decay_task ::
    "fp \<Rightarrow> TrustConfig \<Rightarrow> (trust_task \<Rightarrow> TrustDb option) \<Rightarrow> (trust_task \<Rightarrow> ms) \<Rightarrow> TrustContext \<Rightarrow> SignalAdjustment list \<Rightarrow>
      SignalAdjustment \<times> bus_event list" where
  "decay_task f cfg reads clk c adjs =
     (case reads DecayRead of
        None \<Rightarrow> faultAdjustment f ''trust_decay''
      | Some db \<Rightarrow> (trust_decay_attenuate f cfg db c (clk DecayRead) adjs, []))"

definition aggregate :: "fp \<Rightarrow> SignalAdjustment list \<Rightarrow> jsnum" where
  "aggregate f adjs = clamp01 (jadd f (lit f (1/2)) (jsum f (map sa_delta adjs)))"

definition evaluateScore ::
    "fp \<Rightarrow> TrustConfig \<Rightarrow> (trust_task \<Rightarrow> TrustDb option) \<Rightarrow> (trust_task \<Rightarrow> ms) \<Rightarrow> ms \<Rightarrow> TrustContext \<Rightarrow> blacklist \<Rightarrow>
      jsnum \<times> blacklist \<times> bus_event list" where
  "evaluateScore f cfg reads clk now c bl =
     (case isTerminal now (tc_ja4h c) bl of
        (True, bl', es) \<Rightarrow> (Fin 1, bl', es)
      | (False, bl', es) \<Rightarrow>
          (let p1 = phase1 f cfg reads clk c;
               dc = decay_task f cfg reads clk c (map fst p1)
           in (aggregate f (map fst p1 @ [fst dc]), bl', es @ concat (map snd p1) @ snd dc)))"

text \<open>\<open>recordTrustContextAfterAllow\<close>: a score that is \<open>NaN\<close> throws before the transaction.\<close>

definition recordTrustContextAfterAllow ::
    "fp \<Rightarrow> bool \<Rightarrow> ms \<Rightarrow> ms \<Rightarrow> TrustContext \<Rightarrow> jsnum \<Rightarrow> TrustDb \<Rightarrow> TrustDb option" where
  "recordTrustContextAfterAllow f fails now dbnow c finalScore db =
     (if finalScore = NaN then None else recordAllowOutcome f fails now dbnow c finalScore db)"


section \<open>Finiteness and signs of the contributions\<close>

lemma is_fin_jsum: "\<forall>x \<in> set xs. is_fin x \<Longrightarrow> is_fin (jsum f xs)"
proof -
  have "\<forall>x \<in> set xs. is_fin x \<Longrightarrow> is_fin a \<Longrightarrow> is_fin (foldl (jadd f) a xs)" for a
    by (induction xs arbitrary: a) auto
  then show "\<forall>x \<in> set xs. is_fin x \<Longrightarrow> is_fin (jsum f xs)" by (simp add: jsum_def)
qed

lemma jsum_snoc: "jsum f (xs @ [x]) = jadd f (jsum f xs) x"
  by (simp add: jsum_def)

lemma nonneg_foldl:
  assumes "fp_ok f" and "\<forall>x \<in> set xs. nonneg (g x)" and "nonneg a"
  shows "nonneg (foldl (\<lambda>s x. jadd f s (g x)) a xs)"
  using assms(2,3) by (induction xs arbitrary: a) (auto intro: nonneg_jadd [OF assms(1)])

lemma nonneg_jsum: "fp_ok f \<Longrightarrow> \<forall>x \<in> set xs. nonneg x \<Longrightarrow> nonneg (jsum f xs)"
  using nonneg_foldl [of f xs "\<lambda>x. x" "Fin 0"] by (simp add: jsum_def nonneg_def)

text \<open>The guarded standard deviation is positive: the added billionth is not lost to rounding.\<close>

lemma guarded_sqrt_pos:
  assumes "fp_ok f" and "nonneg v"
  shows "\<exists>r > 0. jsqrt f (jadd f v (lit f (1 / 10 ^ 9))) = Fin r"
proof -
  obtain x where x: "v = Fin x" "0 \<le> x" using assms(2) by (auto simp: nonneg_def)
  have "0 < rnd f (1 / 10 ^ 9)" using assms(1) by (simp add: fp_ok_def)
  also have "\<dots> \<le> rnd f (x + rnd f (1 / 10 ^ 9))" using x by (intro rnd_above assms(1)) simp
  finally show ?thesis using x fsqrt_pos [OF assms(1)] by (auto simp: lit_def)
qed

lemma is_fin_z_hour:
  assumes "fp_ok f"
  shows "is_fin (z_hour f hist h)"
proof -
  define m where "m = jdiv f (jsum f (map jsint hist)) (jsint (max 1 (int (length hist))))"
  define v where "v = jdiv f (jsum f (map (\<lambda>v. jmul f (jsub f (jsint v) m) (jsub f (jsint v) m)) hist))
    (jsint (max 1 (int (length hist))))"
  have n: "0 < max 1 (int (length hist))" by simp
  then have m: "is_fin m" unfolding m_def
    by (intro is_fin_jdiv [OF is_fin_jsum]) (auto simp: jsint_def)
  then have "nonneg v" unfolding v_def using n
    by (intro nonneg_jdiv nonneg_jsum assms) (auto intro!: nonneg_square assms)
  then obtain r where "0 < r" "jsqrt f (jadd f v (lit f (1 / 10 ^ 9))) = Fin r"
    using guarded_sqrt_pos [OF assms] by blast
  with m have "is_fin (jdiv f (jsub f (jsint (hist ! h)) m) (jsqrt f (jadd f v (lit f (1 / 10 ^ 9)))))"
    by (intro is_fin_jdiv) auto
  then show ?thesis by (simp add: z_hour_def Let_def m_def v_def)
qed

lemma is_fin_z_rate:
  assumes "fp_ok f" and "row_num_ok row"
  shows "is_fin (z_rate f row now)"
proof -
  obtain r where "0 < r" "jsqrt f (jadd f (tr_rate_ema_var row) (lit f (1 / 10 ^ 9))) = Fin r"
    using guarded_sqrt_pos [OF assms(1)] assms(2) by (auto simp: row_num_ok_def)
  then show ?thesis using assms(2)
    unfolding z_rate_def by (intro is_fin_jdiv) (auto simp: row_num_ok_def is_fin_inst_rate)
qed

lemma behavior_anomaly_range:
  assumes "fp_ok f" and "\<forall>row. row_of c db = Some row \<longrightarrow> row_num_ok row"
  shows "\<exists>d. sa_delta (behavior_anomaly_compute f cfg db c t) = Fin d \<and> 0 \<le> d \<and> d \<le> rnd f (40/100)"
proof (cases "row_of c db")
  case None
  then show ?thesis by (simp add: behavior_anomaly_compute_def rnd_nonneg [OF assms(1)])
next
  case (Some row)
  then have "is_fin (jadd f (z_hour f h n) (z_rate f row t'))" for h n t'
    using assms by (simp add: is_fin_z_hour is_fin_z_rate)
  then obtain d where
      "jadd f (z_hour f (pad24 (tr_hour_histogram row)) (utc_hours (ctx_time c t))) (z_rate f row (ctx_time c t)) = Fin d"
    by (metis is_fin_def)
  with Some show ?thesis
    using rnd_nonneg [OF assms(1), of "40/100"]
    by (auto simp: behavior_anomaly_compute_def Let_def jmin_def jmax_def lit_def)
qed


definition reads_ok :: "(trust_task \<Rightarrow> TrustDb option) \<Rightarrow> TrustContext \<Rightarrow> bool" where
  "reads_ok reads c \<longleftrightarrow> (\<forall>db row. reads AnomalyRead = Some db \<longrightarrow> row_of c db = Some row \<longrightarrow> row_num_ok row)"

lemma fault_simps [simp]:
  "sa_delta (fst (faultAdjustment f n)) = lit f (10/100)"
  "sa_decayable (fst (faultAdjustment f n)) = False"
  "snd (faultAdjustment f n) = [TRUST_PROVIDER_FAULT n]"
  by (simp_all add: faultAdjustment_def)

lemma is_fin_rule_task: "is_fin (sa_delta (fst (rule_task f cfg reads clk c rule)))"
  by (auto simp: rule_task_def evaluateRule_def Let_def split: option.splits)

lemma is_fin_drift: "is_fin (sa_delta (fst (ja4h_drift_compute f db c)))"
  by (simp add: ja4h_drift_compute_def Let_def split: option.splits)

lemma is_fin_phase1:
  assumes "fp_ok f" and "reads_ok reads c"
  shows "\<forall>a \<in> set (map fst (phase1 f cfg reads clk c)). is_fin (sa_delta a)"
proof -
  have "is_fin (sa_delta (behavior_anomaly_compute f cfg db c t))" if "reads AnomalyRead = Some db" for db t
    using behavior_anomaly_range [OF assms(1), of c db cfg t] assms(2) that by (auto simp: reads_ok_def)
  then show ?thesis
    by (auto simp: phase1_def is_fin_rule_task is_fin_drift split: option.splits)
qed

text \<open>The idle factor lies in the unit interval, so attenuating a favourable contribution adds risk.\<close>

lemma idle_factor:
  assumes "fp_ok f" and "0 < h" and "0 \<le> idle"
  shows "\<exists>k. jexp f (jdiv f (jneg (jsint idle)) (jsint h)) = Fin k \<and> 0 \<le> k \<and> k \<le> 1"
proof -
  have "- real_of_int idle / real_of_int h \<le> 0" using assms by (simp add: divide_nonneg_pos)
  then have "rnd f (- real_of_int idle / real_of_int h) \<le> 0" by (rule rnd_nonpos [OF assms(1)])
  then show ?thesis using assms(2) fexp_range [OF assms(1)] by (simp add: jsint_def)
qed

lemma decay_correction_nonneg:
  assumes "fp_ok f" and "0 \<le> k" "k \<le> 1" and "\<forall>a \<in> set adjs. is_fin (sa_delta a)"
  shows "nonneg (decay_correction f (Fin k) adjs)"
  unfolding decay_correction_def
proof (rule nonneg_foldl [OF assms(1)])
  have "rnd f (k - 1) \<le> 0" using assms by (simp add: rnd_nonpos)
  then have "nonneg (jmul f (Fin d) (jsub f (Fin k) (Fin 1)))" if "d < 0" for d
    using that by (auto simp: jsub_def nonneg_def intro!: rnd_nonneg [OF assms(1)] mult_nonpos_nonpos)
  with assms(4) show "\<forall>a \<in> set (filter (\<lambda>a. sa_decayable a \<and> jlt (sa_delta a) (Fin 0)) adjs).
      nonneg (jmul f (sa_delta a) (jsub f (Fin k) (Fin 1)))"
    by (auto simp: is_fin_def)
qed (simp add: nonneg_def)

lemma attenuate_nonneg:
  assumes "fp_ok f" and "0 < decayHalfLifeMs cfg" and "\<forall>a \<in> set adjs. is_fin (sa_delta a)"
  shows "nonneg (sa_delta (trust_decay_attenuate f cfg db c t adjs))"
proof (cases "row_of c db")
  case None
  then show ?thesis by (simp add: trust_decay_attenuate_def nonneg_def)
next
  case (Some row)
  obtain k where "jexp f (jdiv f (jneg (jsint (max 0 (ctx_time c t - tr_last_seen_at row)))) (jsint (decayHalfLifeMs cfg))) = Fin k"
      "0 \<le> k" "k \<le> 1"
    using idle_factor [OF assms(1,2)] by (metis max.cobounded1)
  with Some show ?thesis
    using decay_correction_nonneg [OF assms(1)] assms(3) by (simp add: trust_decay_attenuate_def Let_def)
qed

lemma is_fin_decay_task:
  assumes "fp_ok f" and "0 < decayHalfLifeMs cfg" and "\<forall>a \<in> set adjs. is_fin (sa_delta a)"
  shows "nonneg (sa_delta (fst (decay_task f cfg reads clk c adjs)))"
  using attenuate_nonneg [OF assms] rnd_nonneg [OF assms(1), of "10/100"]
  by (auto simp: decay_task_def lit_def nonneg_def split: option.splits)

lemma evaluateScore_score:
  "fst (evaluateScore f cfg reads clk now c bl) =
     (if fst (isTerminal now (tc_ja4h c) bl) then Fin 1
      else aggregate f (map fst (phase1 f cfg reads clk c)
        @ [fst (decay_task f cfg reads clk c (map fst (phase1 f cfg reads clk c)))]))"
  by (auto simp: evaluateScore_def Let_def split: prod.splits bool.splits)

lemma aggregate_snoc_mono:
  assumes "fp_ok f" and "\<forall>a \<in> set adjs. is_fin (sa_delta a)" and "nonneg (sa_delta a)"
  shows "jle (aggregate f adjs) (aggregate f (adjs @ [a]))"
proof -
  obtain d where d: "sa_delta a = Fin d" "0 \<le> d" using assms(3) by (auto simp: nonneg_def)
  have fin: "is_fin (jsum f (map sa_delta adjs))" using assms(2) by (intro is_fin_jsum) auto
  have rep: "\<exists>y. jsum f xs = Fin (rnd f y)" if "is_fin (jsum f xs)" for xs
  proof (cases xs rule: rev_cases)
    case Nil
    then show ?thesis using assms(1) by (metis foldl_Nil fp_ok_def jsum_def)
  next
    case (snoc ys y)
    then have "jadd f (jsum f ys) y = jsum f xs" by (simp add: jsum_def)
    with that show ?thesis by (cases "jsum f ys"; cases y) (auto simp: is_fin_def)
  qed
  obtain y where y: "jsum f (map sa_delta adjs) = Fin (rnd f y)" using rep [OF fin] by blast
  have "rnd f y \<le> rnd f (rnd f y + d)" using d by (intro rnd_above assms(1)) simp
  then have "jle (jadd f (lit f (1/2)) (jsum f (map sa_delta adjs)))
      (jadd f (lit f (1/2)) (jsum f (map sa_delta (adjs @ [a]))))"
    using y d by (auto simp: jsum_snoc lit_def intro!: rnd_mono [OF assms(1)])
  then show ?thesis unfolding aggregate_def by (rule clamp01_mono)
qed

text \<open>A returning identity whose stored fingerprint differs from the one it presents now.\<close>

definition sample_ctx :: TrustContext where
  "sample_ctx = \<lparr>tc_userId = ''u'', tc_deviceId = ''d'', tc_ip = ''ip'', tc_ja4h = ''new'', tc_requestTimestamp = None\<rparr>"

definition drift_db :: TrustDb where
  "drift_db = \<lparr>trust_signals = [\<lparr>tr_user_id = ''u'', tr_device_id = ''d'', tr_ip = ''ip'', tr_ja4h = Some ''old'',
     tr_first_seen_at = 0, tr_last_seen_at = 0, tr_allow_count = 1, tr_hour_histogram = (replicate 24 0)[0 := 1],
     tr_rate_ema = Fin 0, tr_rate_ema_var = Fin 0, tr_anomaly_observations = 1\<rparr>], trust_activity = []\<rparr>"

lemma row_of_drift_db [simp]: "row_of sample_ctx drift_db = Some (hd (trust_signals drift_db))"
  by (simp add: getSignalRow_def drift_db_def sample_ctx_def row_key_def)

lemma reads_ok_drift_db: "reads_ok (\<lambda>_. Some drift_db) sample_ctx"
  by (simp add: reads_ok_def) (simp add: row_num_ok_def drift_db_def nonneg_def)

lemma drift_db_queries [simp]:
  "countAllowsForUserDeviceIp ''u'' ''d'' ''ip'' drift_db = 1"
  "sumAllowsForUserIp ''u'' ''ip'' drift_db = 1"
  "countActivitySince ''u'' t drift_db = 0"
  using row_of_drift_db
  by (simp_all add: countAllowsForUserDeviceIp_def sumAllowsForUserIp_def countActivitySince_def sample_ctx_def)
    (simp_all add: drift_db_def)

lemma sample_ctx_simps [simp]:
  "tc_userId sample_ctx = ''u''" "tc_deviceId sample_ctx = ''d''" "tc_ip sample_ctx = ''ip''" "tc_ja4h sample_ctx = ''new''"
  by (simp_all add: sample_ctx_def)

lemma drift_row_simps [simp]:
  "tr_ja4h (hd (trust_signals drift_db)) = Some ''old''"
  "tr_allow_count (hd (trust_signals drift_db)) = 1"
  by (simp_all add: drift_db_def)

lemmas score_eval = evaluateScore_score isTerminal_def phase1_def SIGNAL_RULES_def rule_task_def evaluateRule_def
  device_reputation_def ip_reputation_def request_frequency_def lit_def ja4h_drift_compute_def
  behavior_anomaly_compute_def decay_task_def trust_decay_attenuate_def decay_correction_def aggregate_def
  jsum_def clamp01_Fin default_trust_def Let_def

lemma drift_db_score: "fst (evaluateScore exact_fp default_trust (\<lambda>_. Some drift_db) clk now sample_ctx []) = Fin 1"
  using row_of_drift_db by (simp add: score_eval)

lemma drift_db_fault_score:
  "fst (evaluateScore exact_fp default_trust ((\<lambda>_. Some drift_db)(DriftRead := None)) clk now sample_ctx []) = Fin (4/5)"
  using row_of_drift_db by (simp add: score_eval)

lemma jsum_mono:
  assumes "fp_ok f" and "list_all2 (\<lambda>x y. is_fin x \<and> is_fin y \<and> jle x y) xs ys"
  shows "jle (jsum f xs) (jsum f ys)"
proof -
  have "is_fin a \<Longrightarrow> is_fin b \<Longrightarrow> jle a b \<Longrightarrow> jle (foldl (jadd f) a xs) (foldl (jadd f) b ys)" for a b
    using assms(2)
  proof (induction arbitrary: a b rule: list_all2_induct)
    case Nil
    then show ?case by simp
  next
    case (Cons x xs y ys)
    have "jle (jadd f a x) (jadd f b y)"
      using Cons.prems Cons.hyps(1) by (auto simp: is_fin_def intro!: rnd_mono [OF assms(1)])
    with Cons show ?case by simp
  qed
  then show ?thesis by (simp add: jsum_def)
qed

lemma aggregate_mono:
  assumes "fp_ok f" and "list_all2 (\<lambda>x y. is_fin (sa_delta x) \<and> is_fin (sa_delta y) \<and> jle (sa_delta x) (sa_delta y)) xs ys"
  shows "jle (aggregate f xs) (aggregate f ys)"
proof -
  have "is_fin (jsum f (map sa_delta xs))" "is_fin (jsum f (map sa_delta ys))"
    using assms(2) by (auto intro!: is_fin_jsum simp: list_all2_conv_all_nth in_set_conv_nth)
  moreover have "jle (jsum f (map sa_delta xs)) (jsum f (map sa_delta ys))"
    using assms by (intro jsum_mono) (auto simp: list_all2_map1 list_all2_map2)
  ultimately show ?thesis unfolding aggregate_def
    by (intro clamp01_mono) (auto simp: is_fin_def lit_def intro!: rnd_mono [OF assms(1)])
qed

text \<open>The rest of the tasks do not see the drift read, and decay skips the drift contribution.\<close>

lemma phase1_drift_split:
  "phase1 f cfg (reads(DriftRead := r)) clk c =
     map (rule_task f cfg reads clk c) SIGNAL_RULES @
     [case r of None \<Rightarrow> faultAdjustment f ''ja4h_drift'' | Some db \<Rightarrow> ja4h_drift_compute f db c,
      last (phase1 f cfg reads clk c)]"
  by (simp add: phase1_def rule_task_def)

lemma drift_not_decayable [simp]: "sa_decayable (fst (ja4h_drift_compute f db c)) = False"
  by (simp add: ja4h_drift_compute_def Let_def split: option.splits)

lemma decay_task_drift_split:
  "\<not> sa_decayable d \<Longrightarrow>
    decay_task f cfg (reads(DriftRead := r)) clk c (xs @ [d, b]) = decay_task f cfg reads clk c (xs @ [b])"
  by (simp add: decay_task_def trust_decay_attenuate_def decay_correction_def split: option.splits)

section \<open>The score\<close>

text \<open>
  The score is a number in the unit interval when the stored rows have finite means and non-negative variances. That the recordings keep the tables so
  is shown in \<open>Trust_Bounds\<close>.
\<close>

lemma score_bounded:
  assumes "fp_ok f" and "0 < decayHalfLifeMs cfg" and "reads_ok reads c"
  shows "\<exists>r. fst (evaluateScore f cfg reads clk now c bl) = Fin r \<and> 0 \<le> r \<and> r \<le> 1"
proof -
  let ?p = "map fst (phase1 f cfg reads clk c)"
  have fin: "\<forall>a \<in> set ?p. is_fin (sa_delta a)" by (rule is_fin_phase1 [OF assms(1,3)])
  have "is_fin (sa_delta (fst (decay_task f cfg reads clk c ?p)))"
    by (rule nonneg_is_fin [OF is_fin_decay_task [OF assms(1,2) fin]])
  with fin have "is_fin (jsum f (map sa_delta (?p @ [fst (decay_task f cfg reads clk c ?p)])))"
    by (intro is_fin_jsum) auto
  then have "is_fin (jadd f (lit f (1/2)) (jsum f (map sa_delta (?p @ [fst (decay_task f cfg reads clk c ?p)]))))"
    by simp
  then show ?thesis
    unfolding evaluateScore_score aggregate_def
    by (auto simp: is_fin_def clamp01_Fin min_def max_def)
qed

text \<open>
  The configuration schema takes any number as the half-life. With 0, an identity that is not idle divides 0 by 0: the score of a known device
  is then no number at all, whatever the rounding.
\<close>

definition known_db :: TrustDb where
  "known_db = \<lparr>trust_signals = [(hd (trust_signals drift_db))\<lparr>tr_ja4h := Some ''new'', tr_allow_count := 5\<rparr>], trust_activity = []\<rparr>"

lemma zero_half_life_no_number:
  "fst (evaluateScore exact_fp (default_trust\<lparr>decayHalfLifeMs := 0\<rparr>) (\<lambda>_. Some known_db) (\<lambda>_. 0) 0 sample_ctx []) = NaN"
proof -
  have row: "row_of sample_ctx known_db = Some ((hd (trust_signals drift_db))\<lparr>tr_ja4h := Some ''new'', tr_allow_count := 5\<rparr>)"
    by (simp add: getSignalRow_def known_db_def drift_db_def sample_ctx_def row_key_def)
  moreover have "countAllowsForUserDeviceIp ''u'' ''d'' ''ip'' known_db = 5" "sumAllowsForUserIp ''u'' ''ip'' known_db = 5"
      "countActivitySince ''u'' t known_db = 0" for t
    by (simp_all add: countAllowsForUserDeviceIp_def sumAllowsForUserIp_def countActivitySince_def getSignalRow_def known_db_def drift_db_def
        row_key_def)
  moreover have "ctx_time sample_ctx 0 = 0" "tr_last_seen_at (hd (trust_signals drift_db)) = 0"
    by (simp_all add: ctx_time_def sample_ctx_def drift_db_def)
  ultimately show ?thesis by (simp add: score_eval jsint_def clamp01_def jmin_def jmax_def jsub_def jinf_def)
qed

text \<open>
  A fingerprint the honeypot marked terminal gets the maximal score as long as its entry lives, and the
  database is not consulted: the score does not depend on the reads, and no fault is announced.
\<close>

lemma terminal_is_maximal:
  assumes "map_of bl (tc_ja4h c) = Some e" and "terminal e" and "now < expiresAt e"
  shows "evaluateScore f cfg reads clk now c bl = (Fin 1, bl, [])"
  using assms trm.read_live [of bl "tc_ja4h c" e now]
  by (auto simp: evaluateScore_def isTerminal_def)

text \<open>
  Idling never lowers the risk: the decay phase can only raise the score that the rules and
  providers of phase one give, however long the identity was idle and also when the decay query fails.
\<close>

lemma decay_never_lowers_risk:
  assumes "fp_ok f" and "0 < decayHalfLifeMs cfg" and "reads_ok reads c"
    and "\<not> fst (isTerminal now (tc_ja4h c) bl)"
  shows "jle (aggregate f (map fst (phase1 f cfg reads clk c))) (fst (evaluateScore f cfg reads clk now c bl))"
  using assms is_fin_phase1 [OF assms(1,3), of cfg clk]
  by (simp add: evaluateScore_score aggregate_snoc_mono is_fin_decay_task)


text \<open>
  A fault can lower the risk: when the stored fingerprint of the identity differs from the presented one, the
  failure of the drift query gives a score that is no higher than the one the drift signal would have
  given, because the fault contribution is smaller than the unfavourable one it replaces.
\<close>

lemma drift_fault_lowers_risk:
  assumes "fp_ok f" and "0 < decayHalfLifeMs cfg" and "reads_ok reads c"
    and "reads DriftRead = Some db" and "snd (ja4h_drift_compute f db c) = [FINGERPRINT_DRIFT_DETECTED]"
  shows "jle (fst (evaluateScore f cfg (reads(DriftRead := None)) clk now c bl))
             (fst (evaluateScore f cfg reads clk now c bl))"
proof -
  let ?rs = "map fst (map (rule_task f cfg reads clk c) SIGNAL_RULES)"
  let ?b = "fst (last (phase1 f cfg reads clk c))"
  let ?dc = "fst (decay_task f cfg reads clk c (?rs @ [?b]))"
  have reads: "reads = reads(DriftRead := Some db)" using assms(4) by auto
  have d: "sa_delta (fst (ja4h_drift_compute f db c)) = lit f (30/100)"
    using assms(5) by (auto simp: ja4h_drift_compute_def Let_def split: option.splits if_splits)
  have fin: "is_fin (sa_delta ?b)" "\<forall>a \<in> set ?rs. is_fin (sa_delta a)"
    using is_fin_phase1 [OF assms(1,3), of cfg clk] by (auto simp: phase1_def is_fin_rule_task)
  then have fdc: "is_fin (sa_delta ?dc)"
    by (intro nonneg_is_fin is_fin_decay_task assms(1,2)) auto
  have eq: "fst (evaluateScore f cfg (reads(DriftRead := r)) clk now c bl) =
      (if fst (isTerminal now (tc_ja4h c) bl) then Fin 1
       else aggregate f (?rs @ [fst (case r of None \<Rightarrow> faultAdjustment f ''ja4h_drift'' | Some db \<Rightarrow> ja4h_drift_compute f db c), ?b, ?dc]))" for r
    unfolding evaluateScore_score phase1_drift_split map_append list.map
    by (subst decay_task_drift_split) (auto split: option.splits)
  have "rnd f (10/100) \<le> rnd f (30/100)" by (intro rnd_mono assms(1)) simp
  then have "jle (aggregate f (?rs @ [fst (faultAdjustment f ''ja4h_drift''), ?b, ?dc]))
      (aggregate f (?rs @ [fst (ja4h_drift_compute f db c), ?b, ?dc]))"
    using fin fdc d
    by (intro aggregate_mono [OF assms(1)] list_all2_appendI)
      (auto simp: list_all2_same list.rel_map is_fin_def lit_def)
  then show ?thesis
    by (subst (2) reads) (simp add: eq)
qed

end
