(* ===== verification/Policy.thy ===== *)
theory Policy
  imports Threat TrustScore
begin

text \<open>
  Policy evaluation: \<open>src/src/policy/policy-subject.util.ts\<close>, \<open>policy-decision.ts\<close> and
  \<open>policy-evaluator.service.ts\<close>. The Casbin enforcer is third-party code and a parameter:
  \<open>enforce sub obj act\<close> is \<^const>\<open>None\<close> when the call throws. Its administration interface
  (\<open>addPolicy\<close>, \<open>removePolicy\<close>, \<open>savePolicy\<close>) is a parameter over an abstract enforcer state. The clock
  is read once by the trust fallback, once by each threshold getter and once for the deny signal; the
  four readings are the record \<open>EvalClock\<close>.
\<close>

section \<open>Subjects, resources and actions\<close>

definition user_subject :: "string \<Rightarrow> string" where
  "user_subject u = ''user:'' @ u"

definition role_subject :: "string \<Rightarrow> string" where
  "role_subject r = ''role:'' @ r"

definition buildSubjects :: "UserClaims \<Rightarrow> string list" where
  "buildSubjects cl = user_subject (userId cl) # map role_subject (roles cl)"

definition normalizeResource :: "string \<Rightarrow> string" where
  "normalizeResource rawPath =
     (let p = before_char CHR ''?'' rawPath
      in if 1 < length p \<and> last p = CHR ''/'' then butlast p else p)"

definition normalizeAction :: "string \<Rightarrow> string" where
  "normalizeAction m = to_upper m"

section \<open>Decisions\<close>

datatype PolicyDecision =
    ALLOW string jsnum string
  | CHALLENGE string jsnum "string option"
  | DENY string jsnum "string option"

fun decision_score :: "PolicyDecision \<Rightarrow> jsnum" where
  "decision_score (ALLOW r s m) = s"
| "decision_score (CHALLENGE r s m) = s"
| "decision_score (DENY r s m) = s"

fun label_of :: "PolicyDecision \<Rightarrow> decision_label" where
  "label_of (ALLOW r s m) = L_allow"
| "label_of (CHALLENGE r s m) = L_challenge"
| "label_of (DENY r s m) = L_deny"

type_synonym enforcer = "string \<Rightarrow> string \<Rightarrow> string \<Rightarrow> bool option"

text \<open>The loop over the subjects: \<open>Inl ()\<close> when a call throws, else the first subject that is allowed.\<close>

fun first_match :: "enforcer \<Rightarrow> string \<Rightarrow> string \<Rightarrow> string list \<Rightarrow> unit + string option" where
  "first_match enforce obj act [] = Inr None"
| "first_match enforce obj act (sub # subs) =
     (case enforce sub obj act of
        None \<Rightarrow> Inl ()
      | Some True \<Rightarrow> Inr (Some sub)
      | Some False \<Rightarrow> first_match enforce obj act subs)"

record TrustEnv =
  te_fp :: fp
  te_cfg :: TrustConfig
  te_reads :: "trust_task \<Rightarrow> TrustDb option"
  te_clk :: "trust_task \<Rightarrow> ms"

record EvalClock =
  ek_trust :: ms
  ek_challenge :: ms
  ek_deny :: ms
  ek_emit :: ms

definition inc_decision :: "decision_label \<Rightarrow> Threat \<Rightarrow> Threat" where
  "inc_decision l s = s\<lparr>metrics := (metrics s)\<lparr>pm_decisions :=
     (pm_decisions (metrics s))(l := Suc (pm_decisions (metrics s) l))\<rparr>\<rparr>"

definition inc_errors :: "Threat \<Rightarrow> Threat" where
  "inc_errors s = s\<lparr>metrics := (metrics s)\<lparr>pm_errors := Suc (pm_errors (metrics s))\<rparr>\<rparr>"

definition emitDeny :: "Request \<Rightarrow> UserClaims \<Rightarrow> string \<Rightarrow> string \<Rightarrow> ms \<Rightarrow> bus_event" where
  "emitDeny req u obj act t =
     Signal POLICY_DENY ((empty_payload t)\<lparr>pl_type := Some POLICY_DENY, pl_ip := Some (extractIp req),
       pl_userId := Some (userId u), pl_ja4h := extractJa4h req, pl_resource := Some obj, pl_action := Some act\<rparr>)"

text \<open>The score seam: the score the pipeline put on the request, else a fresh evaluation.\<close>

definition score_seam :: "TrustEnv \<Rightarrow> ms \<Rightarrow> Request \<Rightarrow> UserClaims \<Rightarrow> blacklist \<Rightarrow> jsnum \<times> blacklist \<times> bus_event list" where
  "score_seam te now req u bl =
     (case req_trustScore req of
        Some s \<Rightarrow> (s, bl, [])
      | None \<Rightarrow>
          evaluateScore (te_fp te) (te_cfg te) (te_reads te) (te_clk te) now
            \<lparr>tc_userId = userId u, tc_deviceId = deviceId u, tc_ip = extractIp req,
             tc_ja4h = nullish (extractJa4h req) [], tc_requestTimestamp = None\<rparr> bl)"

definition map_decision :: "string option \<Rightarrow> jsnum \<Rightarrow> real \<Rightarrow> real \<Rightarrow> PolicyDecision" where
  "map_decision matched score challengeT denyT =
     (case matched of
        None \<Rightarrow> DENY ''casbin_no_match'' score None
      | Some sub \<Rightarrow>
          if jle (Fin denyT) score then DENY ''score_above_deny_threshold'' score (Some sub)
          else if jlt score (Fin challengeT) then ALLOW ''score_below_challenge_threshold'' score sub
          else CHALLENGE ''score_in_challenge_band'' score (Some sub))"

definition evaluate ::
    "PolicyConfig \<Rightarrow> enforcer \<Rightarrow> TrustEnv \<Rightarrow> EvalClock \<Rightarrow> Request \<Rightarrow> blacklist \<Rightarrow> Threat \<Rightarrow>
      PolicyDecision \<times> blacklist \<times> Threat \<times> bus_event list" where
  "evaluate cfg enforce te ek req bl s =
     (case user req of
        None \<Rightarrow> (DENY ''no_user'' (Fin 1) None, bl, s, [])
      | Some u \<Rightarrow>
          (let (score, bl, es) = score_seam te (ek_trust ek) req u bl;
               subjects = buildSubjects u;
               obj = normalizeResource (nullish (originalUrl req) (url_path req));
               act = normalizeAction (req_method req)
           in case first_match enforce obj act subjects of
                Inl _ \<Rightarrow>
                  (DENY ''policy_error'' score None, bl, inc_decision L_deny (inc_errors s),
                   es @ [emitDeny req u obj act (ek_emit ek)])
              | Inr matched \<Rightarrow>
                  (let (challengeT, s) = currentChallengeThreshold cfg (ek_challenge ek) s;
                       (denyT, s) = currentDenyThreshold cfg (ek_deny ek) s;
                       d = map_decision matched score challengeT denyT;
                       s = inc_decision (label_of d) s
                   in (d, bl, s,
                       es @ (if label_of d = L_deny then [emitDeny req u obj act (ek_emit ek)] else [])))))"

text \<open>Synchronous delivery of the emitted events to the threat service, at its clock.\<close>

definition deliver :: "PolicyConfig \<Rightarrow> ms \<Rightarrow> bus_event list \<Rightarrow> Threat \<Rightarrow> Threat" where
  "deliver cfg now es s = fold (on_event cfg now) es s"

section \<open>Rule administration\<close>

type_synonym rule = "string \<times> string \<times> string"

definition addRule ::
    "('e \<Rightarrow> rule \<Rightarrow> bool \<times> 'e) \<Rightarrow> ('e \<Rightarrow> bool \<times> 'e) \<Rightarrow> rule \<Rightarrow> 'e \<Rightarrow> (string + bool) \<times> 'e" where
  "addRule addPolicy savePolicy r e =
     (let (added, e) = addPolicy e r
      in if added
         then (let (saved, e) = savePolicy e
               in if \<not> saved then (Inl ''savePolicy returned false'', e) else (Inr added, e))
         else (Inr added, e))"

definition removeRule ::
    "('e \<Rightarrow> rule \<Rightarrow> bool \<times> 'e) \<Rightarrow> ('e \<Rightarrow> bool \<times> 'e) \<Rightarrow> rule \<Rightarrow> 'e \<Rightarrow> (string + bool) \<times> 'e" where
  "removeRule removePolicy savePolicy r e =
     (let (removed, e) = removePolicy e r
      in if removed
         then (let (saved, e) = savePolicy e
               in if \<not> saved then (Inl ''savePolicy returned false'', e) else (Inr removed, e))
         else (Inr removed, e))"

section \<open>Lemmas\<close>

lemma user_subject_inject [simp]: "user_subject u = user_subject v \<longleftrightarrow> u = v"
  by (simp add: user_subject_def)

lemma user_role_subject [simp]: "user_subject u \<noteq> role_subject r" "role_subject r \<noteq> user_subject u"
  by (simp_all add: user_subject_def role_subject_def)

lemma role_subject_inject [simp]: "role_subject r = role_subject r' \<longleftrightarrow> r = r'"
  by (simp add: role_subject_def)

lemma buildSubjects_iff:
  "user_subject v \<in> set (buildSubjects cl) \<longleftrightarrow> v = userId cl"
  "role_subject r \<in> set (buildSubjects cl) \<longleftrightarrow> r \<in> set (roles cl)"
  by (auto simp: buildSubjects_def)

text \<open>The loop, specified: the first allowed subject, with every earlier one answered \<open>false\<close>.\<close>

lemma first_match_Some:
  "first_match enforce obj act subs = Inr (Some sub) \<longleftrightarrow>
     (\<exists>xs ys. subs = xs @ sub # ys \<and> enforce sub obj act = Some True
        \<and> (\<forall>x \<in> set xs. enforce x obj act = Some False))"
proof (induction subs)
  case Nil
  show ?case by simp
next
  case (Cons x subs)
  consider "enforce x obj act = None" | "enforce x obj act = Some True" | "enforce x obj act = Some False"
    by (cases "enforce x obj act") auto
  then show ?case
  proof cases
    case 3
    have "(\<exists>xs ys. x # subs = xs @ sub # ys \<and> enforce sub obj act = Some True
          \<and> (\<forall>x \<in> set xs. enforce x obj act = Some False)) \<longleftrightarrow>
        (\<exists>xs ys. subs = xs @ sub # ys \<and> enforce sub obj act = Some True
          \<and> (\<forall>x \<in> set xs. enforce x obj act = Some False))"
      using 3 by (auto simp: Cons_eq_append_conv) (metis append_Cons set_ConsD)+
    with 3 Cons show ?thesis by simp
  qed (auto simp: Cons_eq_append_conv)
qed

lemma first_match_None:
  "first_match enforce obj act subs = Inr None \<longleftrightarrow> (\<forall>s \<in> set subs. enforce s obj act = Some False)"
  by (induction subs) (auto split: option.splits bool.splits)

lemma first_match_error:
  assumes "enforce y obj act = None" and "\<forall>x \<in> set xs. enforce x obj act = Some False"
  shows "first_match enforce obj act (xs @ y # ys) = Inl ()"
  using assms by (induction xs) auto

lemma inc_simps [simp]:
  "events (inc_decision l s) = events s" "manualOverride (inc_decision l s) = manualOverride s"
  "level (inc_decision l s) = level s"
  "events (inc_errors s) = events s" "manualOverride (inc_errors s) = manualOverride s"
  by (simp_all add: inc_decision_def inc_errors_def)

definition req_obj :: "Request \<Rightarrow> string" where
  "req_obj req = normalizeResource (nullish (originalUrl req) (url_path req))"

definition req_act :: "Request \<Rightarrow> string" where
  "req_act req = normalizeAction (req_method req)"

text \<open>The levels the two threshold getters see during one evaluation.\<close>

definition challenge_level :: "PolicyConfig \<Rightarrow> EvalClock \<Rightarrow> Threat \<Rightarrow> ThreatLevel" where
  "challenge_level cfg ek s = effectiveLevel (maybeCooldown cfg (ek_challenge ek) s)"

definition deny_level :: "PolicyConfig \<Rightarrow> EvalClock \<Rightarrow> Threat \<Rightarrow> ThreatLevel" where
  "deny_level cfg ek s =
     effectiveLevel (maybeCooldown cfg (ek_deny ek) (maybeCooldown cfg (ek_challenge ek) s))"

lemma evaluate_matched:
  assumes "user req = Some u" and "score_seam te (ek_trust ek) req u bl = (sc, bl', es)"
    and "first_match enforce (req_obj req) (req_act req) (buildSubjects u) = Inr matched"
  shows "evaluate cfg enforce te ek req bl s =
    (let d = map_decision matched sc (challenge_at cfg (challenge_level cfg ek s)) (deny_at cfg (deny_level cfg ek s))
     in (d, bl', inc_decision (label_of d) (maybeCooldown cfg (ek_deny ek) (maybeCooldown cfg (ek_challenge ek) s)),
         es @ (if label_of d = L_deny then [emitDeny req u (req_obj req) (req_act req) (ek_emit ek)] else [])))"
  using assms
  by (simp add: evaluate_def req_obj_def req_act_def Let_def currentChallengeThreshold_def
      currentDenyThreshold_def challenge_level_def deny_level_def)

lemma evaluate_error:
  assumes "user req = Some u" and "score_seam te (ek_trust ek) req u bl = (sc, bl', es)"
    and "first_match enforce (req_obj req) (req_act req) (buildSubjects u) = Inl v"
  shows "evaluate cfg enforce te ek req bl s =
    (DENY ''policy_error'' sc None, bl', inc_decision L_deny (inc_errors s),
     es @ [emitDeny req u (req_obj req) (req_act req) (ek_emit ek)])"
  using assms by (simp add: evaluate_def req_obj_def req_act_def Let_def)

lemma evaluate_no_user: "user req = None \<Longrightarrow> evaluate cfg enforce te ek req bl s = (DENY ''no_user'' (Fin 1) None, bl, s, [])"
  by (simp add: evaluate_def)

lemmas evaluate_branches = evaluate_matched evaluate_error evaluate_no_user

lemma signal_emitDeny [simp]: "signal_of (emitDeny req u obj act t) = Some POLICY_DENY"
  by (simp add: emitDeny_def)

text \<open>Scoring announces drift, faults and blacklist sizes, never a threat signal.\<close>

lemma signals_isTerminal [simp]: "signals (snd (snd (isTerminal now f bl))) = []"
  by (auto simp: isTerminal_def emitSize_def Let_def split: option.splits)

lemma signals_concat: "\<forall>x \<in> set xs. signals x = [] \<Longrightarrow> signals (concat xs) = []"
  by (induction xs) auto

lemma signals_rule_task [simp]: "signals (snd (rule_task f cfg reads clk c r)) = []"
  by (auto simp: rule_task_def split: option.splits)

lemma signals_drift [simp]: "signals (snd (ja4h_drift_compute f db c)) = []"
  by (auto simp: ja4h_drift_compute_def Let_def split: option.splits)

lemma signals_phase1: "\<forall>x \<in> set (map snd (phase1 f cfg reads clk c)). signals x = []"
  by (auto simp: phase1_def split: option.splits)

lemma signals_evaluateScore [simp]: "signals (snd (snd (evaluateScore f cfg reads clk now c bl))) = []"
proof -
  obtain b bl' es where t: "isTerminal now (tc_ja4h c) bl = (b, bl', es)" by (cases "isTerminal now (tc_ja4h c) bl") auto
  then have "signals es = []" using signals_isTerminal [of now "tc_ja4h c" bl] by simp
  moreover have "signals (snd (decay_task f cfg reads clk c adjs)) = []" for adjs
    by (auto simp: decay_task_def split: option.splits)
  ultimately show ?thesis
    using t signals_concat [OF signals_phase1]
    by (cases b) (auto simp: evaluateScore_def Let_def)
qed

lemma signals_score_seam [simp]: "signals (snd (snd (score_seam te now req u bl))) = []"
  by (simp add: score_seam_def split: option.splits)

fun severity :: "decision_label \<Rightarrow> nat" where
  "severity L_allow = 0"
| "severity L_challenge = 1"
| "severity L_deny = 2"

lemma map_decision_mono:
  assumes "c' \<le> c" and "d' \<le> d"
  shows "severity (label_of (map_decision m sc c d)) \<le> severity (label_of (map_decision m sc c' d'))"
proof (cases sc)
  case (Fin r)
  then show ?thesis using assms by (auto simp: map_decision_def split: option.splits)
qed (auto simp: map_decision_def split: option.splits)

lemma threshold_antimono:
  assumes "config_valid cfg m" and "a \<le> b"
  shows "challenge_at cfg b \<le> challenge_at cfg a \<and> deny_at cfg b \<le> deny_at cfg a"
  using assms by (cases a; cases b) (auto simp: config_valid_def cross_field_check_None level_less_defs)

section \<open>Sequences of evaluations\<close>

text \<open>One evaluation with its events delivered to the threat service, and a sequence of them.\<close>

fun eval_run ::
    "PolicyConfig \<Rightarrow> enforcer \<Rightarrow> TrustEnv \<Rightarrow> (EvalClock \<times> Request) list \<Rightarrow> blacklist \<Rightarrow> Threat \<Rightarrow>
      PolicyDecision list \<times> Threat" where
  "eval_run cfg enforce te [] bl s = ([], s)"
| "eval_run cfg enforce te ((ek, req) # xs) bl s =
     (case evaluate cfg enforce te ek req bl s of
        (d, bl, s, es) \<Rightarrow>
          (case eval_run cfg enforce te xs bl (deliver cfg (ek_emit ek) es s) of (ds, s) \<Rightarrow> (d # ds, s)))"

definition deny_at_time :: "ms \<Rightarrow> WindowEvent" where
  "deny_at_time t = \<lparr>ev_ts = t, ev_type = POLICY_DENY\<rparr>"

lemma evaluate_deny_state:
  assumes "user req = Some u" and "req_trustScore req = Some sc"
    and "evaluate cfg enforce te ek req bl s = (d, bl', s1, es)" and "label_of d = L_deny"
  shows "events (deliver cfg t es s1) = window_after cfg t POLICY_DENY (events s)
    \<and> manualOverride (deliver cfg t es s1) = manualOverride s
    \<and> (manualOverride s = None \<longrightarrow>
        level (deliver cfg t es s1) = spec_level cfg (window_after cfg t POLICY_DENY (events s)))"
proof -
  have seam: "score_seam te (ek_trust ek) req u bl = (sc, bl, [])"
    using assms(2) by (simp add: score_seam_def)
  have "\<exists>p. es = [Signal POLICY_DENY p]" and "events s1 = events s" and "manualOverride s1 = manualOverride s"
    using assms(3,4)
    by (cases "first_match enforce (req_obj req) (req_act req) (buildSubjects u)";
        auto simp: evaluate_error [OF assms(1) seam] evaluate_matched [OF assms(1) seam] Let_def emitDeny_def)+
  then show ?thesis by (auto simp: deliver_def record_signal_level)
qed

text \<open>A run of denials inside one window keeps all its events at the end of the window.\<close>

lemma window_after_suffix:
  assumes "es = pre @ map deny_at_time ts" and "\<forall>t \<in> set ts. now - threatWindowMs cfg \<le> t"
    and "int (Suc (length ts)) \<le> threatWindowMaxEvents cfg" and "0 < threatWindowMs cfg"
  shows "\<exists>pre'. window_after cfg now POLICY_DENY es = pre' @ map deny_at_time (ts @ [now])"
proof -
  let ?n = "nat (int (Suc (length es)) - threatWindowMaxEvents cfg)"
  let ?ds = "map deny_at_time (ts @ [now])"
  have n: "?n \<le> length pre" using assms(1,3) by simp
  have "drop ?n (es @ [deny_at_time now]) = drop ?n pre @ ?ds"
    using n assms(1) by simp
  moreover have keep: "dropWhile (\<lambda>e. ev_ts e < now - threatWindowMs cfg) ?ds = ?ds"
    using assms(2,4) by (cases ts) (auto simp: deny_at_time_def)
  moreover have "\<exists>pre'. dropWhile P (xs @ ys) = pre' @ ys" if "dropWhile P ys = ys"
    for P :: "WindowEvent \<Rightarrow> bool" and xs ys
    using that by (induction xs) (auto intro: exI [of _ "_ # _"])
  ultimately show ?thesis by (simp add: window_after_def deny_at_time_def)
qed

lemma spec_level_denies:
  assumes "threatCriticalDenies cfg \<le> int (length ts)"
  shows "spec_level cfg (pre @ map deny_at_time ts) = Critical"
proof -
  have "count_of (map deny_at_time ts) POLICY_DENY = int (length ts)"
    by (simp add: count_of_def deny_at_time_def filter_map o_def)
  moreover have "count_of (xs @ ys) n = count_of xs n + count_of ys n" and "0 \<le> count_of xs n" for xs ys n
    by (simp_all add: count_of_def)
  ultimately have "threatCriticalDenies cfg \<le> count_of (pre @ map deny_at_time ts) POLICY_DENY"
    using assms by (smt (verit))
  then show ?thesis by (simp add: spec_level_def reaches_critical_def)
qed

lemma deny_run_window:
  assumes "eval_run cfg enforce te xs bl s = (ds, s')"
    and "\<forall>d \<in> set ds. label_of d = L_deny"
    and "\<forall>(ek, req) \<in> set xs. user req \<noteq> None \<and> req_trustScore req \<noteq> None"
    and "events s = pre @ map deny_at_time ts" and "manualOverride s = None"
    and "\<forall>t \<in> set ts \<union> (ek_emit \<circ> fst) ` set xs. \<forall>t' \<in> (ek_emit \<circ> fst) ` set xs. t' - threatWindowMs cfg \<le> t"
    and "int (length ts + length xs) \<le> threatWindowMaxEvents cfg" and "0 < threatWindowMs cfg"
    and "xs \<noteq> [] \<or> level s = spec_level cfg (events s)"
  shows "(\<exists>pre'. events s' = pre' @ map deny_at_time (ts @ map (ek_emit \<circ> fst) xs))
    \<and> level s' = spec_level cfg (events s')"
  using assms
proof (induction xs arbitrary: bl s ds pre ts)
  case Nil
  then show ?case by auto
next
  case (Cons x xs)
  obtain ek req where x: "x = (ek, req)" by (cases x)
  obtain d bl1 s1 es where ev: "evaluate cfg enforce te ek req bl s = (d, bl1, s1, es)"
    by (cases "evaluate cfg enforce te ek req bl s") auto
  let ?s = "deliver cfg (ek_emit ek) es s1"
  obtain ds' where run: "eval_run cfg enforce te xs bl1 ?s = (ds', s')" and ds: "ds = d # ds'"
    using Cons.prems(1) x ev by (auto split: prod.splits)
  obtain u sc where u: "user req = Some u" and sc: "req_trustScore req = Some sc"
    using Cons.prems(3) x by auto
  have d: "label_of d = L_deny" using Cons.prems(2) ds by simp
  note st = evaluate_deny_state [OF u sc ev d, of "ek_emit ek"]
  obtain pre' where pre': "window_after cfg (ek_emit ek) POLICY_DENY (events s) = pre' @ map deny_at_time (ts @ [ek_emit ek])"
    using window_after_suffix [OF Cons.prems(4), of "ek_emit ek" cfg] Cons.prems(6,7,8) x by auto
  have ev': "events ?s = pre' @ map deny_at_time (ts @ [ek_emit ek])" using st pre' by simp
  have "(\<exists>pre'. events s' = pre' @ map deny_at_time ((ts @ [ek_emit ek]) @ map (ek_emit \<circ> fst) xs))
      \<and> level s' = spec_level cfg (events s')"
  proof (rule Cons.IH [OF run])
    show "\<forall>d \<in> set ds'. label_of d = L_deny" using Cons.prems(2) ds by simp
    show "\<forall>(ek, req) \<in> set xs. user req \<noteq> None \<and> req_trustScore req \<noteq> None" using Cons.prems(3) by simp
    show "events ?s = pre' @ map deny_at_time (ts @ [ek_emit ek])" by (rule ev')
    show "manualOverride ?s = None" using st Cons.prems(5) by simp
    show "\<forall>t \<in> set (ts @ [ek_emit ek]) \<union> (ek_emit \<circ> fst) ` set xs. \<forall>t' \<in> (ek_emit \<circ> fst) ` set xs. t' - threatWindowMs cfg \<le> t"
      using Cons.prems(6) x by auto
    show "int (length (ts @ [ek_emit ek]) + length xs) \<le> threatWindowMaxEvents cfg" using Cons.prems(7) by simp
    show "xs \<noteq> [] \<or> level ?s = spec_level cfg (events ?s)" using st Cons.prems(5) by simp
  qed (rule Cons.prems(8))
  then show ?case using x by (simp add: o_def)
qed

lemma first_match_never: "first_match (\<lambda>_ _ _. Some False) obj act subs = Inr None"
  by (induction subs) auto

lemma eval_run_no_match:
  assumes "\<forall>(ek, req) \<in> set xs. user req \<noteq> None"
  shows "\<forall>d \<in> set (fst (eval_run cfg (\<lambda>_ _ _. Some False) te xs bl s)). label_of d = L_deny"
  using assms
proof (induction xs arbitrary: bl s)
  case Nil
  then show ?case by simp
next
  case (Cons x xs)
  obtain ek req u where x: "x = (ek, req)" and u: "user req = Some u" using Cons.prems by (cases x) auto
  obtain sc bl' es where seam: "score_seam te (ek_trust ek) req u bl = (sc, bl', es)"
    by (cases "score_seam te (ek_trust ek) req u bl") auto
  have "label_of (fst (evaluate cfg (\<lambda>_ _ _. Some False) te ek req bl s)) = L_deny"
    by (simp add: evaluate_matched [OF u seam first_match_never] Let_def map_decision_def)
  with Cons x show ?case by (auto split: prod.splits) (metis fst_conv)
qed

text \<open>The environment of the witnesses: every read finds an empty database.\<close>

definition sample_te :: TrustEnv where
  "sample_te = \<lparr>te_fp = exact_fp, te_cfg = default_trust, te_reads = (\<lambda>_. Some empty_db), te_clk = (\<lambda>_. 0)\<rparr>"

definition sample_ek :: EvalClock where
  "sample_ek = \<lparr>ek_trust = 0, ek_challenge = 0, ek_deny = 0, ek_emit = 0\<rparr>"

lemma maybeCooldown_init [simp]: "maybeCooldown default_policy 0 (init_threat 0) = init_threat 0"
  by (simp add: maybeCooldown_def init_threat_def default_policy_def)

lemma sample_user_simps [simp]:
  "user sample_user_request = Some sample_claims" "req_trustScore sample_user_request = Some (Fin (1/5))"
  "buildSubjects sample_claims = [''user:alice'', ''role:user'']"
  by (simp_all add: sample_user_request_def sample_claims_def buildSubjects_def user_subject_def role_subject_def)

lemma sample_allow:
  "evaluate default_policy (\<lambda>_ _ _. Some True) sample_te sample_ek sample_user_request [] (init_threat 0) =
     (ALLOW ''score_below_challenge_threshold'' (Fin (1/5)) ''user:alice'', [], inc_decision L_allow (init_threat 0), [])"
proof -
  have "challenge_level default_policy sample_ek (init_threat 0) = Normal" "deny_level default_policy sample_ek (init_threat 0) = Normal"
    by (simp_all add: challenge_level_def deny_level_def sample_ek_def) (simp_all add: effectiveLevel_def init_threat_def)
  then show ?thesis
    by (simp add: evaluate_matched [of _ sample_claims _ _ _ "Fin (1/5)" "[]" "[]" _ "Some ''user:alice''"]
        score_seam_def map_decision_def Let_def sample_ek_def)
      (simp add: default_policy_def)
qed

section \<open>Properties\<close>

text \<open>
  C21. An ALLOW is justified: the request carries a user, the matched subject is that user's own subject or
  one of the roles of its token, the enforcer allowed that subject on the request's path and method
  and answered \<open>false\<close> for every subject tried before, and the score is a number below the challenge
  threshold and not at or above the deny threshold of the threat level in force. No deny signal is emitted.
\<close>

theorem allow_is_justified:
  assumes "evaluate cfg enforce te ek req bl s = (ALLOW r sc m, bl', s', es)"
  shows "\<exists>u before after. user req = Some u
    \<and> (m = user_subject (userId u) \<or> (\<exists>r \<in> set (roles u). m = role_subject r))
    \<and> buildSubjects u = before @ m # after
    \<and> enforce m (req_obj req) (req_act req) = Some True
    \<and> (\<forall>x \<in> set before. enforce x (req_obj req) (req_act req) = Some False)
    \<and> (\<exists>x. sc = Fin x \<or> sc = NInf) \<and> jlt sc (Fin (challenge_at cfg (challenge_level cfg ek s)))
    \<and> \<not> jle (Fin (deny_at cfg (deny_level cfg ek s))) sc
    \<and> POLICY_DENY \<notin> set (signals es)"
proof -
  obtain u where u: "user req = Some u" using assms by (cases "user req") (auto simp: evaluate_no_user)
  obtain sc0 bl0 es0 where seam: "score_seam te (ek_trust ek) req u bl = (sc0, bl0, es0)"
    by (cases "score_seam te (ek_trust ek) req u bl") auto
  from assms obtain matched where fm: "first_match enforce (req_obj req) (req_act req) (buildSubjects u) = Inr matched"
    using evaluate_error [OF u seam, of enforce]
    by (cases "first_match enforce (req_obj req) (req_act req) (buildSubjects u)") auto
  note ev = evaluate_matched [OF u seam fm, of cfg s]
  have md: "map_decision matched sc0 (challenge_at cfg (challenge_level cfg ek s)) (deny_at cfg (deny_level cfg ek s)) = ALLOW r sc m"
    and es: "es = es0"
    using assms ev by (auto simp: Let_def)
  then have m: "matched = Some m" and sc: "sc0 = sc"
    by (auto simp: map_decision_def split: option.splits if_splits)
  from fm m obtain before after where split: "buildSubjects u = before @ m # after"
      "enforce m (req_obj req) (req_act req) = Some True"
      "\<forall>x \<in> set before. enforce x (req_obj req) (req_act req) = Some False"
    by (auto simp: first_match_Some)
  then have "m \<in> set (buildSubjects u)" by simp
  then have "m = user_subject (userId u) \<or> (\<exists>r \<in> set (roles u). m = role_subject r)"
    by (auto simp: buildSubjects_def)
  moreover have lt: "jlt sc (Fin (challenge_at cfg (challenge_level cfg ek s)))"
      "\<not> jle (Fin (deny_at cfg (deny_level cfg ek s))) sc"
    using md m sc by (auto simp: map_decision_def split: if_splits)
  moreover have "\<exists>x. sc = Fin x \<or> sc = NInf" using lt(1) by (cases sc) auto
  moreover have "signals es = []"
    using es seam signals_score_seam [of te "ek_trust ek" req u bl] by simp
  ultimately show ?thesis using u split by (metis empty_iff empty_set)
qed

theorem allow_is_justified_witness:
  "\<exists>u before after. user sample_user_request = Some u \<and> buildSubjects u = before @ ''user:alice'' # after"
  using allow_is_justified [OF sample_allow] by blast

text \<open>
  C22. An enforcer failure is a denial: when the enforcer throws for a subject before any subject was
  allowed, the decision is DENY with reason \<open>policy_error\<close> whatever the score, exactly one deny signal is
  emitted and the error and the deny counters grow by one each.
\<close>

theorem enforcer_error_denies:
  assumes "user req = Some u" and "buildSubjects u = before @ y # after"
    and "\<forall>x \<in> set before. enforce x (req_obj req) (req_act req) = Some False"
    and "enforce y (req_obj req) (req_act req) = None"
  shows "\<exists>sc bl' s' es. evaluate cfg enforce te ek req bl s = (DENY ''policy_error'' sc None, bl', s', es)
    \<and> signals es = [POLICY_DENY]
    \<and> pm_errors (metrics s') = Suc (pm_errors (metrics s))
    \<and> pm_decisions (metrics s') L_deny = Suc (pm_decisions (metrics s) L_deny)"
proof -
  obtain sc bl' es where seam: "score_seam te (ek_trust ek) req u bl = (sc, bl', es)"
    by (cases "score_seam te (ek_trust ek) req u bl") auto
  have "signals es = []" using seam signals_score_seam [of te "ek_trust ek" req u bl] by simp
  moreover have "first_match enforce (req_obj req) (req_act req) (buildSubjects u) = Inl ()"
    using assms(2-4) by (simp add: first_match_error)
  ultimately show ?thesis
    using evaluate_error [OF assms(1) seam, of enforce "()" cfg s] by (simp add: inc_decision_def inc_errors_def)
qed

theorem enforcer_error_denies_witness:
  "\<exists>sc bl' s' es. evaluate default_policy (\<lambda>_ _ _. None) sample_te sample_ek sample_user_request [] (init_threat 0) =
      (DENY ''policy_error'' sc None, bl', s', es) \<and> signals es = [POLICY_DENY]"
  using enforcer_error_denies [of sample_user_request sample_claims "[]" "''user:alice''" "[''role:user'']" "\<lambda>_ _ _. None"
      default_policy sample_te sample_ek "[]" "init_threat 0"]
  by auto

text \<open>
  Escalation only tightens: under a validated configuration, the same request with the same score and
  enforcer is decided at least as severely when both threat levels it sees are at least as high.
\<close>

lemma escalation_only_tightens:
  assumes "config_valid cfg mf"
    and "challenge_level cfg ek s \<le> challenge_level cfg ek' s'" and "deny_level cfg ek s \<le> deny_level cfg ek' s'"
    and "req_trustScore req = Some sc"
  shows "severity (label_of (fst (evaluate cfg enforce te ek req bl s)))
    \<le> severity (label_of (fst (evaluate cfg enforce te ek' req bl s')))"
proof (cases "user req")
  case None
  then show ?thesis by (simp add: evaluate_no_user)
next
  case (Some u)
  have seam: "score_seam te (ek_trust e) req u bl = (sc, bl, [])" for e
    using assms(4) by (simp add: score_seam_def)
  show ?thesis
  proof (cases "first_match enforce (req_obj req) (req_act req) (buildSubjects u)")
    case (Inl v)
    then show ?thesis by (simp add: evaluate_error [OF Some seam])
  next
    case (Inr matched)
    then show ?thesis
      using threshold_antimono [OF assms(1,2)] threshold_antimono [OF assms(1,3)]
      by (simp add: evaluate_matched [OF Some seam] Let_def map_decision_mono)
  qed
qed

text \<open>
  C23. A flood of denials locks the gateway down: if, without an override, consecutive evaluations of
  authenticated requests are all denied, their signals lie within one window and there are at least
  \<open>threatCriticalDenies\<close> of them, then the threat level is \<open>Critical\<close> afterwards.
\<close>

theorem deny_flood_escalates:
  assumes "eval_run cfg enforce te xs bl s = (ds, s')" and "\<forall>d \<in> set ds. label_of d = L_deny"
    and "\<forall>(ek, req) \<in> set xs. user req \<noteq> None \<and> req_trustScore req \<noteq> None"
    and "manualOverride s = None"
    and "\<forall>x \<in> set xs. \<forall>y \<in> set xs. ek_emit (fst y) - threatWindowMs cfg \<le> ek_emit (fst x)"
    and "threatCriticalDenies cfg \<le> int (length xs)" and "int (length xs) \<le> threatWindowMaxEvents cfg"
    and "config_valid cfg mf"
  shows "level s' = Critical"
proof -
  have pos: "0 < threatWindowMs cfg" using config_validD [OF assms(8)] by simp
  have "1 \<le> threatCriticalDenies cfg" using assms(8) by (simp add: config_valid_def policy_ranges_def)
  then have ne: "xs \<noteq> []" using assms(6) by auto
  have "\<exists>pre'. events s' = pre' @ map deny_at_time ([] @ map (ek_emit \<circ> fst) xs)"
    and lv: "level s' = spec_level cfg (events s')"
    using deny_run_window [OF assms(1-3), of "events s" "[]"] assms(4,5,7) pos ne by auto
  then obtain pre' where "events s' = pre' @ map deny_at_time (map (ek_emit \<circ> fst) xs)" by auto
  then show ?thesis
    using lv spec_level_denies [of cfg "map (ek_emit \<circ> fst) xs" pre'] assms(6) by simp
qed

theorem deny_flood_escalates_witness:
  "level (snd (eval_run (default_policy\<lparr>threatElevatedDenies := 1, threatCriticalDenies := 2\<rparr>) (\<lambda>_ _ _. Some False)
      sample_te [(sample_ek, sample_user_request), (sample_ek, sample_user_request)] [] (init_threat 0))) = Critical"
  using deny_flood_escalates [OF prod.collapse [symmetric] eval_run_no_match,
      of "[(sample_ek, sample_user_request), (sample_ek, sample_user_request)]" "init_threat 0"
        "default_policy\<lparr>threatElevatedDenies := 1, threatCriticalDenies := 2\<rparr>" "default_mfa [] []" sample_te "[]"]
  by (simp add: init_threat_def default_policy_def default_mfa_def config_valid_def policy_ranges_def
      unit_range_def cross_field_check_None del: eval_run.simps)

text \<open>
  Denials and signals: an evaluation of an authenticated request emits exactly one deny signal when it
  denies and none otherwise; the denial of a request without a user emits nothing and counts nothing.
\<close>

lemma deny_signal_exact:
  "if user req = None then evaluate cfg enforce te ek req bl s = (DENY ''no_user'' (Fin 1) None, bl, s, [])
   else signals (snd (snd (snd (evaluate cfg enforce te ek req bl s)))) =
     (if label_of (fst (evaluate cfg enforce te ek req bl s)) = L_deny then [POLICY_DENY] else [])"
proof (cases "user req")
  case None
  then show ?thesis by (simp add: evaluate_no_user)
next
  case (Some u)
  obtain sc bl' es where seam: "score_seam te (ek_trust ek) req u bl = (sc, bl', es)"
    by (cases "score_seam te (ek_trust ek) req u bl") auto
  then have "signals es = []" using signals_score_seam [of te "ek_trust ek" req u bl] by simp
  then show ?thesis using Some
    by (cases "first_match enforce (req_obj req) (req_act req) (buildSubjects u)")
      (auto simp: evaluate_error [OF Some seam] evaluate_matched [OF Some seam] Let_def)
qed

end
