(* ===== verification/Auth.thy ===== *)
theory Auth
  imports Http Events Ttl_Store Config
begin

text \<open>
  Authentication: \<open>src/src/auth/auth.service.ts\<close>, \<open>token-revocation.service.ts\<close>, \<open>jwt-auth.guard.ts\<close>,
  \<open>roles.guard.ts\<close>, \<open>auth-invalid-payload.ts\<close> and \<open>auth.controller.ts\<close>. The library \<open>jose\<close> is a parameter, the
  record \<open>jose\<close>: header decoding, key import and \<open>jwtVerify\<close>, each returning the error it throws or its
  result. \<open>sub\<close> and \<open>jti\<close> are strings, as RFC 7519 requires; claims the code checks at run time
  (\<open>deviceId\<close>, \<open>roles\<close>, \<open>typ\<close>) are arbitrary JSON. The expiry a revocation names is taken in whole seconds. The cached JWKS function is not state of the
  model: it only saves a re-creation.
\<close>

section \<open>Token validation\<close>

datatype jose_error =
    JWTExpired
  | JWSSignatureVerificationFailed
  | JOSEAlgNotAllowed
  | JWTClaimValidationFailed string
  | JWKSNoMatchingKey
  | JWKSTimeout
  | Unauthorized string
  | OtherError

record JWTPayload =
  p_sub :: string
  p_jti :: string
  p_exp :: "int option"
  p_typ :: json
  p_deviceId :: json
  p_roles :: json
  p_email :: "string option"
  p_sessionId :: "string option"

datatype key_material = SecretKey string | SpkiKey string string | RemoteJwks string

record verify_options =
  vo_algorithms :: "string list"
  vo_requiredClaims :: "string list"
  vo_issuer :: "string option"
  vo_audience :: "string option"

record jose =
  jo_decodeProtectedHeader :: "string \<Rightarrow> jose_error + string option"
  jo_importSPKI :: "string \<Rightarrow> string \<Rightarrow> jose_error + key_material"
  jo_createRemoteJWKSet :: "string \<Rightarrow> jose_error + key_material"
  jo_jwtVerify :: "string \<Rightarrow> key_material \<Rightarrow> verify_options \<Rightarrow> jose_error + JWTPayload"

text \<open>\<open>mapJoseError\<close>: the message of the \<open>UnauthorizedException\<close> every error becomes.\<close>

fun mapJoseError :: "jose_error \<Rightarrow> string" where
  "mapJoseError JWTExpired = ''Token has expired''"
| "mapJoseError JWSSignatureVerificationFailed = ''Invalid token signature''"
| "mapJoseError JOSEAlgNotAllowed = ''Algorithm not allowed''"
| "mapJoseError (JWTClaimValidationFailed c) = ''Invalid claim: '' @ c"
| "mapJoseError JWKSNoMatchingKey = ''No matching key found in JWKS''"
| "mapJoseError JWKSTimeout = ''JWKS endpoint timeout''"
| "mapJoseError (Unauthorized m) = m"
| "mapJoseError OtherError = ''Invalid token''"

definition truthy :: "string option \<Rightarrow> string option" where
  "truthy x = (case x of None \<Rightarrow> None | Some s \<Rightarrow> if s = [] then None else Some s)"

definition auth_options :: "AuthConfig \<Rightarrow> verify_options" where
  "auth_options cfg = \<lparr>vo_algorithms = [''HS256'', ''RS256'', ''ES256''], vo_requiredClaims = [''jti'', ''sub''],
     vo_issuer = truthy (jwtIssuer cfg), vo_audience = truthy (jwtAudience cfg)\<rparr>"

definition verifyAsymmetric :: "jose \<Rightarrow> AuthConfig \<Rightarrow> string \<Rightarrow> string \<Rightarrow> jose_error + JWTPayload" where
  "verifyAsymmetric jo cfg tok alg =
     (case truthy (jwtPublicKey cfg) of
        Some pem \<Rightarrow>
          (case jo_importSPKI jo pem alg of
             Inl e \<Rightarrow> Inl e
           | Inr key \<Rightarrow> jo_jwtVerify jo tok key (auth_options cfg))
      | None \<Rightarrow>
          (case truthy (jwksUri cfg) of
             Some uri \<Rightarrow>
               (case jo_createRemoteJWKSet jo uri of
                  Inl e \<Rightarrow> Inl e
                | Inr jwks \<Rightarrow> jo_jwtVerify jo tok jwks (auth_options cfg))
           | None \<Rightarrow> Inl (Unauthorized ''No key material for asymmetric algorithm'')))"

fun json_string :: "json \<Rightarrow> string option" where
  "json_string (JStr s) = Some s"
| "json_string _ = None"

fun role_claims :: "json \<Rightarrow> string list" where
  "role_claims (JArr xs) = List.map_filter json_string xs"
| "role_claims _ = []"

definition extractClaims :: "JWTPayload \<Rightarrow> string + UserClaims" where
  "extractClaims p =
     (case json_string (p_deviceId p) of
        None \<Rightarrow> Inl ''Token missing deviceId claim''
      | Some d \<Rightarrow>
          if js_trim d = [] then Inl ''Token missing deviceId claim''
          else Inr \<lparr>userId = p_sub p, roles = role_claims (p_roles p), jti = p_jti p, exp_at = p_exp p,
                    email = p_email p, sessionId = p_sessionId p, deviceId = d\<rparr>)"

text \<open>\<open>validateToken\<close>: \<open>Inl\<close> is the message of the thrown \<open>UnauthorizedException\<close>.\<close>

definition validateToken :: "jose \<Rightarrow> AuthConfig \<Rightarrow> string \<Rightarrow> string + UserClaims" where
  "validateToken jo cfg tok =
     (case jo_decodeProtectedHeader jo tok of
        Inl e \<Rightarrow> Inl (mapJoseError e)
      | Inr alg \<Rightarrow>
          (let result =
             (if alg = Some ''HS256'' then jo_jwtVerify jo tok (SecretKey (jwtSecret cfg)) (auth_options cfg)
              else if alg = Some ''RS256'' \<or> alg = Some ''ES256'' then verifyAsymmetric jo cfg tok (the alg)
              else Inl (Unauthorized ''Algorithm not allowed''))
           in case result of
                Inl e \<Rightarrow> Inl (mapJoseError e)
              | Inr p \<Rightarrow>
                  if p_typ p = JStr ''mfa'' then Inl ''MFA token cannot be used as access token''
                  else extractClaims p))"

datatype AuthInvalidReason = Missing | Scheme | Token

datatype AuthOutcome = AuthOk UserClaims | AuthInvalid AuthInvalidReason "string option"

definition authenticate :: "jose \<Rightarrow> AuthConfig \<Rightarrow> Request \<Rightarrow> AuthOutcome" where
  "authenticate jo cfg req =
     (case header req ''authorization'' of
        Some (HStr raw) \<Rightarrow>
          (let parts = split_on CHR '' '' raw;
               scheme = hd parts;
               tok = (case tl parts of [] \<Rightarrow> [] | t # ts \<Rightarrow> t)
           in if scheme \<noteq> ''Bearer'' \<or> tok = [] then AuthInvalid Scheme None
              else (case validateToken jo cfg tok of
                      Inl m \<Rightarrow> AuthInvalid Token (Some m)
                    | Inr cl \<Rightarrow> AuthOk cl))
      | _ \<Rightarrow> AuthInvalid Missing None)"

definition buildAuthInvalidPayload :: "Request \<Rightarrow> ms \<Rightarrow> ThreatSignalPayload" where
  "buildAuthInvalidPayload req now = (empty_payload now)\<lparr>pl_type := Some AUTH_INVALID_TOKEN,
     pl_ip := Some (extractIp req), pl_ja4h := extractJa4h req\<rparr>"

section \<open>Guards\<close>

text \<open>\<open>JwtAuthGuard.canActivate\<close>: \<open>Inl\<close> is the thrown \<open>UnauthorizedException\<close>.\<close>

definition jwt_guard ::
    "jose \<Rightarrow> AuthConfig \<Rightarrow> ms \<Rightarrow> bool \<Rightarrow> Request \<Rightarrow> (string option + bool) \<times> Request \<times> bus_event list" where
  "jwt_guard jo cfg now is_public req =
     (if is_public then (Inr True, req, [])
      else if gateway_validated req then (Inr True, req, [])
      else (case authenticate jo cfg req of
              AuthOk cl \<Rightarrow> (Inr True, req\<lparr>user := Some cl, gateway_validated := True\<rparr>, [])
            | AuthInvalid r m \<Rightarrow>
                (Inl m, req, [Signal AUTH_INVALID_TOKEN (buildAuthInvalidPayload req now)])))"

definition roles_guard :: "string list option \<Rightarrow> Request \<Rightarrow> bool" where
  "roles_guard required req =
     (case required of
        None \<Rightarrow> True
      | Some [] \<Rightarrow> True
      | Some rs \<Rightarrow> (case user req of None \<Rightarrow> False | Some u \<Rightarrow> (\<exists>r \<in> set rs. r \<in> set (roles u))))"

section \<open>Revocation\<close>

record RevocationEntry =
  rv_expiresAt :: ms
  rv_userId :: string

type_synonym revocations = "(string, RevocationEntry) jsmap"

definition revoke :: "string \<Rightarrow> ms \<Rightarrow> string \<Rightarrow> revocations \<Rightarrow> revocations" where
  "revoke j expiry uid rv = AList.update j \<lparr>rv_expiresAt = expiry, rv_userId = uid\<rparr> rv"

definition isRevoked :: "ms \<Rightarrow> string \<Rightarrow> revocations \<Rightarrow> bool \<times> revocations" where
  "isRevoked now j rv =
     (case map_of rv j of
        None \<Rightarrow> (False, rv)
      | Some e \<Rightarrow> if rv_expiresAt e \<le> now then (False, AList.delete j rv) else (True, rv))"

definition getEntry :: "ms \<Rightarrow> string \<Rightarrow> revocations \<Rightarrow> RevocationEntry option \<times> revocations" where
  "getEntry now j rv =
     (case map_of rv j of
        None \<Rightarrow> (None, rv)
      | Some e \<Rightarrow> if rv_expiresAt e \<le> now then (None, AList.delete j rv) else (Some e, rv))"

definition rv_size :: "revocations \<Rightarrow> nat" where
  "rv_size rv = length rv"

interpretation rvk: ttl_store map_of rv_expiresAt "\<lambda>_. True" False isRevoked jsmap_wf "AList.update"
  by unfold_locales (auto simp: isRevoked_def fun_eq_iff intro: inv_intros split: option.splits)

interpretation rve: ttl_store map_of rv_expiresAt Some None getEntry jsmap_wf "AList.update"
  by unfold_locales (auto simp: getEntry_def fun_eq_iff intro: inv_intros split: option.splits)

text \<open>The revoke endpoint; \<open>dto_exp\<close> is in seconds. \<open>Inl\<close> carries the status of the thrown exception.\<close>

definition revoke_endpoint ::
    "ms \<Rightarrow> string \<Rightarrow> int \<Rightarrow> Request \<Rightarrow> revocations \<Rightarrow> (nat \<times> string + string) \<times> revocations \<times> bus_event list" where
  "revoke_endpoint now dto_jti dto_exp req rv =
     (case user req of
        None \<Rightarrow> (Inl (401, ''Missing authenticated user''), rv, [])
      | Some u \<Rightarrow>
          (let expiresAtMs = dto_exp * 1000;
               isAdmin = ''admin'' \<in> set (roles u);
               (existing, rv') = (if isAdmin then (None, rv) else getEntry now dto_jti rv)
           in case existing of
                Some e \<Rightarrow>
                  if rv_userId e \<noteq> userId u then (Inl (403, ''Cannot revoke another user's token''), rv', [])
                  else (Inr ''Token revoked'', revoke dto_jti expiresAtMs (userId u) rv', [AUTH_TOKEN_REVOKED])
              | None \<Rightarrow> (Inr ''Token revoked'', revoke dto_jti expiresAtMs (userId u) rv', [AUTH_TOKEN_REVOKED])))"


section \<open>Lemmas\<close>

lemma json_string_Some [simp]: "json_string v = Some r \<longleftrightarrow> v = JStr r"
  by (cases v) auto

lemma role_claims_strings: "r \<in> set (role_claims v) \<Longrightarrow> \<exists>xs. v = JArr xs \<and> JStr r \<in> set xs"
proof (cases v)
  case (JArr xs)
  assume "r \<in> set (role_claims v)"
  then obtain x where "x \<in> set xs" "json_string x = Some r"
    using JArr by (auto simp: List.map_filter_def)
  then show ?thesis using JArr by auto
qed auto

lemma extractClaims_Inr:
  assumes "extractClaims p = Inr cl"
  shows "p_deviceId p = JStr (deviceId cl) \<and> js_trim (deviceId cl) \<noteq> [] \<and> userId cl = p_sub p \<and> jti cl = p_jti p
    \<and> exp_at cl = p_exp p \<and> (\<forall>r \<in> set (roles cl). \<exists>xs. p_roles p = JArr xs \<and> JStr r \<in> set xs)"
  using assms role_claims_strings
  by (cases "p_deviceId p") (auto simp: extractClaims_def split: if_splits)

text \<open>The key a verification with a given algorithm may use.\<close>

definition key_for :: "jose \<Rightarrow> AuthConfig \<Rightarrow> string \<Rightarrow> key_material \<Rightarrow> bool" where
  "key_for jo cfg alg key \<longleftrightarrow>
     (if alg = ''HS256'' then key = SecretKey (jwtSecret cfg)
      else (alg = ''RS256'' \<or> alg = ''ES256'') \<and>
        (case truthy (jwtPublicKey cfg) of
           Some pem \<Rightarrow> jo_importSPKI jo pem alg = Inr key
         | None \<Rightarrow> (\<exists>uri. truthy (jwksUri cfg) = Some uri \<and> jo_createRemoteJWKSet jo uri = Inr key)))"

lemma verifyAsymmetric_Inr:
  "verifyAsymmetric jo cfg tok alg = Inr p \<Longrightarrow> alg = ''RS256'' \<or> alg = ''ES256'' \<Longrightarrow>
    \<exists>key. key_for jo cfg alg key \<and> jo_jwtVerify jo tok key (auth_options cfg) = Inr p"
  by (auto simp: verifyAsymmetric_def key_for_def split: option.splits sum.splits)

lemma validateToken_Inr:
  assumes "validateToken jo cfg tok = Inr cl"
  shows "\<exists>alg key p. jo_decodeProtectedHeader jo tok = Inr (Some alg) \<and> key_for jo cfg alg key
    \<and> jo_jwtVerify jo tok key (auth_options cfg) = Inr p \<and> p_typ p \<noteq> JStr ''mfa'' \<and> extractClaims p = Inr cl"
proof -
  obtain alg where alg: "jo_decodeProtectedHeader jo tok = Inr alg"
    using assms by (auto simp: validateToken_def split: sum.splits)
  have "alg = Some ''HS256'' \<or> alg = Some ''RS256'' \<or> alg = Some ''ES256''"
    using assms alg by (auto simp: validateToken_def Let_def split: if_splits)
  then consider "alg = Some ''HS256''" | a where "alg = Some a" "a = ''RS256'' \<or> a = ''ES256''" by auto
  then show ?thesis
  proof cases
    case 1
    then show ?thesis using assms alg
      by (auto simp: validateToken_def key_for_def split: sum.splits if_splits)
  next
    case 2
    then obtain p where p: "verifyAsymmetric jo cfg tok a = Inr p" "p_typ p \<noteq> JStr ''mfa''" "extractClaims p = Inr cl"
      using assms alg by (auto simp: validateToken_def Let_def split: sum.splits if_splits)
    then show ?thesis using alg 2 verifyAsymmetric_Inr [OF p(1) 2(2)] by blast
  qed
qed

section \<open>Sequences of revocation operations\<close>

datatype rv_op = RvIsRevoked ms string | RvGetEntry ms string | RvRevoke ms string ms string

fun rv_apply :: "rv_op \<Rightarrow> revocations \<Rightarrow> revocations" where
  "rv_apply (RvIsRevoked t j) rv = snd (isRevoked t j rv)"
| "rv_apply (RvGetEntry t j) rv = snd (getEntry t j rv)"
| "rv_apply (RvRevoke t j x uid) rv = revoke j x uid rv"

fun rv_time :: "rv_op \<Rightarrow> ms" where
  "rv_time (RvIsRevoked t j) = t"
| "rv_time (RvGetEntry t j) = t"
| "rv_time (RvRevoke t j x uid) = t"

fun rv_rewrites :: "string \<Rightarrow> rv_op \<Rightarrow> bool" where
  "rv_rewrites j (RvRevoke t j' x uid) = (j' = j)"
| "rv_rewrites j _ = False"

lemma rv_apply_answer:
  assumes "\<not> rv_rewrites j x" and "rv_time x \<le> now"
  shows "rvk.answer_at now j (rv_apply x rv) = rvk.answer_at now j rv"
  using assms
  by (cases x) (auto simp: rvk.answer_at_def isRevoked_def getEntry_def revoke_def split: option.splits)

lemma rv_run_answer:
  assumes "\<forall>x \<in> set xs. \<not> rv_rewrites j x \<and> rv_time x \<le> now"
  shows "rvk.answer_at now j (fold rv_apply xs rv) = rvk.answer_at now j rv"
  using assms by (induction xs arbitrary: rv) (auto simp: rv_apply_answer)

lemma revoke_endpoint_store:
  assumes "revoke_endpoint now j x req rv = (Inr m, rv', es)"
  shows "\<exists>u. user req = Some u \<and> map_of rv' j = Some \<lparr>rv_expiresAt = x * 1000, rv_userId = userId u\<rparr>"
  using assms
  by (auto simp: revoke_endpoint_def Let_def revoke_def split: option.splits if_splits prod.splits)

section \<open>Properties\<close>

text \<open>
  C25. Authentication is sound: claims are only accepted when the \<open>authorization\<close> header of the request is the scheme \<open>Bearer\<close>,
  a space and a token without spaces (whatever follows a further space is ignored), and \<open>jwtVerify\<close> accepted that very token under
  the configured issuer and audience, with the symmetric secret only for HS256 and the configured public
  key or key set only for RS256 and ES256, that is not an MFA token and names a non-blank device; the
  user, token id and expiry are those of the payload, and every role is a string of its \<open>roles\<close> array.
\<close>

theorem authenticate_sound:
  assumes "authenticate jo cfg req = AuthOk cl"
  shows "\<exists>tok rest alg key p. header req ''authorization'' = Some (HStr (''Bearer '' @ tok @ rest))
    \<and> tok \<noteq> [] \<and> CHR '' '' \<notin> set tok \<and> (rest = [] \<or> hd rest = CHR '' '')
    \<and> jo_decodeProtectedHeader jo tok = Inr (Some alg) \<and> key_for jo cfg alg key
    \<and> jo_jwtVerify jo tok key (auth_options cfg) = Inr p \<and> p_typ p \<noteq> JStr ''mfa''
    \<and> p_deviceId p = JStr (deviceId cl) \<and> js_trim (deviceId cl) \<noteq> []
    \<and> userId cl = p_sub p \<and> jti cl = p_jti p \<and> exp_at cl = p_exp p
    \<and> (\<forall>r \<in> set (roles cl). \<exists>xs. p_roles p = JArr xs \<and> JStr r \<in> set xs)"
proof -
  obtain raw where raw: "header req ''authorization'' = Some (HStr raw)"
    using assms by (auto simp: authenticate_def split: option.splits hval.splits)
  define tok where "tok = (case tl (split_on CHR '' '' raw) of [] \<Rightarrow> [] | t # ts \<Rightarrow> t)"
  have "before_char CHR '' '' raw = ''Bearer''" "tok \<noteq> []" and v: "validateToken jo cfg tok = Inr cl"
    using assms raw by (auto simp: authenticate_def Let_def tok_def split: if_splits sum.splits)
  then obtain rest where "raw = ''Bearer '' @ tok @ rest" "CHR '' '' \<notin> set tok" "rest = [] \<or> hd rest = CHR '' ''"
    using second_field [of tok "CHR '' ''" raw] by (auto simp: tok_def)
  moreover obtain alg key p where "jo_decodeProtectedHeader jo tok = Inr (Some alg)" "key_for jo cfg alg key"
      "jo_jwtVerify jo tok key (auth_options cfg) = Inr p" "p_typ p \<noteq> JStr ''mfa''" and x: "extractClaims p = Inr cl"
    using validateToken_Inr [OF v] by blast
  ultimately show ?thesis using raw \<open>tok \<noteq> []\<close> extractClaims_Inr [OF x] by blast
qed

definition sample_jose :: jose where
  "sample_jose = \<lparr>jo_decodeProtectedHeader = (\<lambda>_. Inr (Some ''HS256'')), jo_importSPKI = (\<lambda>_ _. Inl OtherError),
     jo_createRemoteJWKSet = (\<lambda>_. Inl OtherError),
     jo_jwtVerify = (\<lambda>t k vo. if t = ''good'' then Inr \<lparr>p_sub = ''alice'', p_jti = ''t1'', p_exp = Some 2000000000,
        p_typ = JUndef, p_deviceId = JStr ''d1'', p_roles = JArr [JStr ''user'', JNum (Fin 42)], p_email = None,
        p_sessionId = None\<rparr> else Inl JWSSignatureVerificationFailed)\<rparr>"

definition sample_auth_cfg :: AuthConfig where
  "sample_auth_cfg = \<lparr>jwtSecret = ''secret'', jwtPublicKey = None, jwksUri = None, jwtIssuer = None, jwtAudience = None\<rparr>"

definition sample_bearer_request :: Request where
  "sample_bearer_request = sample_request\<lparr>headers := (''authorization'', HStr ''Bearer good'') # headers sample_request\<rparr>"

lemma sample_authenticate: "authenticate sample_jose sample_auth_cfg sample_bearer_request = AuthOk sample_claims"
  by (simp add: authenticate_def sample_bearer_request_def header_def before_char_def validateToken_def sample_jose_def
      extractClaims_def js_trim_def js_space_def sample_claims_def List.map_filter_def)

theorem authenticate_sound_witness:
  "\<exists>tok rest key p. header sample_bearer_request ''authorization'' = Some (HStr (''Bearer '' @ tok @ rest))
    \<and> jo_jwtVerify sample_jose tok key (auth_options sample_auth_cfg) = Inr p \<and> p_sub p = ''alice''"
proof -
  have "userId sample_claims = ''alice''" by (simp add: sample_claims_def)
  with authenticate_sound [OF sample_authenticate] show ?thesis by metis
qed

text \<open>
  C26. A successful revocation holds exactly until the expiry it was given: whatever lookups (with their
  lazy evictions) and revocations of other tokens happen in between, the token counts as revoked at
  every later time before the expiry and no longer from it on.
\<close>

theorem revoked_until_expiry:
  assumes "revoke_endpoint t j x req rv = (Inr m, rv', es)"
    and "\<forall>y \<in> set xs. \<not> rv_rewrites j y \<and> rv_time y \<le> now"
  shows "fst (isRevoked now j (fold rv_apply xs rv')) = (now < x * 1000)"
proof -
  obtain uid where "map_of rv' j = Some \<lparr>rv_expiresAt = x * 1000, rv_userId = uid\<rparr>"
    using revoke_endpoint_store [OF assms(1)] by auto
  then show ?thesis
    using assms(2) by (simp add: rvk.read_answer rv_run_answer) (simp add: rvk.answer_at_def)
qed

theorem revoked_until_expiry_witness:
  "fst (isRevoked 1999999 ''t1'' (fold rv_apply [RvIsRevoked 10 ''t1'', RvRevoke 20 ''t2'' 30 ''bob'']
     (fst (snd (revoke_endpoint 0 ''t1'' 2000 sample_user_request []))))) = True"
proof -
  have "revoke_endpoint 0 ''t1'' 2000 sample_user_request [] =
      (Inr ''Token revoked'', fst (snd (revoke_endpoint 0 ''t1'' 2000 sample_user_request [])), [AUTH_TOKEN_REVOKED])"
    by (simp add: revoke_endpoint_def sample_user_request_def sample_claims_def getEntry_def Let_def)
  from revoked_until_expiry [OF this, of "[RvIsRevoked 10 ''t1'', RvRevoke 20 ''t2'' 30 ''bob'']" 1999999]
  show ?thesis by simp
qed

text \<open>
  The revoke endpoint does not check who owns the token: an authenticated user without the admin role
  who names the id of any token that is not yet revoked gets success, and the token is refused from then on
  until the expiry the caller chose. Only the overwriting of an existing revocation is restricted to its author.
\<close>

lemma revoke_ignores_ownership:
  assumes "user req = Some u" and "''admin'' \<notin> set (roles u)" and "map_of rv j = None" and "now < x * 1000"
  shows "\<exists>rv'. revoke_endpoint now j x req rv = (Inr ''Token revoked'', rv', [AUTH_TOKEN_REVOKED])
    \<and> fst (isRevoked now j rv')"
  using assms by (simp add: revoke_endpoint_def getEntry_def revoke_def isRevoked_def)

end
