(* ===== verification/Base64.thy ===== *)
theory Base64
  imports Prelude
begin

unbundle bit_operations_syntax

text \<open>
  Bytes, their bits, and the \<open>base64url\<close> codec of Node's \<open>Buffer\<close>: \<open>toString('base64url')\<close> writes six-bit groups
  without padding; \<open>Buffer.from(s, 'base64url')\<close> also accepts the standard alphabet, skips every
  character outside both alphabets (padding and white space included) and drops an incomplete last byte.
\<close>

type_synonym byte = "8 word"

section \<open>Bits\<close>

definition bits_of :: "nat \<Rightarrow> 'a::len word \<Rightarrow> bool list" where
  "bits_of n w = rev (map (bit w) [0..<n])"

definition of_bits :: "bool list \<Rightarrow> 'a::len word" where
  "of_bits bs = horner_sum of_bool 2 (rev bs)"

lemma length_bits_of [simp]: "length (bits_of n w) = n"
  by (simp add: bits_of_def)

lemma of_bits_bits_of [simp]: "of_bits (bits_of LENGTH('a) w) = (w :: 'a::len word)"
  by (simp add: of_bits_def bits_of_def horner_sum_bit_eq_take_bit)

lemma bits_of_of_bits:
  assumes "length bs = LENGTH('a)"
  shows "bits_of LENGTH('a) (of_bits bs :: 'a::len word) = bs"
  using assms by (auto simp: bits_of_def of_bits_def bit_horner_sum_bit_word_iff rev_nth intro!: nth_equalityI)

lemma bits_of_zero [simp]: "bits_of n (0 :: 'a::len word) = replicate n False"
proof -
  have "map (bit (0 :: 'a word)) [0..<n] = replicate n False"
    by (rule nth_equalityI) auto
  then show ?thesis by (simp only: bits_of_def rev_replicate)
qed

lemma of_bits_bits_of_8 [simp]: "of_bits (bits_of 8 w) = (w :: byte)"
  using of_bits_bits_of [of w] by simp

lemma bits_of_of_bits_6 [simp]: "length bs = 6 \<Longrightarrow> bits_of 6 (of_bits bs :: 6 word) = bs"
  using bits_of_of_bits [of bs, where 'a = 6] by simp

definition byte_bits :: "byte list \<Rightarrow> bool list" where
  "byte_bits bs = concat (map (bits_of 8) bs)"

section \<open>Grouping\<close>

text \<open>Groups of six, the last one filled with zero bits; groups of eight, an incomplete last one dropped.\<close>

function sixes :: "bool list \<Rightarrow> bool list list" where
  "sixes bs = (if bs = [] then [] else (take 6 bs @ replicate (6 - length bs) False) # sixes (drop 6 bs))"
  by auto
termination by (relation "measure length") auto

declare sixes.simps [simp del]

function eights :: "bool list \<Rightarrow> bool list list" where
  "eights bs = (if length bs < 8 then [] else take 8 bs # eights (drop 8 bs))"
  by auto
termination by (relation "measure length") auto

declare eights.simps [simp del]

lemma length_sixes: "g \<in> set (sixes bs) \<Longrightarrow> length g = 6"
proof (induction bs rule: sixes.induct)
  case (1 bs)
  then show ?case by (subst (asm) (2) sixes.simps) (auto split: if_splits)
qed

lemma concat_sixes: "\<exists>k < 6. concat (sixes bs) = bs @ replicate k False"
proof (induction bs rule: sixes.induct)
  case (1 bs)
  show ?case
  proof (cases "bs = []")
    case True
    then show ?thesis by (simp add: sixes.simps)
  next
    case False
    show ?thesis
    proof (cases "length bs < 6")
      case True
      with False show ?thesis
        by (intro exI [of _ "6 - length bs"]) (simp add: sixes.simps [of bs] sixes.simps [of "[]"])
    next
      case long: False
      from 1 False obtain k where k: "k < 6" "concat (sixes (drop 6 bs)) = drop 6 bs @ replicate k False"
        by auto
      have "concat (sixes bs) = take 6 bs @ drop 6 bs @ replicate k False"
        using long False k by (subst sixes.simps) simp
      also have "\<dots> = bs @ replicate k False" by (simp flip: append_assoc)
      finally show ?thesis using k(1) by blast
    qed
  qed
qed

lemma eights_bytes: "k < 8 \<Longrightarrow> eights (byte_bits bs @ replicate k False) = map (bits_of 8) bs"
proof (induction bs)
  case Nil
  then show ?case by (subst eights.simps) (simp add: byte_bits_def)
next
  case (Cons b bs)
  then show ?case by (subst eights.simps) (simp add: byte_bits_def)
qed

section \<open>The codec\<close>

text \<open>The alphabet by code point: \<open>A-Z\<close>, \<open>a-z\<close>, \<open>0-9\<close>, \<open>-\<close>, \<open>_\<close>.\<close>

definition b64_char :: "6 word \<Rightarrow> char" where
  "b64_char w =
     (let n = unat w in
      char_of (if n < 26 then n + 65 else if n < 52 then n + 71 else if n < 62 then n - 4
               else if n = 62 then 45 else 95))"

definition b64_value :: "char \<Rightarrow> 6 word option" where
  "b64_value c =
     (let n = of_char c :: nat in
      if 65 \<le> n \<and> n \<le> 90 then Some (of_nat (n - 65))
      else if 97 \<le> n \<and> n \<le> 122 then Some (of_nat (n - 71))
      else if 48 \<le> n \<and> n \<le> 57 then Some (of_nat (n + 4))
      else if n = 45 \<or> n = 43 then Some 62
      else if n = 95 \<or> n = 47 then Some 63
      else None)"

definition b64url_encode :: "byte list \<Rightarrow> string" where
  "b64url_encode bs = map (\<lambda>g. b64_char (of_bits g)) (sixes (byte_bits bs))"

definition b64url_decode :: "string \<Rightarrow> byte list" where
  "b64url_decode s = map of_bits (eights (concat (map (bits_of 6) (List.map_filter b64_value s))))"

lemma b64_value_char [simp]: "b64_value (b64_char w) = Some w"
proof -
  have lt: "unat w < 64" using unsigned_less [of w] by simp
  have repr: "w = of_nat n" if "unat w = n" for n
  proof -
    from that have "of_nat (unat w) = (of_nat n :: 6 word)" by simp
    then show ?thesis by simp
  qed
  have "w = 62" if "unat w = 62" using repr [OF that] by simp
  moreover have "w = 63" if "unat w = 63" using repr [OF that] by simp
  moreover have "unat w = 62 \<or> unat w = 63 \<or> unat w < 62" using lt by auto
  ultimately show ?thesis
    by (auto simp: b64_char_def b64_value_def Let_def)
qed

lemma b64_value_plain [simp]: "b64_value CHR ''.'' = None" "b64_value CHR ''='' = None"
  by (simp_all add: b64_value_def)

lemma b64_char_plain: "b64_char w \<noteq> CHR ''.''"
  using b64_value_char [of w] b64_value_plain(1) by (metis option.distinct(1))

text \<open>Decoding what was encoded gives the bytes back.\<close>

lemma b64url_roundtrip [simp]: "b64url_decode (b64url_encode bs) = bs"
proof -
  let ?gs = "sixes (byte_bits bs)"
  have "List.map_filter b64_value (b64url_encode bs) = map of_bits ?gs"
    by (simp add: b64url_encode_def List.map_filter_def o_def)
  moreover have "map (bits_of 6) (map (of_bits :: _ \<Rightarrow> 6 word) ?gs) = ?gs"
    by (auto intro!: map_idI simp: length_sixes)
  moreover obtain k where "k < 6" "concat ?gs = byte_bits bs @ replicate k False"
    using concat_sixes by blast
  ultimately show ?thesis
    by (simp add: b64url_decode_def eights_bytes o_def del: map_map) (simp add: map_idI)
qed

lemma b64url_decode_skip: "b64_value c = None \<Longrightarrow> b64url_decode (s @ [c]) = b64url_decode s"
  by (simp add: b64url_decode_def List.map_filter_def)

lemma b64url_encode_plain: "CHR ''.'' \<notin> set (b64url_encode bs)"
proof -
  have "x \<noteq> CHR ''.''" if "x \<in> set (b64url_encode bs)" for x
    using that b64_char_plain by (auto simp: b64url_encode_def)
  then show ?thesis by blast
qed

lemma b64url_encode_empty [simp]: "b64url_encode bs = [] \<longleftrightarrow> bs = []"
proof -
  have "bits_of 8 b \<noteq> []" for b :: byte by (metis length_bits_of length_0_conv zero_neq_numeral)
  then show ?thesis
    by (cases bs) (simp_all add: b64url_encode_def byte_bits_def sixes.simps [of "[]"] sixes.simps [of "bits_of 8 _ @ _"])
qed

section \<open>The standard alphabet\<close>

text \<open>\<open>toString('base64')\<close>: the standard alphabet with padding. \<open>Buffer.from(s, 'base64')\<close> is the decoder above.\<close>

definition b64std_char :: "6 word \<Rightarrow> char" where
  "b64std_char w = (if unat w = 62 then CHR ''+'' else if unat w = 63 then CHR ''/'' else b64_char w)"

definition b64_encode :: "byte list \<Rightarrow> string" where
  "b64_encode bs = map (\<lambda>g. b64std_char (of_bits g)) (sixes (byte_bits bs)) @
     replicate ((3 - length bs mod 3) mod 3) CHR ''=''"

lemma b64_value_std [simp]: "b64_value (b64std_char w) = Some w"
proof -
  have "b64_value CHR ''+'' = Some 62" "b64_value CHR ''/'' = Some 63" by (simp_all add: b64_value_def)
  moreover have "w = of_nat n" if "unat w = n" for n
    using that by (metis of_nat_unat ucast_id)
  then have "unat w = 62 \<Longrightarrow> w = 62" "unat w = 63 \<Longrightarrow> w = 63" by fastforce+
  ultimately show ?thesis by (auto simp: b64std_char_def)
qed

lemma b64_values_padding: "List.map_filter b64_value (replicate n CHR ''='') = []"
  by (induction n) (auto simp: List.map_filter_def)

lemma b64_roundtrip [simp]: "b64url_decode (b64_encode bs) = bs"
proof -
  have "List.map_filter b64_value (b64_encode bs) = List.map_filter b64_value (b64url_encode bs)"
    using b64_values_padding
    by (simp add: b64_encode_def b64url_encode_def List.map_filter_def o_def)
  then show ?thesis using b64url_roundtrip [of bs] by (simp only: b64url_decode_def)
qed

end
