(* ===== verification/Hashcash.thy ===== *)
theory Hashcash
  imports Base64 JsNum Config Ttl_Store "HOL-Library.Countable"
begin

text \<open>
  Proof of work: \<open>src/src/hashcash/hashcash.util.ts\<close>, \<open>used-nonce-store.ts\<close> and \<open>hashcash.service.ts\<close>. HMAC-SHA-256,
  SHA-256 and the JSON rendering of the nonce payload are parameters, the record \<open>pow_env\<close>; that parsing
  inverts rendering is the named hypothesis \<open>json_ok\<close>. The metric labels the difficulty by its number.
  The used-nonce store is an instance of the reading half of the expiring-store contract.
\<close>

unbundle bit_operations_syntax

section \<open>Pure functions\<close>

definition difficultyForScore :: "fp \<Rightarrow> jsnum \<Rightarrow> int \<Rightarrow> int \<Rightarrow> jsnum" where
  "difficultyForScore f score mn mx =
     (let span = jsub f (jsint mx) (jsint mn);
          raw = jround (jadd f (jsint mn) (jdiv f (jmul f (jsub f score (lit f (7/10))) span) (lit f (2/10))))
      in if jlt raw (jsint mn) then jsint mn else if jlt (jsint mx) raw then jsint mx else raw)"

text \<open>The inner loop on the 32-bit integer \<open>b\<close>; eight rounds are enough for a non-zero byte.\<close>

fun clz_loop :: "nat \<Rightarrow> 32 word \<Rightarrow> nat" where
  "clz_loop 0 b = 0"
| "clz_loop (Suc n) b = (if bit b 7 then 0 else Suc (clz_loop n (push_bit 1 b)))"

fun countLeadingZeroBits :: "byte list \<Rightarrow> nat" where
  "countLeadingZeroBits [] = 0"
| "countLeadingZeroBits (b # bs) = (if b = 0 then 8 + countLeadingZeroBits bs else clz_loop 8 (ucast b))"

definition hashSolution :: "(string \<Rightarrow> byte list) \<Rightarrow> string \<Rightarrow> string \<Rightarrow> byte list" where
  "hashSolution sha256 nonce solution = sha256 (nonce @ solution)"

section \<open>The used-nonce store\<close>

type_synonym nonces = "(string, int) jsmap"

definition nonce_has :: "ms \<Rightarrow> string \<Rightarrow> nonces \<Rightarrow> bool \<times> nonces" where
  "nonce_has now n st =
     (case map_of st n of
        None \<Rightarrow> (False, st)
      | Some x \<Rightarrow> if x \<le> now div 1000 then (False, AList.delete n st) else (True, st))"

definition nonce_add :: "int \<Rightarrow> string \<Rightarrow> int \<Rightarrow> nonces \<Rightarrow> nonces" where
  "nonce_add capacity n expiry st =
     (let st = (if capacity \<le> int (length st) then (case st of [] \<Rightarrow> [] | (k, v) # _ \<Rightarrow> AList.delete k st) else st)
      in AList.update n expiry st)"

definition nonce_size :: "nonces \<Rightarrow> nat" where
  "nonce_size st = length st"

definition nonce_clear :: "nonces \<Rightarrow> nonces" where
  "nonce_clear st = []"

section \<open>The service\<close>

record NoncePayload =
  np_exp :: int
  np_diff :: jsnum
  np_sub :: string
  np_dev :: string
  np_iat :: int

record pow_env =
  pe_hmac :: "string \<Rightarrow> byte list \<Rightarrow> byte list"
  pe_sha256 :: "string \<Rightarrow> byte list"
  pe_stringify :: "NoncePayload \<Rightarrow> byte list"
  pe_parse :: "byte list \<Rightarrow> NoncePayload option"
  pe_fp :: fp

text \<open>
  \<open>JSON.parse\<close> of a rendered payload with a whole-number difficulty gives the payload back; neither
  the rendering nor a digest is empty.
\<close>

definition json_ok :: "pow_env \<Rightarrow> bool" where
  "json_ok e \<longleftrightarrow> (\<forall>p d. np_diff p = Fin (of_int d) \<longrightarrow> pe_parse e (pe_stringify e p) = Some p) \<and> (\<forall>p. pe_stringify e p \<noteq> [])
     \<and> (\<forall>s b. pe_hmac e s b \<noteq> [])"

datatype pow_outcome = Issued | Failed | Solved

record Hashcash =
  hs_nonces :: nonces
  hs_total :: "pow_outcome \<Rightarrow> jsnum \<Rightarrow> nat"
  hs_solveSeconds :: "int list"

definition inc_total :: "pow_outcome \<Rightarrow> jsnum \<Rightarrow> Hashcash \<Rightarrow> Hashcash" where
  "inc_total out d s = s\<lparr>hs_total := (hs_total s)(out := (hs_total s out)(d := Suc (hs_total s out d)))\<rparr>"

record IssuedChallenge =
  ic_nonce :: string
  ic_difficulty :: jsnum
  ic_expiresAt :: int

definition ttlSec :: "HashcashConfig \<Rightarrow> int" where
  "ttlSec cfg = max 0 (hc_challengeTtlMs cfg div 1000)"

definition issueChallenge ::
    "pow_env \<Rightarrow> HashcashConfig \<Rightarrow> ms \<Rightarrow> string \<Rightarrow> string \<Rightarrow> jsnum \<Rightarrow> Hashcash \<Rightarrow> IssuedChallenge \<times> Hashcash" where
  "issueChallenge e cfg now uid did score s =
     (let difficulty = difficultyForScore (pe_fp e) score (difficultyMin cfg) (difficultyMax cfg);
          iat = now div 1000;
          expiry = iat + ttlSec cfg;
          payloadBytes = pe_stringify e \<lparr>np_exp = expiry, np_diff = difficulty, np_sub = uid, np_dev = did, np_iat = iat\<rparr>;
          mac = pe_hmac e (hmacSecret cfg) payloadBytes;
          nonce = b64url_encode payloadBytes @ ''.'' @ b64url_encode mac
      in (\<lparr>ic_nonce = nonce, ic_difficulty = difficulty, ic_expiresAt = expiry\<rparr>, inc_total Issued difficulty s))"

datatype verify_reason =
    Malformed
  | Invalid_hmac
  | Expired
  | Difficulty_mismatch
  | Replay
  | Length_bound
  | Insufficient_zeros
  | Identity_mismatch

datatype VerifyResult = VOk int | VFail verify_reason

text \<open>The split at \<open>lastIndexOf('.')\<close>.\<close>

definition split_last :: "char \<Rightarrow> string \<Rightarrow> (string \<times> string) option" where
  "split_last c s =
     (case dropWhile (\<lambda>x. x \<noteq> c) (rev s) of
        [] \<Rightarrow> None
      | _ # pre \<Rightarrow> Some (rev pre, rev (takeWhile (\<lambda>x. x \<noteq> c) (rev s))))"

definition pow_fail :: "verify_reason \<Rightarrow> jsnum \<Rightarrow> Hashcash \<Rightarrow> VerifyResult \<times> Hashcash" where
  "pow_fail r d s = (VFail r, inc_total Failed d s)"

text \<open>Steps 4b to 9, on a payload that parsed.\<close>

definition verify_payload ::
    "pow_env \<Rightarrow> HashcashConfig \<Rightarrow> ms \<Rightarrow> string \<Rightarrow> string \<Rightarrow> jsnum \<Rightarrow> string \<Rightarrow> string \<Rightarrow> NoncePayload \<Rightarrow> Hashcash \<Rightarrow>
      VerifyResult \<times> Hashcash" where
  "verify_payload e cfg now nonce solution liveScore uid did p s =
     (if np_sub p \<noteq> uid \<or> np_dev p \<noteq> did then pow_fail Identity_mismatch (np_diff p) s
      else if np_exp p \<le> now div 1000 then pow_fail Expired (np_diff p) s
      else if np_diff p \<noteq> difficultyForScore (pe_fp e) liveScore (difficultyMin cfg) (difficultyMax cfg) \<or> np_diff p = NaN
        then pow_fail Difficulty_mismatch (np_diff p) s
      else (case nonce_has now nonce (hs_nonces s) of
        (used, st) \<Rightarrow>
          (let s = s\<lparr>hs_nonces := st\<rparr> in
           if used then pow_fail Replay (np_diff p) s
           else if jlt (jsint (int (countLeadingZeroBits (hashSolution (pe_sha256 e) nonce solution)))) (np_diff p)
             then pow_fail Insufficient_zeros (np_diff p) s
           else
             (let s = s\<lparr>hs_nonces := nonce_add (usedNonceCapacity cfg) nonce (np_exp p) (hs_nonces s)\<rparr>;
                  s = inc_total Solved (np_diff p) s
              in (VOk (np_iat p), s\<lparr>hs_solveSeconds := hs_solveSeconds s @ [now div 1000 - np_iat p]\<rparr>)))))"

definition verifySolution ::
    "pow_env \<Rightarrow> HashcashConfig \<Rightarrow> ms \<Rightarrow> string \<Rightarrow> string \<Rightarrow> jsnum \<Rightarrow> string \<Rightarrow> string \<Rightarrow> Hashcash \<Rightarrow>
      VerifyResult \<times> Hashcash" where
  "verifySolution e cfg now nonce solution liveScore uid did s =
     (if length solution < 1 \<or> 256 < length solution then pow_fail Length_bound (Fin 0) s
      else (case split_last CHR ''.'' nonce of
        None \<Rightarrow> pow_fail Malformed (Fin 0) s
      | Some (payloadB64, macB64) \<Rightarrow>
          if payloadB64 = [] \<or> macB64 = [] then pow_fail Malformed (Fin 0) s
          else
            (let payloadBytes = b64url_decode payloadB64;
                 providedMac = b64url_decode macB64;
                 computed = pe_hmac e (hmacSecret cfg) payloadBytes
             in if providedMac \<noteq> computed then pow_fail Invalid_hmac (Fin 0) s
                else (case pe_parse e payloadBytes of
                        None \<Rightarrow> pow_fail Malformed (Fin 0) s
                      | Some p \<Rightarrow> verify_payload e cfg now nonce solution liveScore uid did p s))))"


section \<open>Leading zeros\<close>

definition leading_zeros :: "byte list \<Rightarrow> nat" where
  "leading_zeros bs = length (takeWhile Not (byte_bits bs))"

lemma clz_loop_bits:
  fixes w :: "32 word"
  assumes "n \<le> 8"
  shows "clz_loop n (push_bit (8 - n) w) = length (takeWhile Not (rev (map (bit w) [0..<n])))"
  using assms
proof (induction n)
  case 0
  show ?case by simp
next
  case (Suc n)
  have "bit (push_bit (8 - Suc n) w) 7 = bit w n"
    using Suc.prems by (simp add: bit_push_bit_iff)
  moreover have "8 - n = 1 + (8 - Suc n)" using Suc.prems by arith
  then have "push_bit 1 (push_bit (8 - Suc n) w) = push_bit (8 - n) w" by (simp only: push_bit_push_bit)
  ultimately show ?case using Suc by (simp only: clz_loop.simps) simp
qed

lemma clz_byte: "clz_loop 8 (ucast b) = length (takeWhile Not (bits_of 8 (b :: byte)))"
proof -
  have "map (bit (ucast b :: 32 word)) [0..<8] = map (bit b) [0..<8]"
    by (auto simp: bit_ucast_iff)
  then show ?thesis using clz_loop_bits [of 8 "ucast b"] by (simp add: bits_of_def del: map_eq_conv)
qed

lemma bits_of_nonzero:
  assumes "b \<noteq> (0 :: byte)"
  shows "True \<in> set (bits_of 8 b)"
proof (rule ccontr)
  assume "True \<notin> set (bits_of 8 b)"
  then have "\<forall>x \<in> set (bits_of 8 b). x = False" by auto
  then have "bits_of 8 b = replicate 8 False"
    using replicate_length_same [of "bits_of 8 b" False] by simp
  then have "bits_of 8 b = bits_of 8 (0 :: byte)" by simp
  then have "of_bits (bits_of 8 b) = (of_bits (bits_of 8 (0 :: byte)) :: byte)" by (simp only:)
  then show False using assms by (simp only: of_bits_bits_of_8)
qed

lemma countLeadingZeroBits_spec: "countLeadingZeroBits bs = leading_zeros bs"
proof (induction bs)
  case Nil
  show ?case by (simp add: leading_zeros_def byte_bits_def)
next
  case (Cons b bs)
  show ?case
  proof (cases "b = 0")
    case True
    have "length (takeWhile Not (replicate n False @ rest)) = n + length (takeWhile Not rest)" for n rest
      by (induction n) auto
    with True show ?thesis using Cons by (simp add: leading_zeros_def byte_bits_def)
  next
    case False
    have "length (takeWhile Not (bits_of 8 b @ rest)) = length (takeWhile Not (bits_of 8 b))" for rest
      using bits_of_nonzero [OF False] by (subst takeWhile_append1) auto
    then show ?thesis using False by (simp add: leading_zeros_def byte_bits_def clz_byte)
  qed
qed

section \<open>Difficulty\<close>

lemma rnd_two_tenths_pos: "fp_ok f \<Longrightarrow> 0 < rnd f (2/10)"
proof -
  assume ok: "fp_ok f"
  have "0 < rnd f (1 / 10 ^ 9)" using ok by (simp add: fp_ok_def)
  also have "\<dots> \<le> rnd f (2/10)" by (rule rnd_mono [OF ok]) simp
  finally show "0 < rnd f (2/10)" .
qed

definition raw_difficulty :: "fp \<Rightarrow> real \<Rightarrow> int \<Rightarrow> int \<Rightarrow> int" where
  "raw_difficulty f a mn mx =
     \<lfloor>rnd f (of_int mn + rnd f (rnd f (rnd f (a - rnd f (7/10)) * rnd f (of_int mx - of_int mn)) / rnd f (2/10))) + 1/2\<rfloor>"

lemma difficultyForScore_Fin:
  assumes "fp_ok f" and "mn \<le> mx"
  shows "difficultyForScore f (Fin a) mn mx = jsint (max mn (min mx (raw_difficulty f a mn mx)))"
  using rnd_two_tenths_pos [OF assms(1)] assms(2)
  by (auto simp: difficultyForScore_def Let_def jsint_def lit_def jsub_def raw_difficulty_def)

lemma raw_difficulty_mono:
  assumes "fp_ok f" and "mn \<le> mx" and "a \<le> b"
  shows "raw_difficulty f a mn mx \<le> raw_difficulty f b mn mx"
  using assms(2,3) rnd_two_tenths_pos [OF assms(1)] unfolding raw_difficulty_def
  by (intro floor_mono add_right_mono rnd_mono [OF assms(1)] add_left_mono divide_right_mono mult_right_mono)
    (auto intro!: rnd_mono [OF assms(1)] rnd_nonneg [OF assms(1)])

section \<open>The store\<close>

interpretation nns: lazy_reads map_of "\<lambda>x. x * 1000" "\<lambda>_. True" False nonce_has jsmap_wf
  by unfold_locales (auto simp: nonce_has_def fun_eq_iff intro: inv_intros split: option.splits)

text \<open>The entry of a nonce together with a bound on the number of entries inserted after it.\<close>

definition holds :: "string \<Rightarrow> int \<Rightarrow> nat \<Rightarrow> nonces \<Rightarrow> bool" where
  "holds n x j st \<longleftrightarrow> (\<exists>pre post. st = pre @ (n, x) # post \<and> n \<notin> fst ` set pre \<and> length post \<le> j)"

lemma holds_map_of: "holds n x j st \<Longrightarrow> map_of st n = Some x"
proof -
  assume "holds n x j st"
  then obtain pre post where "st = pre @ (n, x) # post" "map_of pre n = None"
    by (auto simp: holds_def map_of_eq_None_iff)
  then show "map_of st n = Some x" by (simp add: map_add_def)
qed

lemma holds_le: "holds n x i st \<Longrightarrow> i \<le> j \<Longrightarrow> holds n x j st"
  unfolding holds_def using le_trans by blast

lemma holds_delete:
  assumes "holds n x j st" and "k \<noteq> n"
  shows "holds n x j (AList.delete k st)"
proof -
  obtain pre post where st: "st = pre @ (n, x) # post" "n \<notin> fst ` set pre" "length post \<le> j"
    using assms(1) by (auto simp: holds_def)
  have "AList.delete k st = AList.delete k pre @ (n, x) # AList.delete k post"
    using st(1) assms(2) by (simp add: AList.delete_eq)
  moreover have "n \<notin> fst ` set (AList.delete k pre)" using st(2) by (auto simp: AList.delete_eq)
  moreover have "length (AList.delete k post) \<le> j"
    using st(3) order_trans [OF length_filter_le] by (simp add: AList.delete_eq)
  ultimately show ?thesis unfolding holds_def by blast
qed

lemma holds_has:
  assumes "holds n x j st" and "t div 1000 < x"
  shows "holds n x j (snd (nonce_has t k st))"
proof (cases "k = n")
  case True
  then show ?thesis using assms holds_map_of [OF assms(1)] by (simp add: nonce_has_def)
next
  case False
  then show ?thesis using assms by (auto simp: nonce_has_def holds_delete split: option.splits)
qed

lemma holds_add:
  assumes "holds n x j st" and "k \<noteq> n" and "map_of st k = None" and "int (Suc j) < capacity"
  shows "holds n x (Suc j) (nonce_add capacity k v st)"
proof -
  define st' where "st' = (if capacity \<le> int (length st) then (case st of [] \<Rightarrow> [] | (k, v) # _ \<Rightarrow> AList.delete k st) else st)"
  have h: "holds n x j st'"
  proof (cases "capacity \<le> int (length st)")
    case True
    obtain pre post where st: "st = pre @ (n, x) # post" "n \<notin> fst ` set pre" "length post \<le> j"
      using assms(1) by (auto simp: holds_def)
    with True assms(4) have "pre \<noteq> []" by (cases pre) auto
    then obtain k' v' r where r: "st = (k', v') # r" "k' \<noteq> n" using st by (cases pre) auto
    with True have "st' = AList.delete k' st" by (simp add: st'_def)
    then show ?thesis using holds_delete [OF assms(1) r(2)] by simp
  next
    case False
    then show ?thesis using assms(1) by (simp add: st'_def)
  qed
  have "k \<notin> fst ` set st'"
    using assms(3) by (auto simp: st'_def map_of_eq_None_iff AList.delete_eq split: list.splits if_splits)
  then have "AList.update k v st' = st' @ [(k, v)]" by (rule update_fresh)
  moreover obtain pre post where "st' = pre @ (n, x) # post" "n \<notin> fst ` set pre" "length post \<le> j"
    using h by (auto simp: holds_def)
  ultimately show ?thesis
    unfolding holds_def nonce_add_def st'_def [symmetric] Let_def
    by (intro exI [of _ pre] exI [of _ "post @ [(k, v)]"]) simp
qed

lemma holds_new:
  assumes "map_of st n = None"
  shows "holds n x 0 (nonce_add capacity n x st)"
proof -
  define st' where "st' = (if capacity \<le> int (length st) then (case st of [] \<Rightarrow> [] | (k, v) # _ \<Rightarrow> AList.delete k st) else st)"
  have "n \<notin> fst ` set st'"
    using assms by (auto simp: st'_def map_of_eq_None_iff AList.delete_eq split: list.splits if_splits)
  then show ?thesis
    by (auto simp: nonce_add_def st'_def [symmetric] Let_def update_fresh holds_def)
qed


section \<open>Verification, step by step\<close>

lemma pow_fail_simps [simp]:
  "pow_fail r d s = (VOk i, s') \<longleftrightarrow> False" "hs_nonces (snd (pow_fail r d s)) = hs_nonces s"
  "fst (pow_fail r d s) = VFail r"
  by (simp_all add: pow_fail_def inc_total_def)

lemma hs_nonces_inc_total [simp]: "hs_nonces (inc_total out d s) = hs_nonces s"
  by (simp add: inc_total_def)

text \<open>What a nonce string says: its payload, provided its authentication code is right.\<close>

definition nonce_payload :: "pow_env \<Rightarrow> HashcashConfig \<Rightarrow> string \<Rightarrow> NoncePayload option" where
  "nonce_payload e cfg nonce =
     (case split_last CHR ''.'' nonce of
        None \<Rightarrow> None
      | Some (pb, mb) \<Rightarrow>
          if pb = [] \<or> mb = [] \<or> b64url_decode mb \<noteq> pe_hmac e (hmacSecret cfg) (b64url_decode pb) then None
          else pe_parse e (b64url_decode pb))"

lemma verifySolution_payload:
  assumes "nonce_payload e cfg nonce = Some p" and "1 \<le> length solution" and "length solution \<le> 256"
  shows "verifySolution e cfg now nonce solution sc uid did s = verify_payload e cfg now nonce solution sc uid did p s"
  using assms
  by (auto simp: verifySolution_def nonce_payload_def Let_def split: option.splits if_splits)

lemma verifySolution_VOk:
  assumes "verifySolution e cfg now nonce solution sc uid did s = (VOk i, s')"
  shows "1 \<le> length solution \<and> length solution \<le> 256 \<and>
    (\<exists>p. nonce_payload e cfg nonce = Some p \<and> verify_payload e cfg now nonce solution sc uid did p s = (VOk i, s'))"
  using assms
  by (auto simp: verifySolution_def nonce_payload_def Let_def not_less Suc_le_eq split: if_splits option.splits prod.splits)

definition pow_required :: "pow_env \<Rightarrow> HashcashConfig \<Rightarrow> jsnum \<Rightarrow> jsnum" where
  "pow_required e cfg sc = difficultyForScore (pe_fp e) sc (difficultyMin cfg) (difficultyMax cfg)"

lemma verify_payload_VOk_iff:
  "(\<exists>s'. verify_payload e cfg now nonce solution sc uid did p s = (VOk i, s')) \<longleftrightarrow>
     np_sub p = uid \<and> np_dev p = did \<and> now div 1000 < np_exp p \<and> np_diff p = pow_required e cfg sc \<and> np_diff p \<noteq> NaN
     \<and> \<not> fst (nonce_has now nonce (hs_nonces s))
     \<and> \<not> jlt (jsint (int (leading_zeros (pe_sha256 e (nonce @ solution))))) (np_diff p) \<and> i = np_iat p"
  by (auto simp: verify_payload_def Let_def countLeadingZeroBits_spec hashSolution_def pow_required_def split: prod.splits if_splits)

lemma verify_payload_VOk:
  assumes "verify_payload e cfg now nonce solution sc uid did p s = (VOk i, s')"
  shows "np_sub p = uid \<and> np_dev p = did \<and> now div 1000 < np_exp p \<and> np_diff p = pow_required e cfg sc \<and> np_diff p \<noteq> NaN
    \<and> \<not> fst (nonce_has now nonce (hs_nonces s))
    \<and> \<not> jlt (jsint (int (leading_zeros (pe_sha256 e (nonce @ solution))))) (np_diff p) \<and> i = np_iat p
    \<and> hs_nonces s' = nonce_add (usedNonceCapacity cfg) nonce (np_exp p) (snd (nonce_has now nonce (hs_nonces s)))"
  using assms
  by (auto simp: verify_payload_def Let_def countLeadingZeroBits_spec hashSolution_def pow_required_def split: prod.splits if_splits)

lemma verifySolution_nonces:
  "hs_nonces (snd (verifySolution e cfg now nonce solution sc uid did s)) \<in> {hs_nonces s, snd (nonce_has now nonce (hs_nonces s))}
   \<or> (\<exists>i x. fst (verifySolution e cfg now nonce solution sc uid did s) = VOk i \<and> \<not> fst (nonce_has now nonce (hs_nonces s))
      \<and> hs_nonces (snd (verifySolution e cfg now nonce solution sc uid did s)) =
          nonce_add (usedNonceCapacity cfg) nonce x (snd (nonce_has now nonce (hs_nonces s))))"
  by (auto simp: verifySolution_def verify_payload_def Let_def split: option.splits prod.splits)

lemma nonce_has_absent: "\<not> fst (nonce_has t n st) \<Longrightarrow> map_of (snd (nonce_has t n st)) n = None"
  by (auto simp: nonce_has_def split: option.splits if_splits)

lemma nonce_has_present: "map_of st n = Some x \<Longrightarrow> t div 1000 < x \<Longrightarrow> nonce_has t n st = (True, st)"
  by (simp add: nonce_has_def)

lemma nonce_has_other: "map_of st k = None \<Longrightarrow> map_of (snd (nonce_has t n st)) k = None"
  by (auto simp: nonce_has_def split: option.splits)

lemma nonce_add_other: "k \<noteq> n \<Longrightarrow> map_of st k = None \<Longrightarrow> map_of (nonce_add capacity n x st) k = None"
proof -
  assume k: "k \<noteq> n" "map_of st k = None"
  have "map_of (case st of [] \<Rightarrow> [] | (a, b) # r \<Rightarrow> AList.delete a st) k = None"
    using k(2) by (cases st) (simp_all split: prod.splits if_splits)
  with k show ?thesis by (simp add: nonce_add_def Let_def)
qed

section \<open>Sequences of verifications\<close>

type_synonym pow_call = "ms \<times> string \<times> string \<times> jsnum \<times> string \<times> string"

fun pow_run :: "pow_env \<Rightarrow> HashcashConfig \<Rightarrow> pow_call list \<Rightarrow> Hashcash \<Rightarrow> VerifyResult list \<times> Hashcash" where
  "pow_run e cfg [] s = ([], s)"
| "pow_run e cfg ((t, n, sol, sc, uid, did) # cs) s =
     (case verifySolution e cfg t n sol sc uid did s of
        (r, s) \<Rightarrow> (case pow_run e cfg cs s of (rs, s) \<Rightarrow> (r # rs, s)))"

definition accepted :: "VerifyResult list \<Rightarrow> nat" where
  "accepted rs = length (filter (\<lambda>r. \<exists>i. r = VOk i) rs)"

lemma holds_accept:
  assumes "holds n x j (hs_nonces s)" and "t div 1000 < x"
    and "verifySolution e cfg t n' sol sc uid did s = (VOk i, s')" and "int (Suc j) < usedNonceCapacity cfg"
  shows "holds n x (Suc j) (hs_nonces s')"
proof -
  let ?st = "snd (nonce_has t n' (hs_nonces s))"
  obtain p :: NoncePayload where "verify_payload e cfg t n' sol sc uid did p s = (VOk i, s')"
    using verifySolution_VOk [OF assms(3)] by blast
  then have ok: "\<not> fst (nonce_has t n' (hs_nonces s))"
      "hs_nonces s' = nonce_add (usedNonceCapacity cfg) n' (np_exp p) ?st"
    using verify_payload_VOk by simp_all
  have "n' \<noteq> n" using ok(1) nonce_has_present [OF holds_map_of [OF assms(1)] assms(2)] by auto
  then show ?thesis
    using holds_add [OF holds_has [OF assms(1,2)] _ nonce_has_absent [OF ok(1)] assms(4)] ok(2) by simp
qed

lemma holds_reject:
  assumes "holds n x j (hs_nonces s)" and "t div 1000 < x"
    and "verifySolution e cfg t n' sol sc uid did s = (VFail r, s')"
  shows "holds n x j (hs_nonces s')"
  using verifySolution_nonces [of e cfg t n' sol sc uid did s] assms holds_has [OF assms(1,2)] by auto

lemma holds_run:
  assumes "pow_run e cfg cs s = (rs, s')" and "holds n x j (hs_nonces s)"
    and "\<forall>c \<in> set cs. fst c div 1000 < x" and "int (j + accepted rs) < usedNonceCapacity cfg"
  shows "\<exists>j'. holds n x j' (hs_nonces s')"
  using assms
proof (induction cs arbitrary: s rs j)
  case Nil
  then show ?case by auto
next
  case (Cons c cs)
  obtain t n' sol sc uid did where c: "c = (t, n', sol, sc, uid, did)" by (cases c)
  obtain r s1 where v: "verifySolution e cfg t n' sol sc uid did s = (r, s1)" by fastforce
  obtain rs1 where run: "pow_run e cfg cs s1 = (rs1, s')" and rs: "rs = r # rs1"
    using Cons.prems(1) c v by (auto split: prod.splits)
  have t: "t div 1000 < x" using Cons.prems(3) c by simp
  show ?case
  proof (cases r)
    case (VOk i)
    then have k: "int (Suc j + accepted rs1) < usedNonceCapacity cfg"
      using Cons.prems(4) rs by (simp add: accepted_def)
    with VOk have "holds n x (Suc j) (hs_nonces s1)"
      using holds_accept [OF Cons.prems(2) t] v by simp
    from Cons.IH [OF run this] Cons.prems(3) k show ?thesis by simp
  next
    case (VFail w)
    then have "holds n x j (hs_nonces s1)" using holds_reject [OF Cons.prems(2) t] v by simp
    from Cons.IH [OF run this] Cons.prems(3,4) VFail rs show ?thesis by (simp add: accepted_def)
  qed
qed

section \<open>The text of a nonce\<close>

lemma split_last_snoc: "c \<notin> set b \<Longrightarrow> split_last c (a @ c # b) = Some (a, b)"
proof -
  assume nb: "c \<notin> set b"
  then have "dropWhile (\<lambda>x. x \<noteq> c) (rev b @ c # rev a) = c # rev a"
    and "takeWhile (\<lambda>x. x \<noteq> c) (rev b @ c # rev a) = rev b"
    by (auto simp: dropWhile_append takeWhile_append)
  then show ?thesis by (simp add: split_last_def)
qed

lemma split_last_extend:
  assumes "split_last c s = Some (a, b)" and "x \<noteq> c"
  shows "split_last c (s @ [x]) = Some (a, b @ [x])"
proof -
  have "c \<in> set s"
  proof (rule ccontr)
    assume "c \<notin> set s"
    then have "dropWhile (\<lambda>x. x \<noteq> c) (rev s) = []" by (auto simp: dropWhile_eq_Nil_conv)
    with assms(1) show False by (simp add: split_last_def)
  qed
  with assms show ?thesis by (auto simp: split_last_def split: list.splits)
qed

text \<open>Padding the code of a nonce changes the string but not what it says.\<close>

lemma nonce_payload_padded:
  assumes "nonce_payload e cfg n = Some p"
  shows "nonce_payload e cfg (n @ ''='') = Some p"
proof -
  obtain pb mb where sp: "split_last CHR ''.'' n = Some (pb, mb)" "pb \<noteq> []" "mb \<noteq> []"
      and m: "b64url_decode mb = pe_hmac e (hmacSecret cfg) (b64url_decode pb)" "pe_parse e (b64url_decode pb) = Some p"
    using assms by (auto simp: nonce_payload_def split: option.splits if_splits)
  have "b64url_decode (mb @ [CHR ''='']) = b64url_decode mb" by (rule b64url_decode_skip) simp
  then show ?thesis
    using split_last_extend [OF sp(1), of "CHR ''=''"] sp m by (simp add: nonce_payload_def)
qed

lemma issued_payload:
  assumes "json_ok e" and "issueChallenge e cfg t uid did sc s = (ic, s1)" and "ic_difficulty ic = Fin (of_int d)"
  shows "nonce_payload e cfg (ic_nonce ic) =
    Some \<lparr>np_exp = ic_expiresAt ic, np_diff = ic_difficulty ic, np_sub = uid, np_dev = did, np_iat = t div 1000\<rparr>"
proof -
  define p where "p = \<lparr>np_exp = ic_expiresAt ic, np_diff = ic_difficulty ic, np_sub = uid, np_dev = did, np_iat = t div 1000\<rparr>"
  let ?mac = "pe_hmac e (hmacSecret cfg) (pe_stringify e p)"
  have n: "ic_nonce ic = b64url_encode (pe_stringify e p) @ CHR ''.'' # b64url_encode ?mac"
    using assms(2) by (auto simp: issueChallenge_def Let_def p_def)
  have "split_last CHR ''.'' (ic_nonce ic) = Some (b64url_encode (pe_stringify e p), b64url_encode ?mac)"
    unfolding n by (rule split_last_snoc [OF b64url_encode_plain])
  moreover have "pe_parse e (pe_stringify e p) = Some p" "pe_stringify e p \<noteq> []" "?mac \<noteq> []"
    using assms(1,3) by (auto simp: json_ok_def p_def)
  ultimately show ?thesis by (simp add: nonce_payload_def p_def)
qed


section \<open>A concrete environment\<close>

text \<open>
  The environment of the witnesses: a digest of zero bits and a payload rendering through an enumeration of
  the payloads with whole-number difficulty, which satisfies \<open>json_ok\<close>.
\<close>

definition enc_payload :: "NoncePayload \<Rightarrow> byte list" where
  "enc_payload p = 1 # replicate (to_nat (np_exp p, case np_diff p of Fin d \<Rightarrow> \<lfloor>d\<rfloor> | _ \<Rightarrow> 0, np_sub p, np_dev p, np_iat p)) 0"

definition dec_payload :: "byte list \<Rightarrow> NoncePayload option" where
  "dec_payload bs = (case from_nat (length bs - 1) :: int \<times> int \<times> string \<times> string \<times> int of
     (x, d, u, v, i) \<Rightarrow> Some \<lparr>np_exp = x, np_diff = Fin (of_int d), np_sub = u, np_dev = v, np_iat = i\<rparr>)"

definition sample_env :: pow_env where
  "sample_env = \<lparr>pe_hmac = (\<lambda>k b. [7]), pe_sha256 = (\<lambda>_. replicate 32 0), pe_stringify = enc_payload,
     pe_parse = dec_payload, pe_fp = exact_fp\<rparr>"

lemma json_ok_sample: "json_ok sample_env"
  by (auto simp: json_ok_def sample_env_def dec_payload_def enc_payload_def)

lemma sample_env_zeros: "leading_zeros (pe_sha256 sample_env x) = 256"
proof -
  have "countLeadingZeroBits (replicate n 0) = 8 * n" for n by (induction n) auto
  from this [of 32] show ?thesis by (simp add: countLeadingZeroBits_spec sample_env_def)
qed

definition idle_pow :: Hashcash where
  "idle_pow = \<lparr>hs_nonces = [], hs_total = (\<lambda>_ _. 0), hs_solveSeconds = []\<rparr>"

lemma hs_nonces_idle [simp]: "hs_nonces idle_pow = []"
  by (simp add: idle_pow_def)

abbreviation sample_ic :: IssuedChallenge where
  "sample_ic \<equiv> fst (issueChallenge sample_env (default_hashcash []) 0 ''u'' ''d'' (Fin (4/5)) idle_pow)"

lemma sample_required: "pow_required sample_env (default_hashcash []) (Fin (4/5)) = Fin (of_int 20)"
  by (simp add: pow_required_def sample_env_def default_hashcash_def difficultyForScore_Fin raw_difficulty_def jsint_def)

lemma sample_ic_simps [simp]:
  "ic_difficulty sample_ic = Fin (of_int 20)" "ic_expiresAt sample_ic = 120"
  using sample_required
  by (simp_all add: issueChallenge_def Let_def pow_required_def) (simp_all add: ttlSec_def default_hashcash_def)

lemma sample_ic_issued:
  "issueChallenge sample_env (default_hashcash []) 0 ''u'' ''d'' (Fin (4/5)) idle_pow =
     (sample_ic, snd (issueChallenge sample_env (default_hashcash []) 0 ''u'' ''d'' (Fin (4/5)) idle_pow))"
  by simp

lemma sample_accepts:
  assumes "sol \<noteq> []" and "length sol \<le> 256"
  shows "\<exists>s'. verifySolution sample_env (default_hashcash []) 5 (ic_nonce sample_ic) sol (Fin (4/5)) ''u'' ''d'' idle_pow = (VOk 0, s')"
proof -
  let ?p = "\<lparr>np_exp = 120, np_diff = Fin (of_int 20), np_sub = ''u'', np_dev = ''d'', np_iat = 0\<rparr>"
  have p: "nonce_payload sample_env (default_hashcash []) (ic_nonce sample_ic) = Some ?p"
    using issued_payload [OF json_ok_sample sample_ic_issued sample_ic_simps(1)] by simp
  have "\<exists>s'. verify_payload sample_env (default_hashcash []) 5 (ic_nonce sample_ic) sol (Fin (4/5)) ''u'' ''d'' ?p idle_pow = (VOk 0, s')"
    unfolding verify_payload_VOk_iff sample_required sample_env_zeros
    by (simp add: nonce_has_def jsint_def)
  then show ?thesis
    using verifySolution_payload [OF p, of sol] assms by (simp add: Suc_le_eq)
qed

section \<open>Properties\<close>

text \<open>
  C27. A solution is accepted only if the nonce carries an authentic payload for this very user and device,
  not expired, whose difficulty is the one the live score demands; the nonce string is not in the
  used-nonce store; and the digest of nonce and solution starts with at least that many zero bits.
\<close>

theorem accepted_solution_sound:
  assumes "verifySolution e cfg now nonce solution sc uid did s = (VOk iat, s')"
  shows "\<exists>p. nonce_payload e cfg nonce = Some p \<and> np_sub p = uid \<and> np_dev p = did \<and> np_iat p = iat
    \<and> now div 1000 < np_exp p \<and> np_diff p = pow_required e cfg sc
    \<and> \<not> fst (nonce_has now nonce (hs_nonces s))
    \<and> \<not> jlt (jsint (int (leading_zeros (pe_sha256 e (nonce @ solution))))) (np_diff p)
    \<and> 1 \<le> length solution \<and> length solution \<le> 256"
proof -
  obtain p where p: "nonce_payload e cfg nonce = Some p"
      "verify_payload e cfg now nonce solution sc uid did p s = (VOk iat, s')"
    using verifySolution_VOk [OF assms] by blast
  then show ?thesis using verifySolution_VOk [OF assms] verify_payload_VOk [OF p(2)] by blast
qed

theorem accepted_solution_sound_witness:
  "\<exists>p. nonce_payload sample_env (default_hashcash []) (ic_nonce sample_ic) = Some p \<and> np_sub p = ''u''"
proof -
  obtain s' where "verifySolution sample_env (default_hashcash []) 5 (ic_nonce sample_ic) ''x'' (Fin (4/5)) ''u'' ''d'' idle_pow = (VOk 0, s')"
    using sample_accepts [of "''x''"] by auto
  from accepted_solution_sound [OF this] show ?thesis by blast
qed

text \<open>
  C28. A nonce string is good for one solution: once accepted, it is refused at every later time, whatever
  verifications happen in between, as long as fewer than \<open>usedNonceCapacity\<close> of them succeed.
\<close>

theorem nonce_single_use:
  assumes "verifySolution e cfg t n sol sc uid did s = (VOk iat, s1)"
    and "pow_run e cfg cs s1 = (rs, s2)" and "int (accepted rs) < usedNonceCapacity cfg"
    and "\<forall>c \<in> set cs. fst c \<le> now"
  shows "fst (verifySolution e cfg now n sol' sc' uid' did' s2) \<noteq> VOk iat'"
proof
  assume "fst (verifySolution e cfg now n sol' sc' uid' did' s2) = VOk iat'"
  then obtain s3 where again: "verifySolution e cfg now n sol' sc' uid' did' s2 = (VOk iat', s3)"
    by (metis prod.collapse)
  obtain p where p: "nonce_payload e cfg n = Some p" "verify_payload e cfg t n sol sc uid did p s = (VOk iat, s1)"
    using verifySolution_VOk [OF assms(1)] by blast
  have q: "verify_payload e cfg now n sol' sc' uid' did' p s2 = (VOk iat', s3)"
    using verifySolution_VOk [OF again] p(1) by auto
  then have x: "now div 1000 < np_exp p" and fresh: "\<not> fst (nonce_has now n (hs_nonces s2))"
    using verify_payload_VOk [OF q] by auto
  have "holds n (np_exp p) 0 (hs_nonces s1)"
    using verify_payload_VOk [OF p(2)] by (simp add: holds_new nonce_has_absent)
  moreover have "\<forall>c \<in> set cs. fst c div 1000 < np_exp p"
    using assms(4) x by (meson zdiv_mono1 le_less_trans zero_less_numeral)
  ultimately obtain j where "holds n (np_exp p) j (hs_nonces s2)"
    using holds_run [OF assms(2)] assms(3) by fastforce
  then show False using fresh nonce_has_present [OF holds_map_of x] by simp
qed

theorem nonce_single_use_witness:
  "fst (verifySolution sample_env (default_hashcash []) 6 (ic_nonce sample_ic) ''y'' (Fin (4/5)) ''u'' ''d''
     (snd (verifySolution sample_env (default_hashcash []) 5 (ic_nonce sample_ic) ''x'' (Fin (4/5)) ''u'' ''d'' idle_pow))) \<noteq> VOk 0"
proof -
  obtain s' where s': "verifySolution sample_env (default_hashcash []) 5 (ic_nonce sample_ic) ''x'' (Fin (4/5)) ''u'' ''d'' idle_pow = (VOk 0, s')"
    using sample_accepts [of "''x''"] by auto
  from nonce_single_use [OF this, of "[]" "[]" s' 6 "''y''" "Fin (4/5)" "''u''" "''d''" 0] s' show ?thesis
    by (simp add: accepted_def default_hashcash_def)
qed

text \<open>
  An issued challenge can be redeemed: a solution of admissible length with enough leading zeros, sent by
  the same user and device before the expiry while the score still asks for the same difficulty, is
  accepted on its first use.
\<close>

lemma issued_challenge_redeemable:
  assumes "json_ok e" and "issueChallenge e cfg t uid did sc s = (ic, s1)" and "ic_difficulty ic = Fin (of_int d)"
    and "pow_required e cfg sc' = Fin (of_int d)" and "now div 1000 < ic_expiresAt ic"
    and "1 \<le> length sol" and "length sol \<le> 256"
    and "d \<le> int (leading_zeros (pe_sha256 e (ic_nonce ic @ sol)))"
    and "map_of (hs_nonces s2) (ic_nonce ic) = None"
  shows "\<exists>s3. verifySolution e cfg now (ic_nonce ic) sol sc' uid did s2 = (VOk (t div 1000), s3)"
proof -
  let ?p = "\<lparr>np_exp = ic_expiresAt ic, np_diff = ic_difficulty ic, np_sub = uid, np_dev = did, np_iat = t div 1000\<rparr>"
  have "\<not> fst (nonce_has now (ic_nonce ic) (hs_nonces s2))" using assms(9) by (simp add: nonce_has_def)
  then have "\<exists>s3. verify_payload e cfg now (ic_nonce ic) sol sc' uid did ?p s2 = (VOk (t div 1000), s3)"
    unfolding verify_payload_VOk_iff using assms(3,4,5,8) by (simp add: jsint_def)
  then show ?thesis
    using verifySolution_payload [OF issued_payload [OF assms(1-3)] assms(6,7)] by simp
qed

text \<open>
  One proof of work can be spent twice: if a nonce is accepted with a solution that starts with the
  character \<open>=\<close>, then the same nonce with that character appended, which the store has not seen, is
  accepted with the rest of the solution, because the padded code decodes to the same bytes, the
  hashed text is the same and the store compares the strings.
\<close>

lemma padded_nonce_replays:
  assumes "verifySolution e cfg now n (''='' @ sol) sc uid did s = (VOk iat, s1)" and "sol \<noteq> []"
    and "map_of (hs_nonces s) (n @ ''='') = None"
  shows "\<exists>s2. verifySolution e cfg now (n @ ''='') sol sc uid did s1 = (VOk iat, s2)"
proof -
  obtain p where p: "nonce_payload e cfg n = Some p"
      "verify_payload e cfg now n (''='' @ sol) sc uid did p s = (VOk iat, s1)"
    using verifySolution_VOk [OF assms(1)] by blast
  note ok = verify_payload_VOk [OF p(2)]
  have "map_of (hs_nonces s1) (n @ ''='') = None"
    using ok assms(3) by (simp add: nonce_add_other nonce_has_other)
  then have "\<not> fst (nonce_has now (n @ ''='') (hs_nonces s1))" by (simp add: nonce_has_def)
  then have "\<exists>s2. verify_payload e cfg now (n @ ''='') sol sc uid did p s1 = (VOk iat, s2)"
    unfolding verify_payload_VOk_iff using ok by auto
  moreover have "1 \<le> length sol" "length sol \<le> 256"
    using assms(2) verifySolution_VOk [OF assms(1)] by (auto simp: Suc_le_eq)
  ultimately show ?thesis
    using verifySolution_payload [OF nonce_payload_padded [OF p(1)]] by simp
qed

text \<open>
  The demanded difficulty is a whole number of bits between the configured bounds, and a higher score never
  demands fewer bits.
\<close>

lemma difficulty_bounded_monotone:
  assumes "fp_ok f" and "mn \<le> mx" and "a \<le> b"
  shows "\<exists>d d'. difficultyForScore f (Fin a) mn mx = Fin (of_int d) \<and> difficultyForScore f (Fin b) mn mx = Fin (of_int d')
    \<and> mn \<le> d \<and> d \<le> d' \<and> d' \<le> mx"
  using raw_difficulty_mono [OF assms] assms(2)
  by (intro exI [of _ "max mn (min mx (raw_difficulty f a mn mx))"] exI [of _ "max mn (min mx (raw_difficulty f b mn mx))"])
    (auto simp: difficultyForScore_Fin [OF assms(1,2)] jsint_def)

end
