(* ===== verification/Audit_Trail.thy ===== *)
theory Audit_Trail
  imports Threat JsNum
begin

text \<open>
  The audit trail: \<open>src/src/audit/audit.service.ts\<close>, \<open>audit.repository.ts\<close> and the timeout wrapper
  \<open>src/src/gateway/pipeline/record-with-timeout.util.ts\<close>. The database decides each insert: it stores the
  row, rejects the statement, or stores the row and still reports an error (a connection lost after the
  commit); \<open>lat\<close> gives the time each attempt takes. The table is a list of rows in insertion order.
\<close>

record AuditEntry =
  ae_userId :: string
  ae_resource :: string
  ae_action :: string
  ae_decision :: decision_label
  ae_trustScore :: "jsnum option"
  ae_ja4hFingerprint :: "string option"
  ae_ipAddress :: "string option"
  ae_userAgent :: "string option"
  ae_requestId :: "string option"
  ae_eventType :: "string option"

record AuditLog =
  al_id :: nat
  al_entry :: AuditEntry
  al_createdAt :: ms

type_synonym audit_logs = "AuditLog list"

datatype insert_result = Stored | Rejected | StoredButRejected

text \<open>The outcomes of the inserts of one call, by attempt, with their latencies and the database clock.\<close>

record InsertEnv =
  ie_result :: "nat \<Rightarrow> insert_result"
  ie_latency :: "nat \<Rightarrow> ms"
  ie_dbnow :: "nat \<Rightarrow> ms"

definition insert_row :: "AuditEntry \<Rightarrow> ms \<Rightarrow> audit_logs \<Rightarrow> audit_logs" where
  "insert_row entry t logs = logs @ [\<lparr>al_id = Suc (length logs), al_entry = entry, al_createdAt = t\<rparr>]"

text \<open>\<open>AuditRepository.insert\<close>: whether the call resolved, and the table.\<close>

definition repo_insert :: "InsertEnv \<Rightarrow> nat \<Rightarrow> AuditEntry \<Rightarrow> audit_logs \<Rightarrow> bool \<times> audit_logs" where
  "repo_insert ie attempt entry logs =
     (case ie_result ie attempt of
        Stored \<Rightarrow> (True, insert_row entry (ie_dbnow ie attempt) logs)
      | Rejected \<Rightarrow> (False, logs)
      | StoredButRejected \<Rightarrow> (False, insert_row entry (ie_dbnow ie attempt) logs))"

datatype log_outcome = Logged | AuditExhausted

text \<open>
  The retry loop with \<open>n\<close> attempts left, \<open>attempt\<close> the loop counter: the outcome, the table and the elapsed
  milliseconds. The last failure is not followed by a sleep.
\<close>

fun wal_loop ::
    "InsertEnv \<Rightarrow> int \<Rightarrow> AuditEntry \<Rightarrow> nat \<Rightarrow> nat \<Rightarrow> audit_logs \<Rightarrow> log_outcome \<times> audit_logs \<times> ms" where
  "wal_loop ie base entry 0 attempt logs = (AuditExhausted, logs, 0)"
| "wal_loop ie base entry (Suc n) attempt logs =
     (case repo_insert ie attempt entry logs of
        (True, logs) \<Rightarrow> (Logged, logs, ie_latency ie attempt)
      | (False, logs) \<Rightarrow>
          (let delay = (if n = 0 then 0 else base * 2 ^ attempt)
           in case wal_loop ie base entry n (Suc attempt) logs of
                (out, logs, t) \<Rightarrow> (out, logs, ie_latency ie attempt + delay + t)))"

definition writeBlocking :: "AuditConfig \<Rightarrow> InsertEnv \<Rightarrow> AuditEntry \<Rightarrow> audit_logs \<Rightarrow> log_outcome \<times> audit_logs \<times> ms" where
  "writeBlocking cfg ie entry logs = wal_loop ie (walBaseDelayMs cfg) entry (nat (walMaxRetries cfg)) 0 logs"

definition recordBestEffort :: "InsertEnv \<Rightarrow> AuditEntry \<Rightarrow> audit_logs \<Rightarrow> audit_logs \<times> ms \<times> bus_event list" where
  "recordBestEffort ie entry logs =
     (case repo_insert ie 0 entry logs of
        (True, logs) \<Rightarrow> (logs, ie_latency ie 0, [])
      | (False, logs) \<Rightarrow> (logs, ie_latency ie 0, [AUDIT_RECORD_FAILED]))"

definition audit_log ::
    "AuditConfig \<Rightarrow> InsertEnv \<Rightarrow> AuditEntry \<Rightarrow> audit_logs \<Rightarrow> log_outcome \<times> audit_logs \<times> ms \<times> bus_event list" where
  "audit_log cfg ie entry logs =
     (if ae_decision entry = L_allow
      then (case writeBlocking cfg ie entry logs of (out, logs, t) \<Rightarrow> (out, logs, t, []))
      else (case recordBestEffort ie entry logs of (logs, t, es) \<Rightarrow> (Logged, logs, t, es)))"

text \<open>
  The race of \<open>audit.log\<close> against a timer: \<open>TimedOut\<close> counts an audit failure and lets the write finish in
  the background, \<open>Threw\<close> is an exception that reaches the caller.
\<close>

datatype race_outcome = Recorded | TimedOut | Threw

definition recordWithTimeoutBestEffort ::
    "AuditConfig \<Rightarrow> InsertEnv \<Rightarrow> ms \<Rightarrow> AuditEntry \<Rightarrow> audit_logs \<Rightarrow> race_outcome \<times> audit_logs \<times> bus_event list" where
  "recordWithTimeoutBestEffort cfg ie timeoutMs entry logs =
     (case audit_log cfg ie entry logs of
        (out, logs, t, es) \<Rightarrow>
          (if timeoutMs \<le> t then TimedOut else if out = AuditExhausted then Threw else Recorded, logs, es))"

section \<open>Queries\<close>

record AuditLogFilters =
  fl_userId :: "string option"
  fl_decision :: "decision_label option"
  fl_limit :: nat
  fl_offset :: nat

definition matching_logs :: "AuditLogFilters \<Rightarrow> audit_logs \<Rightarrow> audit_logs" where
  "matching_logs fl logs =
     filter (\<lambda>l. (case fl_userId fl of None \<Rightarrow> True | Some u \<Rightarrow> ae_userId (al_entry l) = u)
               \<and> (case fl_decision fl of None \<Rightarrow> True | Some d \<Rightarrow> ae_decision (al_entry l) = d)) logs"

text \<open>
  \<open>findLogs\<close>: newest first (rows of the same instant in an unspecified order, here reverse insertion); every
  returned row carries the total of the matching rows, so the total is read from the first row of the page.
\<close>

definition findLogs :: "AuditLogFilters \<Rightarrow> audit_logs \<Rightarrow> audit_logs \<times> nat" where
  "findLogs fl logs =
     (let matching = matching_logs fl logs;
          sorted = rev (sort_key al_createdAt matching);
          page = take (fl_limit fl) (drop (fl_offset fl) sorted)
      in (page, case page of [] \<Rightarrow> 0 | _ # _ \<Rightarrow> length matching))"

definition queryLogs ::
    "string option \<Rightarrow> decision_label option \<Rightarrow> nat option \<Rightarrow> nat option \<Rightarrow> audit_logs \<Rightarrow> audit_logs \<times> nat" where
  "queryLogs uid dec lm off logs =
     findLogs \<lparr>fl_userId = uid, fl_decision = dec,
       fl_limit = (case lm of None \<Rightarrow> 50 | Some n \<Rightarrow> n), fl_offset = (case off of None \<Rightarrow> 0 | Some n \<Rightarrow> n)\<rparr> logs"

section \<open>Lemmas\<close>

text \<open>The rows that failed attempts leave behind: inserts that were committed although an error was reported.\<close>

lemma failed_attempt:
  assumes "ie_result ie attempt \<noteq> Stored"
  shows "\<exists>pre. repo_insert ie attempt entry logs = (False, logs @ pre) \<and> (\<forall>l \<in> set pre. al_entry l = entry)
    \<and> length pre = length (filter (\<lambda>i. ie_result ie (attempt + i) = StoredButRejected) [0..<Suc 0])"
  using assms by (cases "ie_result ie attempt") (auto simp: repo_insert_def insert_row_def)

lemma sum_from_first: "(\<Sum>i<Suc n. f (a + i)) = f a + (\<Sum>i<n. f (Suc a + i))" for f :: "nat \<Rightarrow> int"
  by (simp add: sum.lessThan_Suc_shift del: sum.lessThan_Suc)

lemma upt_shift: "filter (\<lambda>i. P (a + i)) [0..<Suc k] = filter (\<lambda>i. P (a + i)) [0..<Suc 0] @ map Suc (filter (\<lambda>i. P (Suc a + i)) [0..<k])"
proof -
  have "[0..<Suc k] = 0 # map Suc [0..<k]" by (simp add: map_Suc_upt upt_conv_Cons)
  then show ?thesis by (simp add: filter_map o_def)
qed

lemma wal_loop_success:
  assumes "k < n" and "ie_result ie (attempt + k) = Stored" and "\<forall>i < k. ie_result ie (attempt + i) \<noteq> Stored"
  shows "\<exists>new. wal_loop ie base entry n attempt logs = (Logged, logs @ new,
      (\<Sum>i<Suc k. ie_latency ie (attempt + i)) + (\<Sum>i<k. base * 2 ^ (attempt + i)))
    \<and> (\<forall>l \<in> set new. al_entry l = entry)
    \<and> length new = Suc (length (filter (\<lambda>i. ie_result ie (attempt + i) = StoredButRejected) [0..<k]))"
  using assms
proof (induction k arbitrary: n attempt logs)
  case 0
  then obtain m where n: "n = Suc m" by (cases n) auto
  have r: "ie_result ie attempt = Stored" using "0.prems"(2) by simp
  have "wal_loop ie base entry n attempt logs = (Logged, logs @ [\<lparr>al_id = Suc (length logs), al_entry = entry,
      al_createdAt = ie_dbnow ie attempt\<rparr>], ie_latency ie attempt)"
    unfolding n by (simp add: repo_insert_def r insert_row_def)
  then show ?case by auto
next
  case (Suc k)
  obtain m where n: "n = Suc (Suc m)" using Suc.prems(1) by (cases n; cases "n - 1") auto
  have r: "ie_result ie attempt \<noteq> Stored" using Suc.prems(3) [rule_format, of 0] by simp
  have later: "k < Suc m" "ie_result ie (Suc attempt + k) = Stored" "\<forall>i < k. ie_result ie (Suc attempt + i) \<noteq> Stored"
    using Suc.prems n by (simp, simp, metis Suc_less_eq add_Suc_right add_Suc_shift)
  obtain pre where pre: "repo_insert ie attempt entry logs = (False, logs @ pre)" "\<forall>l \<in> set pre. al_entry l = entry"
      "length pre = length (filter (\<lambda>i. ie_result ie (attempt + i) = StoredButRejected) [0..<Suc 0])"
    using failed_attempt [OF r] by blast
  obtain new where rest: "wal_loop ie base entry (Suc m) (Suc attempt) (logs @ pre) = (Logged, (logs @ pre) @ new,
      (\<Sum>i<Suc k. ie_latency ie (Suc attempt + i)) + (\<Sum>i<k. base * 2 ^ (Suc attempt + i)))"
      "\<forall>l \<in> set new. al_entry l = entry"
      "length new = Suc (length (filter (\<lambda>i. ie_result ie (Suc attempt + i) = StoredButRejected) [0..<k]))"
    using Suc.IH [OF later, of "logs @ pre"] by blast
  have "wal_loop ie base entry n attempt logs = (Logged, logs @ (pre @ new),
      (\<Sum>i<Suc (Suc k). ie_latency ie (attempt + i)) + (\<Sum>i<Suc k. base * 2 ^ (attempt + i)))"
    unfolding n wal_loop.simps(2) [of _ _ _ "Suc m"] pre(1) prod.case bool.case rest(1) Let_def
    by (simp only: sum_from_first [of "ie_latency ie" attempt] sum_from_first [of "\<lambda>j. base * 2 ^ j" attempt]) simp
  moreover have "length (pre @ new) = Suc (length (filter (\<lambda>i. ie_result ie (attempt + i) = StoredButRejected) [0..<Suc k]))"
    unfolding upt_shift [of "\<lambda>i. ie_result ie i = StoredButRejected" attempt k] using pre(3) rest(3) by simp
  ultimately show ?case using pre(2) rest(2) by (intro exI [of _ "pre @ new"]) auto
qed

lemma wal_loop_failure:
  assumes "\<forall>i < n. ie_result ie (attempt + i) \<noteq> Stored"
  shows "\<exists>new. wal_loop ie base entry n attempt logs = (AuditExhausted, logs @ new,
      (\<Sum>i<n. ie_latency ie (attempt + i)) + (\<Sum>i<n - 1. base * 2 ^ (attempt + i)))
    \<and> (\<forall>l \<in> set new. al_entry l = entry)
    \<and> length new = length (filter (\<lambda>i. ie_result ie (attempt + i) = StoredButRejected) [0..<n])"
  using assms
proof (induction n arbitrary: attempt logs)
  case 0
  then show ?case by simp
next
  case (Suc n)
  have r: "ie_result ie attempt \<noteq> Stored" using Suc.prems [rule_format, of 0] by simp
  have later: "\<forall>i < n. ie_result ie (Suc attempt + i) \<noteq> Stored"
    using Suc.prems by (metis Suc_less_eq add_Suc_right add_Suc_shift)
  obtain pre where pre: "repo_insert ie attempt entry logs = (False, logs @ pre)" "\<forall>l \<in> set pre. al_entry l = entry"
      "length pre = length (filter (\<lambda>i. ie_result ie (attempt + i) = StoredButRejected) [0..<Suc 0])"
    using failed_attempt [OF r] by blast
  obtain new where rest: "wal_loop ie base entry n (Suc attempt) (logs @ pre) = (AuditExhausted, (logs @ pre) @ new,
      (\<Sum>i<n. ie_latency ie (Suc attempt + i)) + (\<Sum>i<n - 1. base * 2 ^ (Suc attempt + i)))"
      "\<forall>l \<in> set new. al_entry l = entry"
      "length new = length (filter (\<lambda>i. ie_result ie (Suc attempt + i) = StoredButRejected) [0..<n])"
    using Suc.IH [OF later, of "logs @ pre"] by blast
  have delays: "(\<Sum>i<n. base * 2 ^ (attempt + i)) =
      (if n = 0 then 0 else base * 2 ^ attempt) + (\<Sum>i<n - 1. base * 2 ^ (Suc attempt + i))"
  proof (cases n)
    case (Suc m)
    then show ?thesis by (simp only: sum_from_first [of "\<lambda>j. base * 2 ^ j"]) simp
  qed simp
  have "wal_loop ie base entry (Suc n) attempt logs = (AuditExhausted, logs @ (pre @ new),
      (\<Sum>i<Suc n. ie_latency ie (attempt + i)) + (\<Sum>i<Suc n - 1. base * 2 ^ (attempt + i)))"
    unfolding sum_from_first [of "ie_latency ie" attempt] diff_Suc_1 delays by (simp add: pre(1) rest(1) [simplified] Let_def)
  moreover have "length (pre @ new) = length (filter (\<lambda>i. ie_result ie (attempt + i) = StoredButRejected) [0..<Suc n])"
    unfolding upt_shift [of "\<lambda>i. ie_result ie i = StoredButRejected" attempt n] using pre(3) rest(3) by simp
  ultimately show ?case using pre(2) rest(2) by (intro exI [of _ "pre @ new"]) auto
qed

text \<open>The first confirmed insert, when there is one among the first \<open>n\<close>.\<close>

lemma first_stored:
  assumes "\<exists>k < n. ie_result ie k = Stored"
  shows "\<exists>k < n. ie_result ie k = Stored \<and> (\<forall>i < k. ie_result ie i \<noteq> Stored)"
proof -
  define k where "k = (LEAST k. ie_result ie k = Stored)"
  have "k < n" "ie_result ie k = Stored" "\<forall>i < k. ie_result ie i \<noteq> Stored"
    using assms unfolding k_def by (auto intro: LeastI le_less_trans [OF Least_le] dest: not_less_Least)
  then show ?thesis by blast
qed

lemma wal_success:
  assumes "\<exists>k < n. ie_result ie k = Stored"
  shows "\<exists>new t. wal_loop ie base entry n 0 logs = (Logged, logs @ new, t) \<and> new \<noteq> []
    \<and> (\<forall>l \<in> set new. al_entry l = entry)
    \<and> ((\<forall>k. ie_result ie k \<noteq> StoredButRejected) \<longrightarrow> length new = 1)"
proof -
  obtain k where k: "k < n" "ie_result ie (0 + k) = Stored" "\<forall>i < k. ie_result ie (0 + i) \<noteq> Stored"
    using first_stored [OF assms] by auto
  from wal_loop_success [OF this, of base entry logs] show ?thesis by fastforce
qed

lemma audit_exhausted_iff:
  assumes "ae_decision entry = L_allow"
  shows "fst (audit_log cfg ie entry logs) = AuditExhausted \<longleftrightarrow> \<not> (\<exists>k < nat (walMaxRetries cfg). ie_result ie k = Stored)"
proof (cases "\<exists>k < nat (walMaxRetries cfg). ie_result ie k = Stored")
  case True
  then show ?thesis
    using wal_success [OF True, of "walBaseDelayMs cfg" entry logs]
    by (auto simp: audit_log_def writeBlocking_def assms)
next
  case False
  then show ?thesis
    using wal_loop_failure [of "nat (walMaxRetries cfg)" ie 0 "walBaseDelayMs cfg" entry logs]
    by (auto simp: audit_log_def writeBlocking_def assms split: prod.splits)
qed


section \<open>Properties\<close>

text \<open>
  C30. The audit write of an ALLOW is fail-closed, with the retries of the configuration. When one of the first \<open>walMaxRetries\<close>
  inserts is confirmed, the write returns at the first such attempt \<open>k\<close>, after the time of the attempts so far and
  of the delays between them, the \<open>i\<close>-th of which is \<open>walBaseDelayMs * 2 ^ i\<close>, and the trail is extended by rows of exactly this entry: one for
  the confirmed insert and one for every earlier insert the database committed although it reported an error. Otherwise the write
  throws, after all \<open>walMaxRetries\<close> attempts and the delays between them, with no wait after the last.
\<close>

theorem allow_audit_fail_closed:
  assumes "ae_decision entry = L_allow" and "n = nat (walMaxRetries cfg)"
  shows "if \<exists>k < n. ie_result ie k = Stored
    then \<exists>k < n. \<exists>new. ie_result ie k = Stored \<and> (\<forall>i < k. ie_result ie i \<noteq> Stored)
      \<and> audit_log cfg ie entry logs = (Logged, logs @ new,
          (\<Sum>i<Suc k. ie_latency ie i) + (\<Sum>i<k. walBaseDelayMs cfg * 2 ^ i), [])
      \<and> (\<forall>l \<in> set new. al_entry l = entry)
      \<and> length new = 1 + length (filter (\<lambda>i. ie_result ie i = StoredButRejected) [0..<k])
    else \<exists>new. audit_log cfg ie entry logs = (AuditExhausted, logs @ new,
          (\<Sum>i<n. ie_latency ie i) + (\<Sum>i<n - 1. walBaseDelayMs cfg * 2 ^ i), [])
      \<and> (\<forall>l \<in> set new. al_entry l = entry)
      \<and> length new = length (filter (\<lambda>i. ie_result ie i = StoredButRejected) [0..<n])"
proof (cases "\<exists>k < n. ie_result ie k = Stored")
  case True
  then obtain k where k: "k < n" "ie_result ie k = Stored" "\<forall>i < k. ie_result ie i \<noteq> Stored"
    using first_stored by blast
  then show ?thesis
    using True wal_loop_success [of k n ie 0 "walBaseDelayMs cfg" entry logs] assms
    by (auto simp: audit_log_def writeBlocking_def intro!: exI [of _ k])
next
  case False
  then show ?thesis
    using wal_loop_failure [of n ie 0 "walBaseDelayMs cfg" entry logs] assms
    by (auto simp: audit_log_def writeBlocking_def)
qed

definition flaky_env :: InsertEnv where
  "flaky_env = \<lparr>ie_result = (\<lambda>k. if k = 2 then Stored else Rejected), ie_latency = (\<lambda>_. 1), ie_dbnow = (\<lambda>k. int k)\<rparr>"

definition broken_env :: InsertEnv where
  "broken_env = \<lparr>ie_result = (\<lambda>_. Rejected), ie_latency = (\<lambda>_. 1), ie_dbnow = (\<lambda>k. int k)\<rparr>"

definition sample_entry :: AuditEntry where
  "sample_entry = \<lparr>ae_userId = ''u'', ae_resource = ''/r'', ae_action = ''GET'', ae_decision = L_allow, ae_trustScore = None,
     ae_ja4hFingerprint = None, ae_ipAddress = None, ae_userAgent = None, ae_requestId = None, ae_eventType = None\<rparr>"

theorem allow_audit_fail_closed_witness:
  "(\<exists>new. audit_log default_audit flaky_env sample_entry [] = (Logged, new, 153, []) \<and> length new = 1)
   \<and> (\<exists>logs. audit_log default_audit broken_env sample_entry [] = (AuditExhausted, logs, 153, []))"
proof
  have d: "ae_decision sample_entry = L_allow" "3 = nat (walMaxRetries default_audit)" "walBaseDelayMs default_audit = 50"
    by (simp_all add: default_audit_def sample_entry_def)
  have two: "k = 2" if "ie_result flaky_env k = Stored" for k using that by (simp add: flaky_env_def split: if_splits)
  have "\<exists>k < 3. ie_result flaky_env k = Stored" by (intro exI [of _ 2]) (simp add: flaky_env_def)
  then obtain k new where "ie_result flaky_env k = Stored"
      and run: "audit_log default_audit flaky_env sample_entry [] = (Logged, [] @ new,
        (\<Sum>i<Suc k. ie_latency flaky_env i) + (\<Sum>i<k. walBaseDelayMs default_audit * 2 ^ i), [])"
      "length new = 1 + length (filter (\<lambda>i. ie_result flaky_env i = StoredButRejected) [0..<k])"
    using allow_audit_fail_closed [OF d(1,2), of flaky_env "[]"] by (auto simp only: if_True)
  then have "k = 2" by (simp add: two)
  with run d(3) show "\<exists>new. audit_log default_audit flaky_env sample_entry [] = (Logged, new, 153, []) \<and> length new = 1"
    by (simp add: flaky_env_def numeral_eq_Suc)
  have "\<not> (\<exists>k < 3. ie_result broken_env k = Stored)" by (simp add: broken_env_def)
  with allow_audit_fail_closed [OF d(1,2), of broken_env "[]"] d(3)
  show "\<exists>logs. audit_log default_audit broken_env sample_entry [] = (AuditExhausted, logs, 153, [])"
    by (auto simp: broken_env_def numeral_eq_Suc)
qed

text \<open>
  When the best-effort wrapper throws: never for a CHALLENGE or DENY entry, but for an entry whose decision is
  \<open>allow\<close> exactly when no attempt is confirmed and the retries end before the timeout. The exception
  reaches the stage that only wanted a best-effort record.
\<close>

lemma timeout_wrapper_throws_iff:
  "fst (recordWithTimeoutBestEffort cfg ie timeoutMs entry logs) = Threw \<longleftrightarrow>
     ae_decision entry = L_allow \<and> \<not> (\<exists>k < nat (walMaxRetries cfg). ie_result ie k = Stored)
     \<and> fst (snd (snd (audit_log cfg ie entry logs))) < timeoutMs"
proof (cases "ae_decision entry = L_allow")
  case True
  obtain out logs' t es where a: "audit_log cfg ie entry logs = (out, logs', t, es)" by (metis prod_cases4)
  then show ?thesis
    using audit_exhausted_iff [OF True, of cfg ie logs] True
    by (auto simp: recordWithTimeoutBestEffort_def not_le split: if_splits)
next
  case False
  then show ?thesis
    by (auto simp: recordWithTimeoutBestEffort_def audit_log_def split: prod.splits)
qed

text \<open>
  A page past the end of the trail reports a total of zero, however many rows match, because the total
  is a column of the returned rows; on every other page the total is the number of matching rows.
\<close>

lemma query_total:
  "snd (findLogs fl logs) =
     (if fl_limit fl = 0 \<or> length (matching_logs fl logs) \<le> fl_offset fl then 0 else length (matching_logs fl logs))"
  by (auto simp: findLogs_def Let_def split: list.splits)

end
