(* ===== verification/Proxy.thy ===== *)
theory Proxy
  imports Http Config
begin

unbundle bit_operations_syntax

text \<open>
  Forwarding: \<open>src/src/proxy/service-registry.service.ts\<close>, \<open>dns-rebinding.guard.ts\<close>, \<open>response-validator.ts\<close>
  and \<open>proxy.service.ts\<close>. Parameters, in the record \<open>net_env\<close>: the WHATWG URL parser (\<open>ne_parse\<close> of an
  absolute path, \<open>ne_resolve\<close> of a reference against a base), DNS lookup, the HTTP client (a result
  per attempt), the circuit breaker (whether it refuses to run the action, and whether its own timeout ends the wait while
  the action goes on), the mTLS agent and the rendering of numbers.
\<close>

section \<open>Service registry\<close>

type_synonym registry = "(string, string) jsmap"

datatype proxy_error = HttpErr nat string | RawErr string

definition resolve_service :: "registry \<Rightarrow> string \<Rightarrow> proxy_error + string" where
  "resolve_service reg name =
     (case map_of reg name of
        None \<Rightarrow> Inl (HttpErr 404 (''Unknown service: '' @ name @ ''. Not in PROXY_SERVICE_REGISTRY.''))
      | Some u \<Rightarrow>
          if u = [] then Inl (HttpErr 404 (''Unknown service: '' @ name @ ''. Not in PROXY_SERVICE_REGISTRY.''))
          else Inr u)"

definition extractServiceName :: "string \<Rightarrow> string option" where
  "extractServiceName p =
     (if p = [] \<or> p = ''/'' then None
      else (let stripped = (if hd p = CHR ''/'' then tl p else p);
                first = hd (split_on CHR ''/'' stripped)
            in if first \<noteq> [] then Some first else None))"

definition stripPrefix :: "string \<Rightarrow> string" where
  "stripPrefix p =
     (case extractServiceName p of
        None \<Rightarrow> p
      | Some name \<Rightarrow> (let remainder = drop (length name + 1) p in if remainder \<noteq> [] then remainder else ''/''))"

section \<open>DNS rebinding guard\<close>

definition digit_val :: "char \<Rightarrow> nat" where
  "digit_val c = of_char c - 48"

definition parse_dec :: "string \<Rightarrow> nat" where
  "parse_dec s = foldl (\<lambda>a c. 10 * a + digit_val c) 0 s"

text \<open>\<open>net.isIPv4\<close>: four dotted decimals up to 255 without leading zeros.\<close>

definition octet_ok :: "string \<Rightarrow> bool" where
  "octet_ok s \<longleftrightarrow> s \<noteq> [] \<and> length s \<le> 3 \<and> list_all is_digit s \<and> parse_dec s \<le> 255 \<and> (hd s = CHR ''0'' \<longrightarrow> length s = 1)"

definition isIPv4 :: "string \<Rightarrow> bool" where
  "isIPv4 s \<longleftrightarrow> (let ps = split_on CHR ''.'' s in length ps = 4 \<and> list_all octet_ok ps)"

definition ipv4ToUint32 :: "string \<Rightarrow> 32 word" where
  "ipv4ToUint32 ip = foldl (\<lambda>acc oct. push_bit 8 acc OR of_nat (parse_dec oct)) 0 (split_on CHR ''.'' ip)"

definition inCidr :: "string \<Rightarrow> 32 word \<Rightarrow> nat \<Rightarrow> bool" where
  "inCidr ip base bits =
     (let mask = (if bits = 0 then 0 else push_bit (32 - bits) (0xffffffff :: 32 word))
      in (ipv4ToUint32 ip AND mask) = (base AND mask))"

datatype guard_result = GuardOk | GuardBlocked | LookupFailed

definition assertSafe :: "(string \<Rightarrow> string option) \<Rightarrow> string \<Rightarrow> guard_result" where
  "assertSafe lookup hostname =
     (case lookup hostname of
        None \<Rightarrow> LookupFailed
      | Some address \<Rightarrow>
          if address \<in> set [''::1'', ''169.254.169.254''] then GuardBlocked
          else if isIPv4 address \<and> inCidr address (ipv4ToUint32 ''127.0.0.0'') 8 then GuardBlocked
          else GuardOk)"

section \<open>Responses and retries\<close>

record UpstreamResponse =
  up_status :: nat
  up_content_type :: "hval option"
  up_body :: json

definition contains :: "string \<Rightarrow> string \<Rightarrow> bool" where
  "contains pat s = list_ex (prefix pat) (suffixes s)"

definition content_type_string :: "UpstreamResponse \<Rightarrow> string" where
  "content_type_string r =
     (case up_content_type r of Some (HStr s) \<Rightarrow> s | Some (HArr (x # _)) \<Rightarrow> x | _ \<Rightarrow> [])"

definition assertValidProxyResponse :: "UpstreamResponse \<Rightarrow> proxy_error option" where
  "assertValidProxyResponse r =
     (if 500 \<le> up_status r then Some (HttpErr 503 ''Upstream returned 5xx'')
      else (let ct = content_type_string r in
            if ct = [] \<or> \<not> contains ''application/json'' (to_lower ct)
            then Some (HttpErr 502 (''Unexpected Content-Type from upstream: '' @ (if ct = [] then ''missing'' else ct)))
            else None))"

definition RETRIABLE_ERROR_CODES :: "string list" where
  "RETRIABLE_ERROR_CODES = [''ECONNREFUSED'', ''ETIMEDOUT'', ''ECONNRESET'']"

definition RETRIABLE_STATUSES :: "nat list" where
  "RETRIABLE_STATUSES = [502, 503, 504]"

definition BACKOFF_DELAYS_MS :: "ms list" where
  "BACKOFF_DELAYS_MS = [100, 200, 400]"

definition backoff :: "nat \<Rightarrow> ms" where
  "backoff attempt = BACKOFF_DELAYS_MS ! min attempt (length BACKOFF_DELAYS_MS - 1)"

text \<open>An attempt fails with an optional error code or yields a response.\<close>

type_synonym axios_result = "string option + UpstreamResponse"

fun retriable :: "axios_result \<Rightarrow> bool" where
  "retriable (Inl (Some code)) = (code \<in> set RETRIABLE_ERROR_CODES)"
| "retriable (Inl None) = False"
| "retriable (Inr r) = (up_status r \<in> set RETRIABLE_STATUSES)"

text \<open>
  The retry loop with \<open>n\<close> retries left: the result, the number of attempts made and the total back-off. A
  retriable status on the last attempt is an error, so that the breaker records it.
\<close>

fun retry_loop :: "(nat \<Rightarrow> axios_result) \<Rightarrow> nat \<Rightarrow> nat \<Rightarrow> (proxy_error + UpstreamResponse) \<times> nat \<times> ms" where
  "retry_loop net 0 attempt =
     (case net attempt of
        Inl code \<Rightarrow> (Inl (RawErr ''network error''), 1, 0)
      | Inr r \<Rightarrow> if up_status r \<in> set RETRIABLE_STATUSES then (Inl (RawErr ''Upstream after retries''), 1, 0) else (Inr r, 1, 0))"
| "retry_loop net (Suc n) attempt =
     (if retriable (net attempt)
      then (case retry_loop net n (Suc attempt) of (r, k, d) \<Rightarrow> (r, Suc k, backoff attempt + d))
      else (case net attempt of Inl code \<Rightarrow> (Inl (RawErr ''network error''), 1, 0) | Inr r \<Rightarrow> (Inr r, 1, 0)))"

definition executeWithRetry :: "ProxyConfig \<Rightarrow> (nat \<Rightarrow> axios_result) \<Rightarrow> (proxy_error + UpstreamResponse) \<times> nat \<times> ms" where
  "executeWithRetry cfg net = retry_loop net (nat (maxRetries cfg)) 0"

section \<open>Headers\<close>

definition STRIP_HEADERS :: "string list" where
  "STRIP_HEADERS = [''authorization'', ''cookie'', ''x-forwarded-for'', ''host'', ''content-length'']"

definition hval_string :: "hval \<Rightarrow> string" where
  "hval_string v = (case v of HStr s \<Rightarrow> s | HArr xs \<Rightarrow> join_with '', '' xs)"

definition forwardable :: "string \<Rightarrow> bool" where
  "forwardable k \<longleftrightarrow> to_lower k \<notin> set STRIP_HEADERS \<and> \<not> prefix ''x-gateway-'' (to_lower k)"

definition buildProxyHeaders ::
    "(jsnum \<Rightarrow> string) \<Rightarrow> (string \<times> hval) list \<Rightarrow> UserClaims \<Rightarrow> jsnum \<Rightarrow> string option \<Rightarrow> (string, string) jsmap" where
  "buildProxyHeaders num_str incoming cl score ja4h =
     (let out = fold (\<lambda>(k, v) out. if forwardable k then AList.update k (hval_string v) out else out) incoming [];
          out = AList.update ''x-user-id'' (userId cl) out;
          out = AList.update ''x-roles'' (join_with '','' (roles cl)) out;
          out = AList.update ''x-trust-score'' (num_str score) out;
          out = AList.update ''x-gateway-request'' ''true'' out
      in case ja4h of None \<Rightarrow> out | Some j \<Rightarrow> AList.update ''x-ja4h'' j out)"

section \<open>Forwarding\<close>

record net_env =
  ne_parse :: "string \<Rightarrow> (string \<times> string) option"
  ne_resolve :: "string \<Rightarrow> string \<Rightarrow> (string \<times> string) option"
  ne_lookup :: "string \<Rightarrow> string option"
  ne_axios :: "nat \<Rightarrow> axios_result"
  ne_breaker_refuses :: "string \<Rightarrow> bool"
  ne_breaker_times_out :: bool
  ne_agent_ok :: bool
  ne_num_str :: "jsnum \<Rightarrow> string"

record OutboundRequest =
  ob_method :: string
  ob_host :: string
  ob_url :: string
  ob_headers :: "(string, string) jsmap"
  ob_data :: json

text \<open>The first half of \<open>forward\<close>: the service, and the host and URL the request is sent to, or the exception.\<close>

definition resolve_target :: "registry \<Rightarrow> net_env \<Rightarrow> Request \<Rightarrow> proxy_error + string \<times> string \<times> string" where
  "resolve_target reg ne req =
     (let rawUrl = raw_url req;
          rawPath = hd (split_on CHR ''?'' rawUrl)
      in case extractServiceName rawPath of
           None \<Rightarrow> Inl (HttpErr 404 ''Cannot extract service name from path'')
         | Some serviceName \<Rightarrow>
       (case resolve_service reg serviceName of
          Inl e \<Rightarrow> Inl e
        | Inr baseUrl \<Rightarrow>
       (case ne_parse ne rawUrl of
          None \<Rightarrow> Inl (RawErr ''Invalid URL'')
        | Some (pathname, search) \<Rightarrow>
            (let forwardedPath = stripPrefix pathname @ search;
                 base = (if last baseUrl = CHR ''/'' then baseUrl else baseUrl @ ''/'')
             in case ne_resolve ne forwardedPath base of
                  None \<Rightarrow> Inl (RawErr ''Invalid URL'')
                | Some (hostname, href) \<Rightarrow>
               (case assertSafe (ne_lookup ne) hostname of
                  LookupFailed \<Rightarrow> Inl (RawErr ''dns lookup failed'')
                | GuardBlocked \<Rightarrow> Inl (HttpErr 403 ''DNS rebinding guard'')
                | GuardOk \<Rightarrow> Inr (serviceName, hostname, href))))))"

text \<open>
  \<open>forward\<close>: the response or the error, with the outbound request and how many times it was sent. Every
  registered service has a breaker, so the defensive branch for a missing one is not reached.
\<close>

definition forward ::
    "ProxyConfig \<Rightarrow> registry \<Rightarrow> net_env \<Rightarrow> Request \<Rightarrow> UserClaims \<Rightarrow> jsnum \<Rightarrow>
      (proxy_error + UpstreamResponse) \<times> (OutboundRequest \<times> nat) option" where
  "forward cfg reg ne req cl score =
     (case resolve_target reg ne req of
        Inl e \<Rightarrow> (Inl e, None)
      | Inr (serviceName, hostname, href) \<Rightarrow>
          if \<not> ne_agent_ok ne then (Inl (RawErr ''mtls agent''), None)
          else if ne_breaker_refuses ne serviceName
          then (Inl (HttpErr 503 (''Circuit open for service: '' @ serviceName)), None)
          else
            (let ob = \<lparr>ob_method = req_method req, ob_host = hostname, ob_url = href,
                       ob_headers = buildProxyHeaders (ne_num_str ne) (headers req) cl score (extractJa4h req),
                       ob_data = req_body req\<rparr>
             in case executeWithRetry cfg (ne_axios ne) of
                  (res, k, _) \<Rightarrow>
                    if ne_breaker_times_out ne
                    then (Inl (HttpErr 503 (''Circuit open for service: '' @ serviceName)), Some (ob, k))
                    else (case res of
                            Inl e \<Rightarrow> (Inl e, Some (ob, k))
                          | Inr r \<Rightarrow>
                              (case assertValidProxyResponse r of
                                 Some e \<Rightarrow> (Inl e, Some (ob, k))
                               | None \<Rightarrow> (Inr r, Some (ob, k))))))"

section \<open>Lemmas\<close>

text \<open>The guard's mask arithmetic, byte by byte.\<close>

lemma bit_of_nat_small: "n < 256 \<Longrightarrow> 8 \<le> i \<Longrightarrow> \<not> bit (of_nat n :: 32 word) i"
proof -
  assume "n < 256" "8 \<le> i"
  moreover from \<open>8 \<le> i\<close> have "(2::nat) ^ 8 \<le> 2 ^ i" by (intro power_increasing) auto
  ultimately have "n < 2 ^ i" by simp
  then have "\<not> bit n i" by (simp add: bit_iff_odd)
  then show ?thesis by (simp only: bit_of_nat_iff) simp
qed

lemma ip32_octets:
  assumes "split_on CHR ''.'' ip = [a, b, c, d]"
  shows "ipv4ToUint32 ip = push_bit 24 (of_nat (parse_dec a)) OR (push_bit 16 (of_nat (parse_dec b))
    OR (push_bit 8 (of_nat (parse_dec c)) OR of_nat (parse_dec d)))"
  using assms
  by (simp add: ipv4ToUint32_def) (auto intro!: bit_word_eqI simp: bit_push_bit_iff bit_or_iff)

definition mask24 :: "32 word" where
  "mask24 = push_bit 24 (mask 32)"

lemma mask24_eq: "push_bit (32 - 8) (0xffffffff :: 32 word) = mask24"
proof -
  have "(0xffffffff :: 32 word) = mask 32" by (simp add: mask_eq_exp_minus_1)
  then show ?thesis by (simp only: mask24_def) simp
qed

lemma bit_mask24: "bit mask24 n \<longleftrightarrow> 24 \<le> n \<and> n < 32"
  by (auto simp: mask24_def bit_push_bit_iff bit_mask_iff)

lemma ip32_masked:
  assumes "split_on CHR ''.'' ip = [a, b, c, d]" and "parse_dec b < 256" "parse_dec c < 256" "parse_dec d < 256"
  shows "ipv4ToUint32 ip AND mask24 = push_bit 24 (of_nat (parse_dec a))"
proof (rule bit_word_eqI)
  fix n assume n: "n < LENGTH(32)"
  show "bit (ipv4ToUint32 ip AND mask24) n = bit (push_bit 24 (of_nat (parse_dec a)) :: 32 word) n"
  proof (cases "24 \<le> n")
    case True
    then have "\<not> bit (of_nat (parse_dec b) :: 32 word) (n - 16)" "\<not> bit (of_nat (parse_dec c) :: 32 word) (n - 8)"
        "\<not> bit (of_nat (parse_dec d) :: 32 word) n"
      using assms(2-4) by (simp_all add: bit_of_nat_small)
    with True n show ?thesis
      unfolding ip32_octets [OF assms(1)] by (simp add: bit_and_iff bit_or_iff bit_push_bit_iff bit_mask24)
  next
    case False
    then show ?thesis by (simp add: bit_and_iff bit_mask24 bit_push_bit_iff)
  qed
qed


lemma isIPv4_octets:
  assumes "isIPv4 ip"
  obtains a b c d where "split_on CHR ''.'' ip = [a, b, c, d]" "parse_dec a < 256" "parse_dec b < 256"
    "parse_dec c < 256" "parse_dec d < 256"
proof -
  have len: "length (split_on CHR ''.'' ip) = 4" and ok: "list_all octet_ok (split_on CHR ''.'' ip)"
    using assms by (auto simp: isIPv4_def Let_def)
  then obtain a b c d where "split_on CHR ''.'' ip = [a, b, c, d]"
    by (auto simp: numeral_eq_Suc length_Suc_conv)
  with ok that show ?thesis by (auto simp: octet_ok_def)
qed

lemma push24_inject:
  assumes "m < 256" and "n < 256"
  shows "push_bit 24 (of_nat m :: 32 word) = push_bit 24 (of_nat n) \<longleftrightarrow> m = n"
proof
  assume eq: "push_bit 24 (of_nat m :: 32 word) = push_bit 24 (of_nat n)"
  have small: "unat (push_bit 24 (of_nat k :: 32 word)) = 2 ^ 24 * k" if "k < 256" for k
  proof -
    have "push_bit 24 (of_nat k :: 32 word) = of_nat (2 ^ 24 * k)" by (simp add: push_bit_eq_mult)
    moreover have "2 ^ 24 * k < 2 ^ 32" using that by simp
    ultimately show ?thesis by (simp only: unat_of_nat) simp
  qed
  from eq have "(2 :: nat) ^ 24 * m = 2 ^ 24 * n" using small [OF assms(1)] small [OF assms(2)] by metis
  then show "m = n" by simp
qed simp

lemma loopback_cidr:
  assumes "isIPv4 ip"
  shows "inCidr ip (ipv4ToUint32 ''127.0.0.0'') 8 \<longleftrightarrow> parse_dec (hd (split_on CHR ''.'' ip)) = 127"
proof -
  obtain a b c d where ip: "split_on CHR ''.'' ip = [a, b, c, d]" "parse_dec a < 256" "parse_dec b < 256"
      "parse_dec c < 256" "parse_dec d < 256"
    using isIPv4_octets [OF assms] .
  have "parse_dec ''127'' = 127" "parse_dec ''0'' = 0" by (simp_all add: parse_dec_def digit_val_def)
  then have "ipv4ToUint32 ''127.0.0.0'' AND mask24 = push_bit 24 (of_nat 127)"
    using ip32_masked [of "''127.0.0.0''" "''127''" "''0''" "''0''" "''0''"] by simp
  moreover have "ipv4ToUint32 ip AND mask24 = push_bit 24 (of_nat (parse_dec a))"
    by (rule ip32_masked [OF ip(1,3-5)])
  ultimately have "inCidr ip (ipv4ToUint32 ''127.0.0.0'') 8 \<longleftrightarrow>
      push_bit 24 (of_nat (parse_dec a) :: 32 word) = push_bit 24 (of_nat 127)"
    unfolding inCidr_def mask24_eq by (simp only: Let_def if_False zero_neq_numeral [symmetric])
  also have "\<dots> \<longleftrightarrow> parse_dec a = 127" using ip(2) by (intro push24_inject) auto
  finally show ?thesis using ip(1) by (simp del: hd_split_on)
qed

text \<open>Attempts are bounded by the configured number of retries.\<close>

lemma retry_attempts: "1 \<le> fst (snd (retry_loop net n a)) \<and> fst (snd (retry_loop net n a)) \<le> Suc n"
  by (induction net n a rule: retry_loop.induct) (auto split: prod.splits sum.splits)

lemma retry_backoff: "snd (snd (retry_loop net n a)) \<le> 400 * int n"
proof (induction net n a rule: retry_loop.induct)
  case (1 net a)
  show ?case by (simp split: sum.splits)
next
  case (2 net n a)
  have "backoff a \<le> 400"
    by (cases "min a 2" rule: nat.exhaust)
      (auto simp: backoff_def BACKOFF_DELAYS_MS_def min_def nth_Cons split: nat.splits)
  with 2 show ?case by (auto split: prod.splits sum.splits)
qed

lemma retry_result_status: "fst (retry_loop net n a) = Inr r \<Longrightarrow> up_status r \<notin> set RETRIABLE_STATUSES"
  by (induction net n a rule: retry_loop.induct) (auto split: prod.splits sum.splits if_splits)


text \<open>Header names of the outbound request.\<close>

lemma keys_update [simp]: "fst ` set (AList.update k x m) = insert k (fst ` set m)"
  by (induction m) auto

lemma forwarded_keys:
  assumes "\<forall>k \<in> fst ` set out0. forwardable k"
  shows "\<forall>k \<in> fst ` set (fold (\<lambda>(k, v) out. if forwardable k then AList.update k (hval_string v) out else out) hs out0).
    forwardable k"
  using assms
proof (induction hs arbitrary: out0)
  case Nil
  then show ?case by simp
next
  case (Cons h hs)
  obtain k v where h: "h = (k, v)" by (cases h)
  show ?case
  proof (cases "forwardable k")
    case True
    then have "\<forall>k' \<in> fst ` set (AList.update k (hval_string v) out0). forwardable k'" using Cons.prems by simp
    from Cons.IH [OF this] True show ?thesis by (simp add: h)
  next
    case False
    from Cons.IH [OF Cons.prems] False show ?thesis by (simp add: h)
  qed
qed

lemma buildProxyHeaders_keys:
  assumes "k \<in> fst ` set (buildProxyHeaders num_str hs cl score ja4h)"
  shows "forwardable k \<or> k = ''x-gateway-request''"
proof -
  define out where "out = fold (\<lambda>(k, v) out. if forwardable k then AList.update k (hval_string v) out else out) hs []"
  have base: "\<forall>k \<in> fst ` set out. forwardable k" unfolding out_def by (rule forwarded_keys) simp
  have own: "forwardable ''x-user-id''" "forwardable ''x-roles''" "forwardable ''x-trust-score''" "forwardable ''x-ja4h''"
    by (simp_all add: forwardable_def STRIP_HEADERS_def to_lower_def lower_char_def)
  have closed: "\<forall>k' \<in> fst ` set (AList.update x v m). P k'" if "P x" "\<forall>k' \<in> fst ` set m. P k'"
    for P :: "string \<Rightarrow> bool" and x v and m :: "(string, string) jsmap"
    using that by simp
  have "\<forall>k' \<in> fst ` set (buildProxyHeaders num_str hs cl score ja4h). forwardable k' \<or> k' = ''x-gateway-request''"
    unfolding buildProxyHeaders_def out_def [symmetric] Let_def
    using base own by (cases ja4h) (simp_all only: option.case, (rule closed, simp)+, simp, (rule closed, simp)+, simp)
  then show ?thesis using assms by blast
qed

lemma buildProxyHeaders_own:
  "map_of (buildProxyHeaders num_str hs cl score ja4h) ''x-user-id'' = Some (userId cl)"
  "map_of (buildProxyHeaders num_str hs cl score ja4h) ''x-roles'' = Some (join_with '','' (roles cl))"
  "map_of (buildProxyHeaders num_str hs cl score ja4h) ''x-gateway-request'' = Some ''true''"
  "map_of (buildProxyHeaders num_str hs cl score ja4h) ''x-trust-score'' = Some (num_str score)"
  by (simp_all add: buildProxyHeaders_def Let_def split: option.splits)

lemma buildProxyHeaders_distinct: "distinct (map fst (buildProxyHeaders num_str hs cl score ja4h))"
proof -
  have "distinct (map fst (fold (\<lambda>(k, v) out. if forwardable k then AList.update k (hval_string v) out else out) hs out0))"
    if "distinct (map fst out0)" for out0 :: "(string, string) jsmap"
    using that by (induction hs arbitrary: out0) (simp_all add: distinct_update split: prod.split)
  then show ?thesis by (simp add: buildProxyHeaders_def Let_def distinct_update split: option.splits)
qed

lemma resolve_target_Inr:
  assumes "resolve_target reg ne req = Inr (svc, host, href)"
  shows "(\<exists>base. resolve_service reg svc = Inr base) \<and> assertSafe (ne_lookup ne) host = GuardOk
    \<and> extractServiceName (req_path req) = Some svc"
proof -
  obtain s where s: "extractServiceName (before_char CHR ''?'' (raw_url req)) = Some s"
    using assms by (cases "extractServiceName (before_char CHR ''?'' (raw_url req))") (simp_all add: resolve_target_def Let_def)
  obtain base where b: "resolve_service reg s = Inr base"
    using assms s by (cases "resolve_service reg s") (simp_all add: resolve_target_def Let_def)
  obtain pn sr where p: "ne_parse ne (raw_url req) = Some (pn, sr)"
    using assms s b by (cases "ne_parse ne (raw_url req)") (auto simp add: resolve_target_def Let_def)
  obtain b' where b': "resolve_target reg ne req =
      (case ne_resolve ne (stripPrefix pn @ sr) b' of
         None \<Rightarrow> Inl (RawErr ''Invalid URL'')
       | Some (hostname, href) \<Rightarrow>
           (case assertSafe (ne_lookup ne) hostname of
              LookupFailed \<Rightarrow> Inl (RawErr ''dns lookup failed'')
            | GuardBlocked \<Rightarrow> Inl (HttpErr 403 ''DNS rebinding guard'')
            | GuardOk \<Rightarrow> Inr (s, hostname, href)))"
    using s b p by (simp add: resolve_target_def Let_def)
  then show ?thesis
    using assms b s by (cases "ne_resolve ne (stripPrefix pn @ sr) b'") (auto simp: req_path_def split: guard_result.splits)
qed

lemma forward_sent:
  assumes "forward cfg reg ne req cl score = (res, Some (ob, k))"
  shows "\<exists>svc href. resolve_target reg ne req = Inr (svc, ob_host ob, href) \<and> \<not> ne_breaker_refuses ne svc
    \<and> ob_headers ob = buildProxyHeaders (ne_num_str ne) (headers req) cl score (extractJa4h req)
    \<and> k = fst (snd (executeWithRetry cfg (ne_axios ne)))"
proof -
  obtain r k' d where run: "executeWithRetry cfg (ne_axios ne) = (r, k', d)" by (metis prod_cases3)
  obtain svc host href where t: "resolve_target reg ne req = Inr (svc, host, href)"
    using assms by (cases "resolve_target reg ne req") (auto simp: forward_def)
  show ?thesis using assms t run
    by (cases r) (auto simp: forward_def Let_def split: if_splits option.splits)
qed

lemma double_slash_core:
  assumes "raw_url req = ''/'' @ svc @ ''//'' @ host @ ''/'' @ rest"
    and "svc \<noteq> []" and "CHR ''/'' \<notin> set svc" and "CHR ''?'' \<notin> set (svc @ host @ rest)"
    and "map_of reg svc = Some base" and "base \<noteq> []"
    and "ne_parse ne (raw_url req) = Some (raw_url req, [])"
    and "\<forall>b. ne_resolve ne (''//'' @ host @ ''/'' @ rest) b = Some (host, ''http://'' @ host @ ''/'' @ rest)"
    and "assertSafe (ne_lookup ne) host = GuardOk" and "ne_agent_ok ne" and "\<not> ne_breaker_refuses ne svc"
  shows "\<exists>res ob k. forward cfg reg ne req cl score = (res, Some (ob, k)) \<and> ob_host ob = host"
proof -
  let ?p = "''/'' @ svc @ ''//'' @ host @ ''/'' @ rest"
  have first: "hd (split_on CHR ''/'' (svc @ ''//'' @ host @ ''/'' @ rest)) = svc"
    using assms(3) by (simp add: before_char_def takeWhile_append)
  have svc: "extractServiceName ?p = Some svc"
    using first assms(2) by (simp add: extractServiceName_def Let_def del: hd_split_on)
  then have strip: "stripPrefix ?p = ''//'' @ host @ ''/'' @ rest"
    by (simp add: stripPrefix_def)
  have raw: "hd (split_on CHR ''?'' (raw_url req)) = ?p"
    unfolding hd_split_on using assms(1,4) by simp
  have resolve: "resolve_service reg svc = Inr base" using assms(5,6) by (simp add: resolve_service_def)
  have "resolve_target reg ne req = Inr (svc, host, ''http://'' @ host @ ''/'' @ rest)"
    unfolding resolve_target_def Let_def raw svc
    using assms(1,7-9) strip resolve by simp
  moreover obtain r k d where "executeWithRetry cfg (ne_axios ne) = (r, k, d)" by (metis prod_cases3)
  ultimately show ?thesis
    using assms(10,11) by (cases r) (auto simp: forward_def Let_def split: option.splits)
qed

text \<open>A small network: paths parse to themselves, a reference with two leading slashes names its host.\<close>

definition sample_proxy_cfg :: ProxyConfig where
  "sample_proxy_cfg = \<lparr>serviceRegistry = [], cbVolumeThreshold = 5, cbErrorThreshold = 50, cbResetTimeout = 10000,
     maxRetries = 3, boplaPolicyPath = []\<rparr>"

definition sample_registry :: registry where
  "sample_registry = [(''users'', ''http://users:80'')]"

definition sample_net :: net_env where
  "sample_net = \<lparr>ne_parse = (\<lambda>u. Some (u, [])),
     ne_resolve = (\<lambda>r b. Some (if take 2 r = ''//'' then takeWhile (\<lambda>c. c \<noteq> CHR ''/'') (drop 2 r) else b, ''http:'' @ r)),
     ne_lookup = (\<lambda>h. Some ''203.0.113.5''),
     ne_axios = (\<lambda>_. Inr \<lparr>up_status = 200, up_content_type = Some (HStr ''application/json''), up_body = JNull\<rparr>),
     ne_breaker_refuses = (\<lambda>_. False), ne_breaker_times_out = False, ne_agent_ok = True, ne_num_str = (\<lambda>_. ''0'')\<rparr>"

definition sample_evil_request :: Request where
  "sample_evil_request = sample_request\<lparr>originalUrl := Some ''/users//evil.test/x''\<rparr>"

lemma sample_safe: "assertSafe (\<lambda>h. Some ''203.0.113.5'') h = GuardOk"
proof -
  have "isIPv4 ''203.0.113.5''"
    by (simp add: isIPv4_def octet_ok_def is_digit_def parse_dec_def digit_val_def)
  then have "\<not> inCidr ''203.0.113.5'' (ipv4ToUint32 ''127.0.0.0'') 8"
    by (simp add: loopback_cidr before_char_def parse_dec_def digit_val_def)
  then show ?thesis by (simp add: assertSafe_def)
qed

lemma sample_net_simps:
  "raw_url sample_evil_request = ''/users//evil.test/x''"
  "map_of sample_registry ''users'' = Some ''http://users:80''"
  "ne_parse sample_net u = Some (u, [])"
  "ne_resolve sample_net ''//evil.test/x'' b = Some (''evil.test'', ''http://evil.test/x'')"
  "assertSafe (ne_lookup sample_net) h = GuardOk"
  "ne_agent_ok sample_net" "\<not> ne_breaker_refuses sample_net svc"
  using sample_safe
  by (simp_all add: raw_url_def sample_evil_request_def nullish_def sample_registry_def sample_net_def)

lemma sample_forward:
  "\<exists>res ob k. forward sample_proxy_cfg sample_registry sample_net sample_evil_request sample_claims (Fin 0) = (res, Some (ob, k))
    \<and> ob_host ob = ''evil.test''"
  by (rule double_slash_core [where svc = "''users''" and rest = "''x''" and base = "''http://users:80''"])
    (simp_all add: sample_net_simps)

section \<open>Properties\<close>

text \<open>
  C31. What leaves the gateway: whenever a request is sent upstream, the service its path names is registered, the guard passed
  the host it goes to and the breaker of the service did not refuse. No header it carries is called, in any mixture of cases,
  \<open>authorization\<close>, \<open>cookie\<close>, \<open>x-forwarded-for\<close>, \<open>host\<close> or \<open>content-length\<close>, and none starts with \<open>x-gateway-\<close> but the
  gateway's own mark; no name occurs twice, and the user, the roles and the trust score are those of the verified claims and of
  the decision. It is sent at most \<open>maxRetries + 1\<close> times.
\<close>

theorem forwarded_request_clean:
  assumes "forward cfg reg ne req cl score = (res, Some (ob, k))"
  shows "(\<exists>svc. extractServiceName (req_path req) = Some svc \<and> map_of reg svc \<noteq> None \<and> \<not> ne_breaker_refuses ne svc)
    \<and> assertSafe (ne_lookup ne) (ob_host ob) = GuardOk
    \<and> (\<forall>(h, v) \<in> set (ob_headers ob).
          to_lower h \<notin> {''authorization'', ''cookie'', ''x-forwarded-for'', ''host'', ''content-length''}
          \<and> (h = ''x-gateway-request'' \<or> \<not> prefix ''x-gateway-'' (to_lower h)))
    \<and> distinct (map fst (ob_headers ob))
    \<and> map_of (ob_headers ob) ''x-user-id'' = Some (userId cl)
    \<and> map_of (ob_headers ob) ''x-roles'' = Some (join_with '','' (roles cl))
    \<and> map_of (ob_headers ob) ''x-trust-score'' = Some (ne_num_str ne score)
    \<and> map_of (ob_headers ob) ''x-gateway-request'' = Some ''true''
    \<and> 1 \<le> k \<and> k \<le> Suc (nat (maxRetries cfg))"
proof -
  obtain svc href where t: "resolve_target reg ne req = Inr (svc, ob_host ob, href)" and f: "\<not> ne_breaker_refuses ne svc"
      "ob_headers ob = buildProxyHeaders (ne_num_str ne) (headers req) cl score (extractJa4h req)"
      "k = fst (snd (executeWithRetry cfg (ne_axios ne)))"
    using forward_sent [OF assms] by blast
  have "map_of reg svc \<noteq> None" "assertSafe (ne_lookup ne) (ob_host ob) = GuardOk" "extractServiceName (req_path req) = Some svc"
    using resolve_target_Inr [OF t] by (auto simp: resolve_service_def split: option.splits)
  moreover have "to_lower h \<notin> {''authorization'', ''cookie'', ''x-forwarded-for'', ''host'', ''content-length''}
      \<and> (h = ''x-gateway-request'' \<or> \<not> prefix ''x-gateway-'' (to_lower h))"
    if "(h, v) \<in> set (ob_headers ob)" for h v
  proof -
    have "h \<in> fst ` set (ob_headers ob)" using that by force
    then have "forwardable h \<or> h = ''x-gateway-request''" unfolding f(2) by (rule buildProxyHeaders_keys)
    then show ?thesis by (auto simp: forwardable_def STRIP_HEADERS_def to_lower_def lower_char_def)
  qed
  ultimately show ?thesis
    using f retry_attempts [of "ne_axios ne" "nat (maxRetries cfg)" 0] buildProxyHeaders_own buildProxyHeaders_distinct
    by (auto simp: executeWithRetry_def)
qed

theorem forwarded_request_clean_witness:
  "\<exists>ob k res. forward sample_proxy_cfg sample_registry sample_net sample_evil_request sample_claims (Fin 0) = (res, Some (ob, k))
    \<and> map_of (ob_headers ob) ''x-user-id'' = Some ''alice'' \<and> k \<le> 4"
proof -
  obtain res ob k where f: "forward sample_proxy_cfg sample_registry sample_net sample_evil_request sample_claims (Fin 0) = (res, Some (ob, k))"
    using sample_forward by blast
  have "nat (maxRetries sample_proxy_cfg) = 3" "userId sample_claims = ''alice''"
    by (simp_all add: sample_proxy_cfg_def sample_claims_def)
  with forwarded_request_clean [OF f] f show ?thesis by auto
qed

text \<open>
  The registry does not bound where requests go: for a registered service \<open>svc\<close>, the path
  \<open>/svc//host/...\<close> passes the registry check, but what is left after the prefix starts with two slashes, and a URL
  parser that resolves such a reference to its own authority (as the URL standard says) sends the
  request to \<open>host\<close>, if only the guard does not block its address.
\<close>

lemma double_slash_leaves_registry:
  assumes "raw_url req = ''/'' @ svc @ ''//'' @ host @ ''/'' @ rest"
    and "svc \<noteq> []" and "CHR ''/'' \<notin> set svc" and "CHR ''?'' \<notin> set (svc @ host @ rest)"
    and "map_of reg svc = Some base" and "base \<noteq> []"
    and "ne_parse ne (raw_url req) = Some (raw_url req, [])"
    and "\<forall>b. ne_resolve ne (''//'' @ host @ ''/'' @ rest) b = Some (host, ''http://'' @ host @ ''/'' @ rest)"
    and "assertSafe (ne_lookup ne) host = GuardOk" and "ne_agent_ok ne" and "\<not> ne_breaker_refuses ne svc"
  shows "\<exists>res ob k. forward cfg reg ne req cl score = (res, Some (ob, k)) \<and> ob_host ob = host"
  using assms by (rule double_slash_core)

text \<open>
  The guard blocks exactly the loopback network and the two listed addresses: a host is refused if and only if it
  resolves to \<open>::1\<close>, to \<open>169.254.169.254\<close>, or to a dotted address whose first octet is 127; every other
  address passes, the IPv4-mapped loopback \<open>::ffff:127.0.0.1\<close> included.
\<close>

lemma dns_guard_exact:
  "assertSafe lookup hostname = GuardBlocked \<longleftrightarrow>
     (\<exists>a. lookup hostname = Some a \<and>
        (a = ''::1'' \<or> a = ''169.254.169.254'' \<or> isIPv4 a \<and> parse_dec (hd (split_on CHR ''.'' a)) = 127))"
  using loopback_cidr by (auto simp: assertSafe_def simp del: hd_split_on split: option.splits)

end
