(* ===== verification/Bopla.thy ===== *)
theory Bopla
  imports Http
begin

text \<open>
  Response stripping: \<open>src/src/proxy/bopla.interceptor.ts\<close> over the field policy of
  \<open>interfaces/field-policy.interface.ts\<close>, a list of route patterns in file order with the allowed fields of each role.
  The glob matcher \<open>micromatch.isMatch\<close> is the parameter \<open>isMatch path pattern\<close>. A role name that is
  not a key of the policy entry but a property every object inherits is found by \<open>roleMap[role]\<close> all
  the same; its value is not iterable and the walk throws, which is \<open>Inl\<close> here. Field names of the policy are taken to be ordinary
  names, so \<open>field in data\<close> asks for an own property.
\<close>

type_synonym FieldPolicy = "(string \<times> (string \<times> string list) list) list"

definition object_prototype_keys :: "string list" where
  "object_prototype_keys = [''constructor'', ''__defineGetter__'', ''__defineSetter__'', ''hasOwnProperty'',
     ''__lookupGetter__'', ''__lookupSetter__'', ''isPrototypeOf'', ''propertyIsEnumerable'', ''toString'',
     ''valueOf'', ''__proto__'', ''toLocaleString'']"

datatype allowed = NoEntry | Fields "string list" | NotIterable

fun role_fields :: "(string \<times> string list) list \<Rightarrow> string list \<Rightarrow> allowed" where
  "role_fields roleMap [] = NoEntry"
| "role_fields roleMap (r # rs) =
     (case map_of roleMap r of
        Some fs \<Rightarrow> Fields fs
      | None \<Rightarrow> if r \<in> set object_prototype_keys then NotIterable else role_fields roleMap rs)"

fun findAllowedFields ::
    "(string \<Rightarrow> string \<Rightarrow> bool) \<Rightarrow> FieldPolicy \<Rightarrow> string \<Rightarrow> string list \<Rightarrow> allowed" where
  "findAllowedFields isMatch [] path rs = NoEntry"
| "findAllowedFields isMatch ((pattern, roleMap) # pol) path rs =
     (if isMatch path pattern then role_fields roleMap rs else findAllowedFields isMatch pol path rs)"

text \<open>The loop over the allowed fields that fills \<open>out\<close>; assignment to an existing key overwrites in place.\<close>

definition pick :: "string list \<Rightarrow> (string \<times> json) list \<Rightarrow> (string \<times> json) list" where
  "pick al fs = fold (\<lambda>f out. case map_of fs f of None \<Rightarrow> out | Some v \<Rightarrow> AList.update f v out) al []"

fun applyAllowList :: "string list \<Rightarrow> json \<Rightarrow> json" where
  "applyAllowList al (JArr xs) = JArr (map (applyAllowList al) xs)"
| "applyAllowList al (JObj fs) = JObj (pick al (map (\<lambda>(k, v). (k, applyAllowList al v)) fs))"
| "applyAllowList al JUndef = JUndef"
| "applyAllowList al JNull = JNull"
| "applyAllowList al (JBool b) = JBool b"
| "applyAllowList al (JNum n) = JNum n"
| "applyAllowList al (JStr s) = JStr s"
| "applyAllowList al JOpaque = JOpaque"

text \<open>
  \<open>strip\<close>. The type error of a list that is not iterable is thrown only when the walk reaches a plain object.
\<close>

fun reaches_object :: "json \<Rightarrow> bool" where
  "reaches_object (JArr xs) = (\<exists>x \<in> set xs. reaches_object x)"
| "reaches_object (JObj fs) = True"
| "reaches_object _ = False"

definition strip :: "(string \<Rightarrow> string \<Rightarrow> bool) \<Rightarrow> FieldPolicy \<Rightarrow> json \<Rightarrow> string \<Rightarrow> string list \<Rightarrow> string + json" where
  "strip isMatch pol data path rs =
     (if ''admin'' \<in> set rs then Inr data
      else case findAllowedFields isMatch pol path rs of
             NoEntry \<Rightarrow> Inr (JObj [])
           | NotIterable \<Rightarrow> if reaches_object data then Inl ''allowed is not iterable'' else Inr data
           | Fields fs \<Rightarrow> if fs \<noteq> [] \<and> hd fs = ''*'' then Inr data else Inr (applyAllowList fs data))"

text \<open>The top-level keys the stage reports as removed.\<close>

fun diffTopLevelKeys :: "json \<Rightarrow> json \<Rightarrow> string list" where
  "diffTopLevelKeys (JObj b) (JObj a) = filter (\<lambda>k. k \<notin> fst ` set a) (map fst b)"
| "diffTopLevelKeys _ _ = []"

section \<open>Paths into a value\<close>

datatype step = Key string | Idx nat

fun json_at :: "json \<Rightarrow> step list \<Rightarrow> json option" where
  "json_at v [] = Some v"
| "json_at (JObj fs) (Key k # p) = (case map_of fs k of None \<Rightarrow> None | Some v \<Rightarrow> json_at v p)"
| "json_at (JArr xs) (Idx i # p) = (if i < length xs then json_at (xs ! i) p else None)"
| "json_at _ _ = None"

fun step_allowed :: "string list \<Rightarrow> step \<Rightarrow> bool" where
  "step_allowed al (Key k) = (k \<in> set al)"
| "step_allowed al (Idx i) = True"

lemma map_of_pick_fold:
  "map_of (fold (\<lambda>f out. case map_of fs f of None \<Rightarrow> out | Some v \<Rightarrow> AList.update f v out) al acc) k =
     (if k \<in> set al \<and> map_of fs k \<noteq> None then map_of fs k else map_of acc k)"
  by (induction al arbitrary: acc) (auto split: option.splits)

lemma map_of_pick [simp]: "map_of (pick al fs) k = (if k \<in> set al then map_of fs k else None)"
  by (auto simp: pick_def map_of_pick_fold)

lemma map_of_apply [simp]:
  "map_of (map (\<lambda>(k, v). (k, applyAllowList al v)) fs) k = map_option (applyAllowList al) (map_of fs k)"
  by (induction fs) auto

text \<open>The walk is the projection to the paths whose keys are all allowed.\<close>

lemma json_at_apply:
  "json_at (applyAllowList al v) p =
     (if list_all (step_allowed al) p then map_option (applyAllowList al) (json_at v p) else None)"
proof (induction v p rule: json_at.induct)
  case (1 v)
  show ?case by simp
next
  case (2 fs k p)
  then show ?case by (auto split: option.splits)
next
  case (3 xs i p)
  then show ?case by auto
qed auto

text \<open>
  What it means to project a value, said without the walk: the same paths exist as before, less those with a key that is not
  allowed; at each of them an object stays an object, an array keeps its length, and everything else is unchanged.
\<close>

fun same_node :: "json \<Rightarrow> json \<Rightarrow> bool" where
  "same_node (JObj fs) (JObj fs') = True"
| "same_node (JArr xs) (JArr ys) = (length xs = length ys)"
| "same_node v w = (v = w)"

definition projects :: "string list \<Rightarrow> json \<Rightarrow> json \<Rightarrow> bool" where
  "projects al data out \<longleftrightarrow>
     (\<forall>p. json_at out p \<noteq> None \<longleftrightarrow> json_at data p \<noteq> None \<and> list_all (step_allowed al) p)
   \<and> (\<forall>p v w. json_at data p = Some v \<longrightarrow> json_at out p = Some w \<longrightarrow> same_node v w)"

lemma same_node_apply: "same_node v (applyAllowList al v)"
  by (cases v) simp_all

lemma apply_projects: "projects al data (applyAllowList al data)"
  by (auto simp: projects_def json_at_apply same_node_apply split: if_splits)

lemma role_fields_ordinary:
  assumes "set rs \<inter> set object_prototype_keys = {}"
  shows "if \<forall>r \<in> set rs. map_of roleMap r = None then role_fields roleMap rs = NoEntry
    else \<exists>r \<in> set rs. \<exists>fs. map_of roleMap r = Some fs \<and> role_fields roleMap rs = Fields fs"
  using assms by (induction rs) (auto split: option.splits if_splits)

lemma findAllowedFields_first:
  assumes "\<forall>e \<in> set pre. \<not> isMatch path (fst e)" and "isMatch path pattern"
  shows "findAllowedFields isMatch (pre @ (pattern, roleMap) # post) path rs = role_fields roleMap rs"
  using assms by (induction pre) auto

lemma findAllowedFields_none:
  "\<forall>e \<in> set pol. \<not> isMatch path (fst e) \<Longrightarrow> findAllowedFields isMatch pol path rs = NoEntry"
  by (induction pol) auto

text \<open>
  Among several roles the order in the token decides, not the privilege: a caller who also holds a role
  with the pass-through token still gets only the fields of the role listed first.
\<close>

lemma first_role_wins:
  assumes "isMatch path pattern" and "map_of roleMap r = Some fs" and "''admin'' \<notin> set (r # rs)" and "fs = [] \<or> hd fs \<noteq> ''*''"
  shows "strip isMatch ((pattern, roleMap) # pol) data path (r # rs) = Inr (applyAllowList fs data)"
  using assms by (auto simp: strip_def)

section \<open>Properties\<close>

definition sample_field_policy :: FieldPolicy where
  "sample_field_policy = [(''/users/**'', [(''user'', [''id'', ''name'']), (''auditor'', [''*''])])]"

definition sample_match :: "string \<Rightarrow> string \<Rightarrow> bool" where
  "sample_match path pattern = (take 7 path = take 7 pattern)"

definition sample_body :: json where
  "sample_body = JObj [(''id'', JStr ''1''), (''password'', JStr ''x''), (''name'', JObj [(''ssn'', JStr ''9''), (''id'', JStr ''2'')])]"

text \<open>
  C33. What a caller gets of an upstream body. A caller with the admin role gets all of it. For any other caller, none of whose roles is called
  like a property every object inherits, stripping always succeeds: when no pattern matches the path, or the first that does knows none
  of the caller's roles, the answer is the empty object; when it knows exactly one of them, the answer is the whole body if that role's
  list starts with the pass-through token, and otherwise the projection of the body to the paths on which every object key is in
  that list, at every depth, with arrays of the same length and all other values unchanged. With several known
  roles the list that is used is that of one of them.
\<close>

theorem strip_projects:
  assumes "set rs \<inter> set object_prototype_keys = {}"
  shows "(''admin'' \<in> set rs \<longrightarrow> strip isMatch pol data path rs = Inr data)
    \<and> (''admin'' \<notin> set rs \<and> (\<forall>e \<in> set pol. \<not> isMatch path (fst e)) \<longrightarrow> strip isMatch pol data path rs = Inr (JObj []))
    \<and> (\<forall>pre pattern roleMap post. ''admin'' \<notin> set rs \<and> pol = pre @ (pattern, roleMap) # post
         \<and> (\<forall>e \<in> set pre. \<not> isMatch path (fst e)) \<and> isMatch path pattern \<longrightarrow>
        (if \<forall>r \<in> set rs. map_of roleMap r = None then strip isMatch pol data path rs = Inr (JObj [])
         else \<exists>r \<in> set rs. \<exists>fs out. map_of roleMap r = Some fs \<and> strip isMatch pol data path rs = Inr out
           \<and> (if fs \<noteq> [] \<and> hd fs = ''*'' then out = data else projects fs data out)))"
proof (intro conjI allI impI)
  show "strip isMatch pol data path rs = Inr data" if "''admin'' \<in> set rs" using that by (simp add: strip_def)
  show "strip isMatch pol data path rs = Inr (JObj [])" if "''admin'' \<notin> set rs \<and> (\<forall>e \<in> set pol. \<not> isMatch path (fst e))"
    using that by (simp add: strip_def findAllowedFields_none)
  fix pre pattern roleMap post
  assume "''admin'' \<notin> set rs \<and> pol = pre @ (pattern, roleMap) # post
    \<and> (\<forall>e \<in> set pre. \<not> isMatch path (fst e)) \<and> isMatch path pattern"
  then have st: "strip isMatch pol data path rs = (case role_fields roleMap rs of
       NoEntry \<Rightarrow> Inr (JObj [])
     | NotIterable \<Rightarrow> if reaches_object data then Inl ''allowed is not iterable'' else Inr data
     | Fields fs \<Rightarrow> if fs \<noteq> [] \<and> hd fs = ''*'' then Inr data else Inr (applyAllowList fs data))"
    by (simp add: strip_def findAllowedFields_first)
  show "if \<forall>r \<in> set rs. map_of roleMap r = None then strip isMatch pol data path rs = Inr (JObj [])
    else \<exists>r \<in> set rs. \<exists>fs out. map_of roleMap r = Some fs \<and> strip isMatch pol data path rs = Inr out
      \<and> (if fs \<noteq> [] \<and> hd fs = ''*'' then out = data else projects fs data out)"
  proof (cases "\<forall>r \<in> set rs. map_of roleMap r = None")
    case True
    then show ?thesis using role_fields_ordinary [OF assms, of roleMap] st by simp
  next
    case False
    then obtain r fs where "r \<in> set rs" "map_of roleMap r = Some fs" "role_fields roleMap rs = Fields fs"
      using role_fields_ordinary [OF assms, of roleMap] unfolding if_not_P [OF False] by blast
    then show ?thesis
      unfolding if_not_P [OF False] st using apply_projects [of fs data] by (intro bexI [of _ r] exI [of _ fs]) auto
  qed
qed

theorem strip_projects_witness:
  "(\<exists>out. strip sample_match sample_field_policy sample_body ''/users/7'' [''user'', ''guest''] = Inr out
      \<and> projects [''id'', ''name''] sample_body out)
   \<and> strip sample_match sample_field_policy sample_body ''/orders/1'' [''user''] = Inr (JObj [])"
proof
  let ?rm = "[(''user'', [''id'', ''name'']), (''auditor'', [''*''])]"
  have no: "set [''user'', ''guest''] \<inter> set object_prototype_keys = {}" "set [''user''] \<inter> set object_prototype_keys = {}"
    by (simp_all add: object_prototype_keys_def)
  have "sample_field_policy = [] @ (''/users/**'', ?rm) # []" "sample_match ''/users/7'' ''/users/**''"
    by (simp_all add: sample_field_policy_def sample_match_def)
  then show "\<exists>out. strip sample_match sample_field_policy sample_body ''/users/7'' [''user'', ''guest''] = Inr out
      \<and> projects [''id'', ''name''] sample_body out"
    using strip_projects [OF no(1), of sample_match sample_field_policy sample_body "''/users/7''", THEN conjunct2, THEN conjunct2,
        rule_format, of "[]" "''/users/**''" ?rm "[]"]
    by auto
  have "\<forall>e \<in> set sample_field_policy. \<not> sample_match ''/orders/1'' (fst e)"
    by (simp add: sample_field_policy_def sample_match_def)
  then show "strip sample_match sample_field_policy sample_body ''/orders/1'' [''user''] = Inr (JObj [])"
    using strip_projects [OF no(2), of sample_match sample_field_policy sample_body "''/orders/1''"] by simp
qed

end
