(* ===== verification/Totp.thy ===== *)
theory Totp
  imports Base64
begin

text \<open>
  One-time passwords and their storage: \<open>src/src/shared/totp.util.ts\<close> (base32, HOTP, TOTP) and
  \<open>src/src/shared/aes-gcm.util.ts\<close>. HMAC-SHA-1 is the parameter \<open>hmac\<close> (key, message), AES-256-GCM the
  record \<open>gcm\<close>, random bytes are arguments. Buffers are lists of bytes and the
  accumulators 32-bit words, as JavaScript's bitwise operators compute. Secrets are base32 text, so
  UTF-8 is one byte per character. \<open>Inl\<close> is a thrown error.
\<close>

unbundle bit_operations_syntax

section \<open>Base32\<close>

definition BASE32_CHARS :: string where
  "BASE32_CHARS = ''ABCDEFGHIJKLMNOPQRSTUVWXYZ234567''"

fun index_of :: "'a \<Rightarrow> 'a list \<Rightarrow> nat option" where
  "index_of c [] = None"
| "index_of c (x # xs) = (if x = c then Some 0 else map_option Suc (index_of c xs))"

fun decode_loop :: "string \<Rightarrow> 32 word \<Rightarrow> nat \<Rightarrow> byte list \<Rightarrow> string + byte list" where
  "decode_loop [] buf bits out = Inr out"
| "decode_loop (ch # s) buf bits out =
     (case index_of ch BASE32_CHARS of
        None \<Rightarrow> Inl (''Invalid base32 character: '' @ [ch])
      | Some idx \<Rightarrow>
          (let buf = push_bit 5 buf OR of_nat idx; bits = bits + 5
           in if 8 \<le> bits then decode_loop s buf (bits - 8) (out @ [ucast (drop_bit (bits - 8) buf AND 0xff)])
              else decode_loop s buf bits out))"

definition strip_padding :: "string \<Rightarrow> string" where
  "strip_padding s = rev (dropWhile (\<lambda>c. c = CHR ''='') (rev s))"

definition base32Decode :: "string \<Rightarrow> string + byte list" where
  "base32Decode input = decode_loop (strip_padding (to_upper input)) 0 0 []"

text \<open>The inner \<open>while (bits >= 5)\<close> and the loop over the bytes.\<close>

function encode_emit :: "32 word \<Rightarrow> nat \<Rightarrow> string \<Rightarrow> nat \<times> string" where
  "encode_emit buf bits out =
     (if 5 \<le> bits
      then encode_emit buf (bits - 5) (out @ [BASE32_CHARS ! unat (drop_bit (bits - 5) buf AND 0x1f)])
      else (bits, out))"
  by auto
termination by (relation "measure (\<lambda>(buf, bits, out). bits)") auto

declare encode_emit.simps [simp del]

fun encode_loop :: "byte list \<Rightarrow> 32 word \<Rightarrow> nat \<Rightarrow> string \<Rightarrow> string" where
  "encode_loop [] buf bits out =
     (if 0 < bits then out @ [BASE32_CHARS ! unat (push_bit (5 - bits) buf AND 0x1f)] else out)"
| "encode_loop (b # bs) buf bits out =
     (let buf = push_bit 8 buf OR ucast b
      in case encode_emit buf (bits + 8) out of (bits, out) \<Rightarrow> encode_loop bs buf bits out)"

definition base32Encode :: "byte list \<Rightarrow> string" where
  "base32Encode bytes = encode_loop bytes 0 0 []"

section \<open>HOTP and TOTP\<close>

function dec_string :: "nat \<Rightarrow> string" where
  "dec_string n = (if n < 10 then [char_of (48 + n)] else dec_string (n div 10) @ [char_of (48 + n mod 10)])"
  by auto
termination by (relation "measure id") auto

declare dec_string.simps [simp del]

definition pad_start :: "nat \<Rightarrow> char \<Rightarrow> string \<Rightarrow> string" where
  "pad_start n c s = replicate (n - length s) c @ s"

definition uint32_be :: "32 word \<Rightarrow> byte list" where
  "uint32_be w = [ucast (drop_bit 24 w), ucast (drop_bit 16 w), ucast (drop_bit 8 w), ucast w]"

definition read_uint32_be :: "byte list \<Rightarrow> nat \<Rightarrow> 32 word" where
  "read_uint32_be bs i = push_bit 24 (ucast (bs ! i)) OR push_bit 16 (ucast (bs ! (i + 1)))
     OR push_bit 8 (ucast (bs ! (i + 2))) OR ucast (bs ! (i + 3))"

text \<open>\<open>hotp\<close>; writing a high word outside the range of 32 bits throws a range error.\<close>

definition hotp :: "(byte list \<Rightarrow> byte list \<Rightarrow> byte list) \<Rightarrow> byte list \<Rightarrow> int \<Rightarrow> string + string" where
  "hotp hmac key counter =
     (let hi = counter div 2 ^ 32
      in if hi < 0 \<or> 2 ^ 32 \<le> hi then Inl ''ERR_OUT_OF_RANGE''
         else
           (let mac = hmac key (uint32_be (of_int hi) @ uint32_be (of_int counter));
                offset = unat (mac ! 19 AND 0x0f);
                code = unat (read_uint32_be mac offset AND 0x7fffffff) mod 1000000
            in Inr (pad_start 6 CHR ''0'' (dec_string code))))"

definition currentCounter :: "int \<Rightarrow> int" where
  "currentCounter now = now div 1000 div 30"

definition generateSecret :: "byte list \<Rightarrow> string" where
  "generateSecret rnd = base32Encode rnd"

definition totp_generate :: "(byte list \<Rightarrow> byte list \<Rightarrow> byte list) \<Rightarrow> int \<Rightarrow> string \<Rightarrow> string + string" where
  "totp_generate hmac now secret =
     (case base32Decode secret of Inl e \<Rightarrow> Inl e | Inr key \<Rightarrow> hotp hmac key (currentCounter now))"

fun verify_steps ::
    "(byte list \<Rightarrow> byte list \<Rightarrow> byte list) \<Rightarrow> byte list \<Rightarrow> int \<Rightarrow> string \<Rightarrow> int list \<Rightarrow> string + bool" where
  "verify_steps hmac key t tok [] = Inr False"
| "verify_steps hmac key t tok (d # ds) =
     (case hotp hmac key (t + d) of
        Inl e \<Rightarrow> Inl e
      | Inr c \<Rightarrow> if c = tok then Inr True else verify_steps hmac key t tok ds)"

definition totp_verify :: "(byte list \<Rightarrow> byte list \<Rightarrow> byte list) \<Rightarrow> int \<Rightarrow> string \<Rightarrow> string \<Rightarrow> string + bool" where
  "totp_verify hmac now tok secret =
     (case base32Decode secret of
        Inl e \<Rightarrow> Inl e
      | Inr key \<Rightarrow> verify_steps hmac key (currentCounter now) tok [-1, 0, 1])"

section \<open>AES-GCM\<close>

text \<open>
  The cipher: encryption gives ciphertext and tag, or \<^const>\<open>None\<close> when the key is unusable; decryption
  gives \<^const>\<open>None\<close> when the tag does not authenticate.
\<close>

record gcm =
  gc_encrypt :: "byte list \<Rightarrow> byte list \<Rightarrow> byte list \<Rightarrow> (byte list \<times> byte list) option"
  gc_decrypt :: "byte list \<Rightarrow> byte list \<Rightarrow> byte list \<Rightarrow> byte list \<Rightarrow> byte list option"

definition text_bytes :: "string \<Rightarrow> byte list" where
  "text_bytes s = map (\<lambda>c. of_nat (of_char c)) s"

definition bytes_text :: "byte list \<Rightarrow> string" where
  "bytes_text bs = map (\<lambda>b. char_of (unat b)) bs"

definition aesGcmEncrypt :: "gcm \<Rightarrow> byte list \<Rightarrow> string \<Rightarrow> string \<Rightarrow> string option" where
  "aesGcmEncrypt gc iv plaintext keyBase64 =
     map_option (\<lambda>(ct, tag). b64_encode (iv @ ct @ tag))
       (gc_encrypt gc (b64url_decode keyBase64) iv (text_bytes plaintext))"

definition aesGcmDecrypt :: "gcm \<Rightarrow> string \<Rightarrow> string \<Rightarrow> string option" where
  "aesGcmDecrypt gc ciphertextBase64 keyBase64 =
     (let key = b64url_decode keyBase64; buf = b64url_decode ciphertextBase64
      in if length buf < 12 + 16 then None
         else map_option bytes_text
           (gc_decrypt gc key (take 12 buf) (drop 12 (take (length buf - 16) buf)) (drop (length buf - 16) buf)))"

text \<open>What the gateway relies on: decryption undoes encryption, tags are 16 bytes long.\<close>

definition gcm_ok :: "gcm \<Rightarrow> bool" where
  "gcm_ok gc \<longleftrightarrow> (\<forall>key iv pt ct tag. gc_encrypt gc key iv pt = Some (ct, tag) \<longrightarrow>
     length tag = 16 \<and> gc_decrypt gc key iv ct tag = Some pt)"

section \<open>Bits of the accumulators\<close>

lemma bits_of_shift_or:
  fixes w v :: "'a::len word"
  assumes "m + k \<le> LENGTH('a)" and "\<forall>i \<ge> k. \<not> bit v i"
  shows "bits_of (m + k) (push_bit k w OR v) = bits_of m w @ bits_of k v"
proof (rule nth_equalityI)
  show "length (bits_of (m + k) (push_bit k w OR v)) = length (bits_of m w @ bits_of k v)" by simp
  fix i
  assume "i < length (bits_of (m + k) (push_bit k w OR v))"
  then have i: "i < m + k" by simp
  let ?j = "m + k - Suc i"
  have l: "bits_of (m + k) (push_bit k w OR v) ! i = bit (push_bit k w OR v) ?j"
    using i by (simp add: bits_of_def rev_nth)
  show "bits_of (m + k) (push_bit k w OR v) ! i = (bits_of m w @ bits_of k v) ! i"
  proof (cases "i < m")
    case True
    then have "bit (push_bit k w OR v) ?j = bit w (m - Suc i)"
      using assms by (auto simp: bit_or_iff bit_push_bit_iff)
    with True l show ?thesis by (simp add: nth_append bits_of_def rev_nth)
  next
    case False
    then have "bit (push_bit k w OR v) ?j = bit v ?j"
      using i by (auto simp: bit_or_iff bit_push_bit_iff)
    with False l i show ?thesis by (simp add: nth_append bits_of_def rev_nth add.commute)
  qed
qed

lemma bits_of_take:
  fixes w :: "'a::len word"
  assumes "k \<le> n" and "n \<le> LENGTH('a)"
  shows "take k (bits_of n w) = bits_of k (drop_bit (n - k) w)"
proof (rule nth_equalityI)
  fix i
  assume "i < length (take k (bits_of n w))"
  then have i: "i < k" using assms by simp
  have "n - Suc i = (n - k) + (k - Suc i)" using i assms by simp
  then show "take k (bits_of n w) ! i = bits_of k (drop_bit (n - k) w) ! i"
    using i assms by (simp add: bits_of_def rev_nth bit_drop_bit_eq)
qed (use assms in simp)

lemma bits_of_drop:
  assumes "k \<le> n"
  shows "drop k (bits_of n w) = bits_of (n - k) w"
  using assms by (auto simp: bits_of_def rev_nth intro!: nth_equalityI)

lemma bits_of_mask:
  fixes w :: "'a::len word"
  shows "bits_of k (w AND mask k) = bits_of k w"
proof -
  have "map (bit (w AND mask k)) [0..<k] = map (bit w) [0..<k]"
    by (auto simp: bit_and_iff bit_mask_iff dest: bit_imp_le_length)
  then show ?thesis by (simp add: bits_of_def del: map_eq_conv)
qed

lemma bits_of_ucast:
  fixes w :: "'a::len word"
  assumes "k \<le> LENGTH('b)"
  shows "bits_of k (ucast w :: 'b::len word) = bits_of k w"
proof -
  have "map (bit (ucast w :: 'b word)) [0..<k] = map (bit w) [0..<k]"
    using assms by (auto simp: bit_ucast_iff)
  then show ?thesis by (simp add: bits_of_def del: map_eq_conv)
qed

lemma bits_of_eq_byte:
  fixes v :: byte
  assumes "bits_of 8 v = bs"
  shows "v = of_bits bs"
  using assms by auto

section \<open>Base32 round trip\<close>

definition char_bits :: "char \<Rightarrow> bool list" where
  "char_bits c = bits_of 5 (of_nat (the (index_of c BASE32_CHARS)) :: 32 word)"

lemma index_of_nth: "distinct xs \<Longrightarrow> i < length xs \<Longrightarrow> index_of (xs ! i) xs = Some i"
proof (induction xs arbitrary: i)
  case (Cons x xs)
  then show ?case by (cases i) auto
qed simp

lemma index_of_Some: "index_of c xs = Some i \<Longrightarrow> i < length xs \<and> xs ! i = c"
  by (induction xs arbitrary: i) (auto split: if_splits)

lemma index_of_mem: "c \<in> set xs \<longleftrightarrow> (\<exists>i. index_of c xs = Some i)"
  by (induction xs) auto

lemma length_base32 [simp]: "length BASE32_CHARS = 32"
  by (simp add: BASE32_CHARS_def)

lemma distinct_base32: "distinct BASE32_CHARS"
  by (simp add: BASE32_CHARS_def)

lemma index_of_base32: "i < 32 \<Longrightarrow> index_of (BASE32_CHARS ! i) BASE32_CHARS = Some i"
  by (rule index_of_nth [OF distinct_base32]) simp

lemma and_1f_less: "unat (w AND 0x1f :: 32 word) < 32"
proof -
  have "w AND 0x1f = take_bit 5 w" by (simp add: take_bit_eq_mask mask_eq_exp_minus_1)
  then have "unat (w AND 0x1f) = take_bit 5 (unat w)" by (simp only: unsigned_take_bit_eq)
  also have "\<dots> < 2 ^ 5" by (rule take_bit_nat_less_exp)
  finally show ?thesis by simp
qed

lemma char_bits_of:
  "char_bits (BASE32_CHARS ! unat (w AND 0x1f :: 32 word)) = bits_of 5 w"
proof -
  have "(0x1f :: 32 word) = mask 5" by (simp add: mask_eq_exp_minus_1)
  then have "bits_of 5 (w AND 0x1f) = bits_of 5 w" by (simp only: bits_of_mask)
  then show ?thesis by (simp add: char_bits_def index_of_base32 [OF and_1f_less])
qed

lemma small_bits:
  assumes "i < 2 ^ k"
  shows "\<forall>j \<ge> k. \<not> bit (of_nat i :: 32 word) j"
proof -
  have "\<not> bit i j" if "k \<le> j" for j
    using assms that by (metis bit_take_bit_iff linorder_not_less take_bit_nat_eq_self)
  then show ?thesis by (simp add: bit_of_nat_iff)
qed

lemma ucast_byte_bits: "\<forall>j \<ge> 8. \<not> bit (ucast (b :: byte) :: 32 word) j"
  by (auto simp: bit_ucast_iff dest: bit_imp_le_length)

lemma encode_emit_bits:
  assumes "n \<le> 32" and "encode_emit buf n out = (n', out')" and "set out \<subseteq> set BASE32_CHARS"
  shows "concat (map char_bits out') @ bits_of n' buf = concat (map char_bits out) @ bits_of n buf
    \<and> n' < 5 \<and> set out' \<subseteq> set BASE32_CHARS"
  using assms
proof (induction buf n out rule: encode_emit.induct)
  case (1 buf n out)
  show ?case
  proof (cases "5 \<le> n")
    case True
    let ?c = "BASE32_CHARS ! unat (drop_bit (n - 5) buf AND 0x1f)"
    have "?c \<in> set BASE32_CHARS" using and_1f_less by simp
    then have ih: "concat (map char_bits out') @ bits_of n' buf = concat (map char_bits (out @ [?c])) @ bits_of (n - 5) buf
        \<and> n' < 5 \<and> set out' \<subseteq> set BASE32_CHARS"
      using 1 True by (simp add: encode_emit.simps [of buf n out])
    have "char_bits ?c @ bits_of (n - 5) buf = take 5 (bits_of n buf) @ drop 5 (bits_of n buf)"
      using True 1(2) by (simp only: char_bits_of) (simp add: bits_of_take bits_of_drop)
    with ih show ?thesis by simp
  next
    case False
    then show ?thesis using 1 by (simp add: encode_emit.simps [of buf n out])
  qed
qed

lemma encode_loop_bits:
  assumes "n < 5" and "set out \<subseteq> set BASE32_CHARS"
  shows "(\<exists>k < 5. concat (map char_bits (encode_loop bs buf n out)) =
      concat (map char_bits out) @ bits_of n buf @ byte_bits bs @ replicate k False)
    \<and> set (encode_loop bs buf n out) \<subseteq> set BASE32_CHARS"
  using assms
proof (induction bs arbitrary: buf n out)
  case Nil
  show ?case
  proof (cases "n = 0")
    case True
    then show ?thesis using Nil by (auto simp: byte_bits_def bits_of_def)
  next
    case False
    let ?c = "BASE32_CHARS ! unat (push_bit (5 - n) buf AND 0x1f)"
    have "char_bits ?c = bits_of (n + (5 - n)) (push_bit (5 - n) buf OR 0)"
      using Nil by (simp add: char_bits_of)
    also have "\<dots> = bits_of n buf @ bits_of (5 - n) (0 :: 32 word)"
      using Nil by (intro bits_of_shift_or) auto
    also have "\<dots> = bits_of n buf @ replicate (5 - n) False" by simp
    finally have c: "char_bits ?c = bits_of n buf @ replicate (5 - n) False" .
    have "?c \<in> set BASE32_CHARS" using and_1f_less by simp
    with c False Nil show ?thesis
      by (simp add: byte_bits_def)
  qed
next
  case (Cons b bs)
  let ?buf = "push_bit 8 buf OR ucast b"
  obtain n' out' where e: "encode_emit ?buf (n + 8) out = (n', out')" by fastforce
  have em: "concat (map char_bits out') @ bits_of n' ?buf = concat (map char_bits out) @ bits_of (n + 8) ?buf"
    "n' < 5" "set out' \<subseteq> set BASE32_CHARS"
    using encode_emit_bits [OF _ e] Cons.prems by auto
  have "bits_of (n + 8) ?buf = bits_of n buf @ bits_of 8 (ucast b :: 32 word)"
    using Cons.prems ucast_byte_bits by (intro bits_of_shift_or) auto
  then have sb: "bits_of (n + 8) ?buf = bits_of n buf @ bits_of 8 b" by (simp add: bits_of_ucast)
  obtain k where k: "k < 5" "concat (map char_bits (encode_loop bs ?buf n' out')) =
      concat (map char_bits out') @ bits_of n' ?buf @ byte_bits bs @ replicate k False"
    "set (encode_loop bs ?buf n' out') \<subseteq> set BASE32_CHARS"
    using Cons.IH [OF em(2,3)] by blast
  have "concat (map char_bits (encode_loop bs ?buf n' out')) =
      concat (map char_bits out) @ bits_of n buf @ byte_bits (b # bs) @ replicate k False"
    using k(2) em(1) sb by (simp add: byte_bits_def flip: append_assoc)
  with k e show ?case by auto
qed

lemma decode_loop_bits:
  assumes "n < 8" and "set s \<subseteq> set BASE32_CHARS"
  shows "decode_loop s buf n out = Inr (out @ map of_bits (eights (bits_of n buf @ concat (map char_bits s))))"
  using assms
proof (induction s arbitrary: buf n out)
  case Nil
  then show ?case by (simp add: eights.simps)
next
  case (Cons c s)
  obtain i where i: "index_of c BASE32_CHARS = Some i" using Cons.prems index_of_mem [of c BASE32_CHARS] by auto
  then have "i < 32" using index_of_Some by fastforce
  let ?buf = "push_bit 5 buf OR of_nat i :: 32 word"
  have "bits_of (n + 5) ?buf = bits_of n buf @ bits_of 5 (of_nat i :: 32 word)"
    using Cons.prems \<open>i < 32\<close> by (intro bits_of_shift_or small_bits) auto
  then have sb: "bits_of (n + 5) ?buf = bits_of n buf @ char_bits c" by (simp add: char_bits_def i)
  show ?case
  proof (cases "8 \<le> n + 5")
    case True
    let ?b = "ucast (drop_bit (n + 5 - 8) ?buf AND 0xff) :: byte"
    have m: "(0xff :: 32 word) = mask 8" by (simp add: mask_eq_exp_minus_1)
    have "bits_of 8 ?b = take 8 (bits_of (n + 5) ?buf)"
      using True Cons.prems by (simp only: m) (simp add: bits_of_ucast bits_of_mask bits_of_take)
    then have b: "?b = of_bits (take 8 (bits_of (n + 5) ?buf))" by (rule bits_of_eq_byte)
    have "decode_loop (c # s) buf n out = decode_loop s ?buf (n + 5 - 8) (out @ [?b])"
      using i True by (simp add: Let_def)
    also have "\<dots> = Inr ((out @ [?b]) @ map of_bits (eights (bits_of (n + 5 - 8) ?buf @ concat (map char_bits s))))"
      using Cons by simp
    also have "bits_of (n + 5 - 8) ?buf = drop 8 (bits_of (n + 5) ?buf)" using True by (simp add: bits_of_drop)
    also have "(out @ [?b]) @ map of_bits (eights (drop 8 (bits_of (n + 5) ?buf) @ concat (map char_bits s)))
        = out @ map of_bits (eights (bits_of (n + 5) ?buf @ concat (map char_bits s)))"
      using True b by (subst (2) eights.simps) simp
    finally show ?thesis by (simp add: sb)
  next
    case False
    then have "decode_loop (c # s) buf n out = decode_loop s ?buf (n + 5) out" using i by (simp add: Let_def)
    also have "\<dots> = Inr (out @ map of_bits (eights (bits_of (n + 5) ?buf @ concat (map char_bits s))))"
      using Cons False by simp
    finally show ?thesis by (simp add: sb)
  qed
qed

lemma base32_chars_plain: "c \<in> set BASE32_CHARS \<Longrightarrow> upper_char c = c \<and> c \<noteq> CHR ''=''"
proof -
  have "list_all (\<lambda>c. upper_char c = c \<and> c \<noteq> CHR ''='') BASE32_CHARS"
    by (simp add: BASE32_CHARS_def upper_char_def)
  then show "c \<in> set BASE32_CHARS \<Longrightarrow> ?thesis" by (simp add: list_all_iff)
qed

lemma base32_text_plain:
  assumes "set s \<subseteq> set BASE32_CHARS"
  shows "strip_padding (to_upper s) = s"
proof -
  have ok: "upper_char c = c" "c \<noteq> CHR ''=''" if "c \<in> set s" for c
    using assms base32_chars_plain that by blast+
  then have "to_upper s = s" by (simp add: to_upper_def map_idI)
  moreover have "dropWhile (\<lambda>c. c = CHR ''='') (rev s) = rev s"
    using ok(2) by (subst dropWhile_eq_self_iff) (metis hd_in_set set_rev)
  ultimately show ?thesis by (simp add: strip_padding_def)
qed

text \<open>
  The base32 codec of the one-time-password secrets is lossless: decoding what was encoded gives the same
  bytes for every byte string, whatever its length, although the accumulator is a 32-bit integer
  that is never cleared.
\<close>

lemma base32_roundtrip: "base32Decode (base32Encode bytes) = Inr bytes"
proof -
  obtain k where k: "k < 5" "concat (map char_bits (base32Encode bytes)) = byte_bits bytes @ replicate k False"
    "set (base32Encode bytes) \<subseteq> set BASE32_CHARS"
    using encode_loop_bits [of 0 "[]" bytes 0] by (auto simp: base32Encode_def bits_of_def)
  have "base32Decode (base32Encode bytes) = Inr (map of_bits (eights (byte_bits bytes @ replicate k False)))"
    using k by (simp add: base32Decode_def base32_text_plain decode_loop_bits bits_of_def)
  also have "eights (byte_bits bytes @ replicate k False) = map (bits_of 8) bytes"
    using k(1) by (intro eights_bytes) simp
  finally show ?thesis by (simp add: o_def)
qed

section \<open>Codes\<close>

lemma dec_string_digits: "list_all is_digit (dec_string n)"
proof (induction n rule: dec_string.induct)
  case (1 n)
  have "is_digit (char_of (48 + m))" if "m < 10" for m :: nat
    using that by (simp add: is_digit_def)
  with 1 show ?case by (subst dec_string.simps) auto
qed

lemma dec_string_length: "n < 10 ^ Suc k \<Longrightarrow> length (dec_string n) \<le> Suc k"
proof (induction k arbitrary: n)
  case 0
  then show ?case by (simp add: dec_string.simps)
next
  case (Suc k)
  then have "n div 10 < 10 ^ Suc k" by (simp add: less_mult_imp_div_less)
  with Suc.IH show ?case by (subst dec_string.simps) auto
qed

lemma hotp_total: "0 \<le> c \<Longrightarrow> c < 2 ^ 64 \<Longrightarrow> \<exists>code. hotp hmac key c = Inr code"
proof -
  assume "0 \<le> c" "c < 2 ^ 64"
  then have "0 \<le> c div 2 ^ 32" "c div 2 ^ 32 < 2 ^ 32" by simp_all
  then show ?thesis by (simp add: hotp_def Let_def)
qed

lemma hotp_six_digits:
  assumes "hotp hmac key c = Inr code"
  shows "length code = 6 \<and> list_all is_digit code"
proof -
  obtain n where n: "code = pad_start 6 CHR ''0'' (dec_string (n mod 1000000))"
    using assms by (auto simp: hotp_def Let_def split: if_splits)
  have "length (dec_string (n mod 1000000)) \<le> 6"
    using dec_string_length [of "n mod 1000000" 5] by simp
  moreover have "is_digit CHR ''0''" by (simp add: is_digit_def)
  ultimately show ?thesis using n dec_string_digits by (auto simp: pad_start_def list_all_iff)
qed

lemma verify_steps_total:
  assumes "\<forall>d \<in> set ds. \<exists>code. hotp hmac key (t + d) = Inr code"
  shows "verify_steps hmac key t tok ds = Inr (\<exists>d \<in> set ds. hotp hmac key (t + d) = Inr tok)"
  using assms by (induction ds) auto

text \<open>Clock values at which the three counters are in range.\<close>

definition clock_ok :: "int \<Rightarrow> bool" where
  "clock_ok now \<longleftrightarrow> 30000 \<le> now \<and> now < 2 ^ 64"

lemma currentCounter_div: "currentCounter now = now div 30000"
  by (simp add: currentCounter_def flip: zdiv_zmult2_eq)

lemma totp_verify_exact:
  assumes "base32Decode secret = Inr key" and "clock_ok now"
  shows "totp_verify hmac now tok secret =
    Inr (\<exists>d \<in> {-1, 0, 1}. hotp hmac key (currentCounter now + d) = Inr tok)"
proof -
  have "1 \<le> currentCounter now" "currentCounter now < 2 ^ 63"
    using assms(2) by (auto simp: clock_ok_def currentCounter_div div_less_iff_less_mult)
  then have "\<forall>d \<in> set [-1, 0, 1]. \<exists>code. hotp hmac key (currentCounter now + d) = Inr code"
    by (auto intro!: hotp_total)
  from verify_steps_total [OF this] show ?thesis
    using assms(1) by (simp add: totp_verify_def)
qed

lemma text_bytes_inverse [simp]: "bytes_text (text_bytes s) = s"
  by (simp add: bytes_text_def text_bytes_def o_def unat_of_nat)

lemma aes_roundtrip:
  assumes "gcm_ok gc" and "length iv = 12" and "aesGcmEncrypt gc iv pt k = Some c"
  shows "aesGcmDecrypt gc c k = Some pt"
proof -
  obtain ct tag where e: "gc_encrypt gc (b64url_decode k) iv (text_bytes pt) = Some (ct, tag)"
      and c: "c = b64_encode (iv @ ct @ tag)"
    using assms(3) by (auto simp: aesGcmEncrypt_def)
  have "length tag = 16" "gc_decrypt gc (b64url_decode k) iv ct tag = Some (text_bytes pt)"
    using assms(1) e by (auto simp: gcm_ok_def)
  then show ?thesis using c assms(2) by (simp add: aesGcmDecrypt_def)
qed

section \<open>Properties\<close>

text \<open>
  C34. A code is accepted at a given time exactly when it is the code the authenticator shows at some moment of the current
  half minute or of one of its two neighbours; every accepted code has six digits. Nothing else
  is accepted, and nothing records that a code was used.
\<close>

theorem totp_window:
  assumes "base32Decode secret = Inr key" and "clock_ok now"
  shows "totp_verify hmac now tok secret =
    Inr (\<exists>t. \<bar>t div 30000 - now div 30000\<bar> \<le> 1 \<and> totp_generate hmac t secret = Inr tok
          \<and> length tok = 6 \<and> list_all is_digit tok)"
proof -
  have "(\<exists>d \<in> {-1, 0, 1}. hotp hmac key (now div 30000 + d) = Inr tok) \<longleftrightarrow>
      (\<exists>t. \<bar>t div 30000 - now div 30000\<bar> \<le> 1 \<and> hotp hmac key (t div 30000) = Inr tok)" (is "?L \<longleftrightarrow> ?R")
  proof
    assume ?L
    then obtain d where d: "d \<in> {-1, 0, 1}" "hotp hmac key (now div 30000 + d) = Inr tok" by blast
    then show ?R by (intro exI [of _ "30000 * (now div 30000 + d)"]) auto
  next
    assume ?R
    then obtain t where t: "\<bar>t div 30000 - now div 30000\<bar> \<le> 1" "hotp hmac key (t div 30000) = Inr tok" by blast
    then show ?L by (intro bexI [of _ "t div 30000 - now div 30000"]) (auto simp: abs_le_iff)
  qed
  then show ?thesis
    using assms hotp_six_digits
    by (simp add: totp_verify_exact totp_generate_def currentCounter_div) blast
qed

theorem totp_window_witness:
  "totp_verify (\<lambda>k m. replicate 20 0) 60000 ''000000'' (base32Encode [1, 2, 3]) = Inr True"
proof -
  have r: "replicate 20 (0 :: byte) ! i = 0" if "i < 20" for i using that by simp
  have "read_uint32_be (replicate 20 0) 0 = 0" by (simp only: read_uint32_be_def r) simp
  moreover have "replicate 5 CHR ''0'' = ''00000''" by (simp add: numeral_eq_Suc)
  moreover have "char_of (48 :: nat) = CHR ''0''"
    using char_of_char [of "CHR ''0''", where 'a = nat] by simp
  then have "dec_string 0 = ''0''" by (subst dec_string.simps) simp
  ultimately have "hotp (\<lambda>k m. replicate 20 0) key 2 = Inr ''000000''" for key
    by (simp add: hotp_def pad_start_def r)
  then have "totp_generate (\<lambda>k m. replicate 20 0) 60000 (base32Encode [1, 2, 3]) = Inr ''000000''"
    by (simp add: totp_generate_def base32_roundtrip currentCounter_def)
  then have "\<exists>t. \<bar>t div 30000 - 60000 div 30000\<bar> \<le> (1 :: int)
      \<and> totp_generate (\<lambda>k m. replicate 20 0) t (base32Encode [1, 2, 3]) = Inr ''000000''
      \<and> length ''000000'' = 6 \<and> list_all is_digit ''000000''"
    by (intro exI [of _ 60000]) (simp add: is_digit_def)
  moreover have "clock_ok 60000" by (simp add: clock_ok_def)
  ultimately show ?thesis by (simp only: totp_window [OF base32_roundtrip])
qed

end
