(* ===== verification/Mfa.thy ===== *)
theory Mfa
  imports Totp Http Events Config Ttl_Store
begin

text \<open>
  Multi-factor authentication: \<open>src/src/mfa/enrollment.store.ts\<close>, \<open>repositories/*.ts\<close>, \<open>mfa-challenger.service.ts\<close>,
  \<open>mfa-enroller.service.ts\<close>, \<open>mfa-error-recorder.util.ts\<close> and \<open>mfa.controller.ts\<close>. The three tables are lists of rows (keyed
  columns are unique), the pending enrolments an insertion-ordered map. Digests, AES-GCM and the JWT library are
  the record \<open>mfa_lib\<close>; the record \<open>mfa_env\<close> holds what one call draws from its surroundings: the
  clock, which of its queries throw, the random identifiers in the order they are drawn and the random bytes. A call reads the clock once, and the
  database clock agrees with it.
\<close>

section \<open>Surroundings\<close>

record MfaTokenClaims =
  mt_sub :: string
  mt_jti :: string
  mt_deviceId :: string
  mt_fpHash :: string
  mt_typ :: string
  mt_iat :: int
  mt_exp :: int

record mfa_lib =
  ml_hmac :: "byte list \<Rightarrow> byte list \<Rightarrow> byte list"
  ml_sha256 :: "string \<Rightarrow> string"
  ml_gcm :: gcm
  ml_sign :: "string \<Rightarrow> MfaTokenClaims \<Rightarrow> string"
  ml_verify :: "string \<Rightarrow> ms \<Rightarrow> string \<Rightarrow> MfaTokenClaims option"

datatype mfa_query =
    InsertChallenge | GetChallenge | GetSecret | SaveSecret | DeleteSecret | InsertToken | RetryToken | GetToken

record mfa_env =
  en_now :: ms
  en_fault :: "mfa_query \<Rightarrow> bool"
  en_uuid :: "nat \<Rightarrow> string"
  en_secret :: "byte list"
  en_iv :: "byte list"

section \<open>Tables and stores\<close>

record Challenge =
  ch_id :: string
  ch_user :: string
  ch_created :: ms
  ch_expires :: ms

record MfaTokenRow =
  tk_jti :: string
  tk_userId :: string
  tk_fingerprintHash :: string
  tk_issuedAt :: ms
  tk_expiresAt :: ms
  tk_revokedAt :: "ms option"

record PendingEnrollment =
  pn_userId :: string
  pn_secret :: string
  pn_expiresAt :: ms
  pn_attempts :: nat

type_synonym pendings = "(string, PendingEnrollment) jsmap"

record Mfa =
  mf_challenges :: "Challenge list"
  mf_tokens :: "MfaTokenRow list"
  mf_secrets :: "(string, string) jsmap"
  mf_pending :: pendings

definition empty_mfa :: Mfa where
  "empty_mfa = \<lparr>mf_challenges = [], mf_tokens = [], mf_secrets = [], mf_pending = []\<rparr>"

text \<open>\<open>enrollment.store.ts\<close>\<close>

definition pending_set :: "MfaConfig \<Rightarrow> ms \<Rightarrow> string \<Rightarrow> string \<Rightarrow> string \<Rightarrow> pendings \<Rightarrow> pendings" where
  "pending_set cfg now i uid secret ps =
     AList.update i \<lparr>pn_userId = uid, pn_secret = secret, pn_expiresAt = now + enrollPendingTtlMs cfg, pn_attempts = 0\<rparr> ps"

definition incrementAttempts :: "string \<Rightarrow> pendings \<Rightarrow> nat \<times> pendings" where
  "incrementAttempts i ps =
     (case map_of ps i of
        None \<Rightarrow> (0, ps)
      | Some e \<Rightarrow> (let e' = e\<lparr>pn_attempts := pn_attempts e + 1\<rparr> in (pn_attempts e', AList.update i e' ps)))"

definition pending_get :: "ms \<Rightarrow> string \<Rightarrow> pendings \<Rightarrow> PendingEnrollment option \<times> pendings" where
  "pending_get now i ps =
     (case map_of ps i of
        None \<Rightarrow> (None, ps)
      | Some e \<Rightarrow> if pn_expiresAt e \<le> now then (None, AList.delete i ps) else (Some e, ps))"

definition pending_delete :: "string \<Rightarrow> pendings \<Rightarrow> pendings" where
  "pending_delete i ps = AList.delete i ps"

fun hasPendingForUser :: "ms \<Rightarrow> string \<Rightarrow> pendings \<Rightarrow> bool \<times> pendings" where
  "hasPendingForUser now uid [] = (False, [])"
| "hasPendingForUser now uid ((i, e) # ps) =
     (if pn_expiresAt e \<le> now then hasPendingForUser now uid ps
      else if pn_userId e = uid then (True, (i, e) # ps)
      else (case hasPendingForUser now uid ps of (b, ps') \<Rightarrow> (b, (i, e) # ps')))"

definition pending_size :: "ms \<Rightarrow> pendings \<Rightarrow> nat \<times> pendings" where
  "pending_size now ps = (let ps' = filter (\<lambda>(i, e). now < pn_expiresAt e) ps in (length ps', ps'))"

definition pending_clear :: "pendings \<Rightarrow> pendings" where
  "pending_clear ps = []"

interpretation pnd: ttl_store map_of pn_expiresAt Some None pending_get jsmap_wf "AList.update"
  by unfold_locales (auto simp: pending_get_def fun_eq_iff intro: inv_intros split: option.splits)

text \<open>\<open>mfa-challenge.repository.ts\<close>; \<^const>\<open>None\<close> is a query that throws.\<close>

definition insertChallenge :: "mfa_env \<Rightarrow> string \<Rightarrow> string \<Rightarrow> ms \<Rightarrow> Mfa \<Rightarrow> unit option \<times> Mfa" where
  "insertChallenge env i uid expiry st =
     (if en_fault env InsertChallenge \<or> i \<in> ch_id ` set (mf_challenges st) then (None, st)
      else (Some (), st\<lparr>mf_challenges := mf_challenges st @
              [\<lparr>ch_id = i, ch_user = uid, ch_created = en_now env, ch_expires = expiry\<rparr>]\<rparr>))"

definition getChallenge :: "mfa_env \<Rightarrow> string \<Rightarrow> Mfa \<Rightarrow> Challenge option option" where
  "getChallenge env i st =
     (if en_fault env GetChallenge then None else Some (find (\<lambda>c. ch_id c = i) (mf_challenges st)))"

definition recent :: "ms \<Rightarrow> int \<Rightarrow> string \<Rightarrow> Challenge list \<Rightarrow> nat" where
  "recent now window uid cs = length (filter (\<lambda>c. ch_user c = uid \<and> now - window < ch_created c) cs)"

definition insertChallengeIfUnderLimit ::
    "mfa_env \<Rightarrow> string \<Rightarrow> string \<Rightarrow> ms \<Rightarrow> int \<Rightarrow> int \<Rightarrow> Mfa \<Rightarrow> bool option \<times> Mfa" where
  "insertChallengeIfUnderLimit env i uid expiry window mx st =
     (if en_fault env InsertChallenge then (None, st)
      else if int (recent (en_now env) window uid (mf_challenges st)) < mx
        then (if i \<in> ch_id ` set (mf_challenges st) then (None, st)
              else (Some True, st\<lparr>mf_challenges := mf_challenges st @
                     [\<lparr>ch_id = i, ch_user = uid, ch_created = en_now env, ch_expires = expiry\<rparr>]\<rparr>))
      else (Some False, st))"

text \<open>\<open>mfa-token.repository.ts\<close>: one retry with a fresh identifier when the key exists already.\<close>

definition token_row :: "mfa_env \<Rightarrow> string \<Rightarrow> string \<Rightarrow> string \<Rightarrow> ms \<Rightarrow> MfaTokenRow" where
  "token_row env j uid fph expiry = \<lparr>tk_jti = j, tk_userId = uid, tk_fingerprintHash = fph,
     tk_issuedAt = en_now env, tk_expiresAt = expiry, tk_revokedAt = None\<rparr>"

definition insertMfaToken :: "mfa_env \<Rightarrow> string \<Rightarrow> string \<Rightarrow> string \<Rightarrow> ms \<Rightarrow> Mfa \<Rightarrow> unit option \<times> Mfa" where
  "insertMfaToken env j uid fph expiry st =
     (let tryInsert = (\<lambda>i. st\<lparr>mf_tokens := mf_tokens st @ [token_row env i uid fph expiry]\<rparr>);
          taken = (\<lambda>i. i \<in> tk_jti ` set (mf_tokens st))
      in if en_fault env InsertToken then (None, st)
         else if \<not> taken j then (Some (), tryInsert j)
         else if en_fault env RetryToken \<or> taken (en_uuid env 1) then (None, st)
         else (Some (), tryInsert (en_uuid env 1)))"

definition revokeMfaToken :: "ms \<Rightarrow> string \<Rightarrow> Mfa \<Rightarrow> Mfa" where
  "revokeMfaToken now j st =
     st\<lparr>mf_tokens := map (\<lambda>r. if tk_jti r = j then r\<lparr>tk_revokedAt := Some now\<rparr> else r) (mf_tokens st)\<rparr>"

text \<open>The row with the computed flags \<open>isRevoked\<close> and \<open>isExpired\<close>.\<close>

definition getMfaTokenWithStatus :: "mfa_env \<Rightarrow> string \<Rightarrow> Mfa \<Rightarrow> (MfaTokenRow \<times> bool \<times> bool) option option" where
  "getMfaTokenWithStatus env j st =
     (if en_fault env GetToken then None
      else Some (map_option (\<lambda>r. (r, tk_revokedAt r \<noteq> None, tk_expiresAt r \<le> en_now env))
             (find (\<lambda>r. tk_jti r = j) (mf_tokens st))))"

text \<open>\<open>user-secrets.repository.ts\<close>\<close>

definition getEncryptedSecret :: "mfa_env \<Rightarrow> string \<Rightarrow> Mfa \<Rightarrow> string option option" where
  "getEncryptedSecret env uid st = (if en_fault env GetSecret then None else Some (map_of (mf_secrets st) uid))"

definition save_secret :: "mfa_env \<Rightarrow> string \<Rightarrow> string \<Rightarrow> Mfa \<Rightarrow> unit option \<times> Mfa" where
  "save_secret env uid enc st =
     (if en_fault env SaveSecret then (None, st)
      else (Some (), st\<lparr>mf_secrets := AList.update uid enc (mf_secrets st)\<rparr>))"

definition deleteByUserId :: "mfa_env \<Rightarrow> string \<Rightarrow> Mfa \<Rightarrow> bool option \<times> Mfa" where
  "deleteByUserId env uid st =
     (if en_fault env DeleteSecret then (None, st)
      else (Some (map_of (mf_secrets st) uid \<noteq> None), st\<lparr>mf_secrets := AList.delete uid (mf_secrets st)\<rparr>))"

text \<open>\<open>mfa-error-recorder.util.ts\<close>: the event of a swallowed error.\<close>

definition infra_error :: "mfa_env \<Rightarrow> string \<Rightarrow> string \<Rightarrow> bus_event" where
  "infra_error env op uid =
     Signal MFA_INFRA_ERROR ((empty_payload (en_now env))\<lparr>pl_userId := Some uid, pl_op := Some op\<rparr>)"

section \<open>The challenger\<close>

datatype create_reason = Rate_limited | Create_internal
datatype MfaCreateResult = CreateOk string ms | CreateFail create_reason

datatype totp_reason = Expired_challenge | Invalid_code | Unknown_user | Verify_internal
datatype MfaVerifyResult = VerifyOk string ms | VerifyFail totp_reason

datatype validate_reason =
    Signature | Token_expired | Fingerprint_mismatch | Token_revoked | Unknown_jti | Wrong_type | Validate_internal
datatype MfaValidateResult = ValidateOk MfaTokenClaims | ValidateFail validate_reason

definition createChallenge ::
    "MfaConfig \<Rightarrow> mfa_env \<Rightarrow> string \<Rightarrow> string \<Rightarrow> string option \<Rightarrow> Mfa \<Rightarrow> MfaCreateResult \<times> Mfa \<times> bus_event list" where
  "createChallenge cfg env uid ip ja4h st =
     (let challengeId = en_uuid env 0; expiry = en_now env + challengeTtlMs cfg
      in case insertChallengeIfUnderLimit env challengeId uid expiry (mfa_rateLimitWindowMs cfg) (mfa_rateLimitMax cfg) st of
           (None, st') \<Rightarrow> (CreateFail Create_internal, st', [infra_error env ''createChallenge'' uid])
         | (Some False, st') \<Rightarrow>
             (CreateFail Rate_limited, st',
              [Signal MFA_RATE_LIMITED ((empty_payload (en_now env))\<lparr>pl_type := Some MFA_RATE_LIMITED,
                 pl_ip := Some ip, pl_userId := Some uid, pl_ja4h := ja4h\<rparr>)])
         | (Some True, st') \<Rightarrow> (CreateOk challengeId expiry, st', []))"

definition fingerprint_text :: "string \<Rightarrow> string \<Rightarrow> string \<Rightarrow> string" where
  "fingerprint_text uid did ip = uid @ ''|'' @ did @ ''|'' @ ip"

text \<open>Steps 4 to 6 of \<open>verifyTotp\<close>, also the whole body of \<open>mintDemoMfaToken\<close>: \<^const>\<open>None\<close> when the insert throws.\<close>

definition mint_token ::
    "mfa_lib \<Rightarrow> MfaConfig \<Rightarrow> mfa_env \<Rightarrow> string \<Rightarrow> string \<Rightarrow> string \<Rightarrow> Mfa \<Rightarrow> (string \<times> ms) option \<times> Mfa" where
  "mint_token lib cfg env uid did ip st =
     (let fpHash = ml_sha256 lib (fingerprint_text uid did ip);
          j = en_uuid env 0;
          expiresAtMs = en_now env + tokenTtlMs cfg;
          tok = ml_sign lib (mfa_jwtSecret cfg) \<lparr>mt_sub = uid, mt_jti = j, mt_deviceId = did, mt_fpHash = fpHash,
                  mt_typ = ''mfa'', mt_iat = en_now env div 1000, mt_exp = expiresAtMs div 1000\<rparr>
      in case insertMfaToken env j uid fpHash expiresAtMs st of
           (None, st') \<Rightarrow> (None, st')
         | (Some _, st') \<Rightarrow> (Some (tok, expiresAtMs), st'))"

definition mintDemoMfaToken ::
    "mfa_lib \<Rightarrow> MfaConfig \<Rightarrow> mfa_env \<Rightarrow> string \<Rightarrow> string \<Rightarrow> string \<Rightarrow> Mfa \<Rightarrow> (string \<times> ms) option \<times> Mfa" where
  "mintDemoMfaToken lib cfg env uid did ip st = mint_token lib cfg env uid did ip st"

definition mfa_failed ::
    "mfa_env \<Rightarrow> string \<Rightarrow> string \<Rightarrow> string \<Rightarrow> string option \<Rightarrow> string option \<Rightarrow> string \<Rightarrow> bus_event" where
  "mfa_failed env ip uid did ja4h j reason =
     Signal MFA_FAILED ((empty_payload (en_now env))\<lparr>pl_type := Some MFA_FAILED, pl_ip := Some ip, pl_userId := Some uid,
       pl_deviceId := Some did, pl_ja4h := ja4h, pl_jti := j, pl_reason := Some reason\<rparr>)"

definition verifyTotp ::
    "mfa_lib \<Rightarrow> MfaConfig \<Rightarrow> mfa_env \<Rightarrow> string \<Rightarrow> string \<Rightarrow> string \<Rightarrow> string \<Rightarrow> string \<Rightarrow> string option \<Rightarrow> Mfa \<Rightarrow>
      MfaVerifyResult \<times> Mfa \<times> bus_event list" where
  "verifyTotp lib cfg env challengeId totpCode uid ip did ja4h st =
     (let emitFail = mfa_failed env ip uid did ja4h None;
          internal = (\<lambda>st'. (VerifyFail Verify_internal, st', [infra_error env ''verifyTotp'' uid, emitFail ''internal'']))
      in case getChallenge env challengeId st of
           None \<Rightarrow> internal st
         | Some None \<Rightarrow> (VerifyFail Expired_challenge, st, [emitFail ''expired_challenge''])
         | Some (Some c) \<Rightarrow>
             if ch_expires c < en_now env then (VerifyFail Expired_challenge, st, [emitFail ''expired_challenge''])
             else (case getEncryptedSecret env uid st of
               None \<Rightarrow> internal st
             | Some found \<Rightarrow>
                 if nullish found [] = [] then (VerifyFail Unknown_user, st, [emitFail ''unknown_user''])
                 else
                   (let plainSecret = nullish (aesGcmDecrypt (ml_gcm lib) (nullish found []) (totpEncryptionKey cfg)) []
                    in if plainSecret = []
                       then (VerifyFail Unknown_user, st,
                             [Signal MFA_SECRET_DECRYPT_FAILED ((empty_payload (en_now env))\<lparr>pl_userId := Some uid\<rparr>),
                              emitFail ''unknown_user''])
                       else (case totp_verify (ml_hmac lib) (en_now env) totpCode plainSecret of
                         Inl e \<Rightarrow> internal st
                       | Inr False \<Rightarrow> (VerifyFail Invalid_code, st, [emitFail ''invalid_code''])
                       | Inr True \<Rightarrow>
                           (case mint_token lib cfg env uid did ip st of
                              (None, st') \<Rightarrow> internal st'
                            | (Some (tok, expiry), st') \<Rightarrow> (VerifyOk tok expiry, st', []))))))"

definition validateMfaToken ::
    "mfa_lib \<Rightarrow> MfaConfig \<Rightarrow> mfa_env \<Rightarrow> string \<Rightarrow> string \<Rightarrow> string \<Rightarrow> string \<Rightarrow> string option \<Rightarrow> Mfa \<Rightarrow>
      MfaValidateResult \<times> bus_event list" where
  "validateMfaToken lib cfg env tok uid did ip ja4h st =
     (let emitFail = (\<lambda>reason j. mfa_failed env ip uid did ja4h j reason)
      in case ml_verify lib (mfa_jwtSecret cfg) (en_now env) tok of
           None \<Rightarrow> (ValidateFail Signature, [emitFail ''signature'' None])
         | Some p \<Rightarrow>
             if mt_typ p \<noteq> ''mfa'' then (ValidateFail Wrong_type, [emitFail ''wrong_type'' (Some (mt_jti p))])
             else (case getMfaTokenWithStatus env (mt_jti p) st of
               None \<Rightarrow> (ValidateFail Validate_internal, [infra_error env ''validateMfaToken'' uid])
             | Some None \<Rightarrow> (ValidateFail Unknown_jti, [emitFail ''unknown_jti'' (Some (mt_jti p))])
             | Some (Some (row, isRevoked, isExpired)) \<Rightarrow>
                 if isRevoked then (ValidateFail Token_revoked, [emitFail ''revoked'' (Some (mt_jti p))])
                 else if isExpired then (ValidateFail Token_expired, [emitFail ''expired'' (Some (mt_jti p))])
                 else if ml_sha256 lib (fingerprint_text uid did ip) \<noteq> tk_fingerprintHash row
                   then (ValidateFail Fingerprint_mismatch, [emitFail ''fingerprint_mismatch'' (Some (mt_jti p))])
                 else (ValidateOk p, [])))"

section \<open>The enroller\<close>

datatype enroll_reason = Already_enrolled | Enroll_internal
datatype MfaEnrollResult = EnrollOk string string | EnrollFail enroll_reason

datatype confirm_reason = Expired_enrollment | Invalid_totp | User_mismatch | Confirm_internal
datatype MfaConfirmResult = ConfirmOk | ConfirmFail confirm_reason

datatype MfaDeleteEnrollmentResult = DeleteOk bool | DeleteFail

definition ENROLL_MAX_ATTEMPTS :: nat where
  "ENROLL_MAX_ATTEMPTS = 5"

text \<open>\<open>encodeURIComponent\<close> on code units below 256: unreserved characters stay, the others become their UTF-8 bytes.\<close>

definition hex_digit :: "nat \<Rightarrow> char" where
  "hex_digit n = ''0123456789ABCDEF'' ! n"

definition percent :: "nat \<Rightarrow> string" where
  "percent b = [CHR ''%'', hex_digit (b div 16), hex_digit (b mod 16)]"

definition encodeURIComponent :: "string \<Rightarrow> string" where
  "encodeURIComponent s = concat (map (\<lambda>c.
     let n = of_char c :: nat in
     if (48 \<le> n \<and> n \<le> 57) \<or> (65 \<le> n \<and> n \<le> 90) \<or> (97 \<le> n \<and> n \<le> 122) \<or> n \<in> {33, 39, 40, 41, 42, 45, 46, 95, 126}
     then [c] else if n < 128 then percent n else percent (192 + n div 64) @ percent (128 + n mod 64)) s)"

definition otpauth_uri :: "string \<Rightarrow> string \<Rightarrow> string \<Rightarrow> string" where
  "otpauth_uri issuer label secret =
     ''otpauth://totp/'' @ encodeURIComponent issuer @ '':'' @ encodeURIComponent label @
     ''?secret='' @ secret @ ''&issuer='' @ encodeURIComponent issuer @ ''&algorithm=SHA1&digits=6&period=30''"

definition createEnrollment ::
    "MfaConfig \<Rightarrow> mfa_env \<Rightarrow> string \<Rightarrow> string option \<Rightarrow> Mfa \<Rightarrow> MfaEnrollResult \<times> Mfa \<times> bus_event list" where
  "createEnrollment cfg env uid userEmail st =
     (case hasPendingForUser (en_now env) uid (mf_pending st) of
        (pending, ps) \<Rightarrow>
          (let st = st\<lparr>mf_pending := ps\<rparr>
           in if pending then (EnrollFail Already_enrolled, st, [])
              else (case getEncryptedSecret env uid st of
                None \<Rightarrow> (EnrollFail Enroll_internal, st, [infra_error env ''createEnrollment'' uid])
              | Some existing \<Rightarrow>
                  if nullish existing [] \<noteq> [] then (EnrollFail Already_enrolled, st, [])
                  else
                    (let secret = generateSecret (en_secret env);
                         uri = otpauth_uri (issuerName cfg) (nullish userEmail uid) secret;
                         enrollmentId = en_uuid env 0
                     in (EnrollOk enrollmentId uri,
                         st\<lparr>mf_pending := pending_set cfg (en_now env) enrollmentId uid secret (mf_pending st)\<rparr>, [])))))"

definition enroll_signal ::
    "mfa_env \<Rightarrow> signal_name \<Rightarrow> string \<Rightarrow> string option \<Rightarrow> string option \<Rightarrow> string \<Rightarrow> bus_event" where
  "enroll_signal env sig uid ip ja4h reason =
     Signal sig ((empty_payload (en_now env))\<lparr>pl_type := Some sig, pl_userId := Some uid, pl_ip := ip, pl_ja4h := ja4h,
       pl_reason := Some reason\<rparr>)"

text \<open>The branch of a wrong code: count the attempt, drop the entry when the limit is reached.\<close>

definition reject_code ::
    "mfa_env \<Rightarrow> string \<Rightarrow> string \<Rightarrow> string option \<Rightarrow> string option \<Rightarrow> Mfa \<Rightarrow> MfaConfirmResult \<times> Mfa \<times> bus_event list" where
  "reject_code env enrollmentId uid ip ja4h st =
     (case incrementAttempts enrollmentId (mf_pending st) of
        (attempts, ps) \<Rightarrow>
          (let failed = enroll_signal env MFA_FAILED uid ip ja4h ''invalid_totp_enrollment''
           in if ENROLL_MAX_ATTEMPTS \<le> attempts
              then (ConfirmFail Invalid_totp, st\<lparr>mf_pending := pending_delete enrollmentId ps\<rparr>,
                    [failed, enroll_signal env MFA_RATE_LIMITED uid ip ja4h ''enrollment_attempts_exhausted''])
              else (ConfirmFail Invalid_totp, st\<lparr>mf_pending := ps\<rparr>, [failed])))"

definition confirmEnrollment ::
    "mfa_lib \<Rightarrow> MfaConfig \<Rightarrow> mfa_env \<Rightarrow> string \<Rightarrow> string \<Rightarrow> string \<Rightarrow> string option \<Rightarrow> string option \<Rightarrow> Mfa \<Rightarrow>
      MfaConfirmResult \<times> Mfa \<times> bus_event list" where
  "confirmEnrollment lib cfg env enrollmentId totpCode uid ip ja4h st =
     (case pending_get (en_now env) enrollmentId (mf_pending st) of
        (found, ps) \<Rightarrow>
          (let st = st\<lparr>mf_pending := ps\<rparr>;
               internal = (ConfirmFail Confirm_internal, st, [infra_error env ''confirmEnrollment'' uid])
           in case found of
                None \<Rightarrow> (ConfirmFail Expired_enrollment, st, [])
              | Some pending \<Rightarrow>
                  if pn_userId pending \<noteq> uid then (ConfirmFail User_mismatch, st, [])
                  else (case totp_verify (ml_hmac lib) (en_now env) totpCode (pn_secret pending) of
                    Inl e \<Rightarrow> internal
                  | Inr False \<Rightarrow> reject_code env enrollmentId uid ip ja4h st
                  | Inr True \<Rightarrow>
                      (case aesGcmEncrypt (ml_gcm lib) (en_iv env) (pn_secret pending) (totpEncryptionKey cfg) of
                         None \<Rightarrow> internal
                       | Some encrypted \<Rightarrow>
                           (case save_secret env uid encrypted st of
                              (None, st') \<Rightarrow> internal
                            | (Some _, st') \<Rightarrow>
                                (ConfirmOk, st'\<lparr>mf_pending := pending_delete enrollmentId (mf_pending st')\<rparr>,
                                 [Signal MFA_ENROLLMENT_CONFIRMED ((empty_payload (en_now env))\<lparr>
                                    pl_type := Some MFA_ENROLLMENT_CONFIRMED, pl_userId := Some uid\<rparr>)]))))))"

definition deleteEnrollment ::
    "mfa_env \<Rightarrow> string \<Rightarrow> Mfa \<Rightarrow> MfaDeleteEnrollmentResult \<times> Mfa \<times> bus_event list" where
  "deleteEnrollment env uid st =
     (case deleteByUserId env uid st of
        (None, st') \<Rightarrow> (DeleteFail, st', [infra_error env ''deleteEnrollment'' uid])
      | (Some deleted, st') \<Rightarrow>
          (DeleteOk deleted, st',
           [Signal MFA_ENROLLMENT_RESET ((empty_payload (en_now env))\<lparr>pl_type := Some MFA_ENROLLMENT_RESET,
              pl_userId := Some uid, pl_deleted := Some deleted\<rparr>)]))"

section \<open>The controller\<close>

text \<open>Each handler runs after the guard attached the user \<open>u\<close>; the result is the response it writes.\<close>

fun totp_reason_text :: "totp_reason \<Rightarrow> string" where
  "totp_reason_text Expired_challenge = ''expired_challenge''"
| "totp_reason_text Invalid_code = ''invalid_code''"
| "totp_reason_text Unknown_user = ''unknown_user''"
| "totp_reason_text Verify_internal = ''internal''"

fun confirm_reason_text :: "confirm_reason \<Rightarrow> string" where
  "confirm_reason_text Expired_enrollment = ''expired_enrollment''"
| "confirm_reason_text Invalid_totp = ''invalid_totp''"
| "confirm_reason_text User_mismatch = ''user_mismatch''"
| "confirm_reason_text Confirm_internal = ''internal''"

definition initiate ::
    "MfaConfig \<Rightarrow> mfa_env \<Rightarrow> Request \<Rightarrow> UserClaims \<Rightarrow> Mfa \<Rightarrow> HttpResponse \<times> Mfa \<times> bus_event list" where
  "initiate cfg env req u st =
     (case createChallenge cfg env (userId u) (extractIp req) (extractJa4h req) st of
        (CreateFail Rate_limited, st', es) \<Rightarrow>
          ((json_response 429 [(''error'', JStr ''mfa_rate_limited'')])
             \<lparr>resp_headers := [(''Retry-After'', dec_string (nat \<lceil>real_of_int (mfa_rateLimitWindowMs cfg) / 1000\<rceil>))]\<rparr>, st', es)
      | (CreateFail Create_internal, st', es) \<Rightarrow> (json_response 500 [(''error'', JStr ''mfa_internal'')], st', es)
      | (CreateOk cid expiry, st', es) \<Rightarrow>
          (json_response 201 [(''challengeId'', JStr cid), (''expiresAt'', jint expiry)], st', es))"

definition verify_endpoint ::
    "mfa_lib \<Rightarrow> MfaConfig \<Rightarrow> mfa_env \<Rightarrow> Request \<Rightarrow> UserClaims \<Rightarrow> string \<Rightarrow> string \<Rightarrow> Mfa \<Rightarrow>
      HttpResponse \<times> Mfa \<times> bus_event list" where
  "verify_endpoint lib cfg env req u challengeId totpCode st =
     (case verifyTotp lib cfg env challengeId totpCode (userId u) (extractIp req) (nullish (extractDeviceId req) [])
             (extractJa4h req) st of
        (VerifyFail r, st', es) \<Rightarrow>
          (json_response 401 [(''error'', JStr ''mfa_invalid''), (''reason'', JStr (totp_reason_text r))], st', es)
      | (VerifyOk tok expiry, st', es) \<Rightarrow>
          (json_response 200 [(''token'', JStr tok), (''expiresAt'', jint expiry)], st', es))"

definition enroll_endpoint ::
    "MfaConfig \<Rightarrow> mfa_env \<Rightarrow> UserClaims \<Rightarrow> Mfa \<Rightarrow> HttpResponse \<times> Mfa \<times> bus_event list" where
  "enroll_endpoint cfg env u st =
     (case createEnrollment cfg env (userId u) (email u) st of
        (EnrollFail Already_enrolled, st', es) \<Rightarrow> (json_response 409 [(''error'', JStr ''already_enrolled'')], st', es)
      | (EnrollFail Enroll_internal, st', es) \<Rightarrow> (json_response 500 [(''error'', JStr ''enrollment_internal'')], st', es)
      | (EnrollOk i uri, st', es) \<Rightarrow>
          (json_response 201 [(''enrollmentId'', JStr i), (''otpauthUri'', JStr uri)], st', es))"

definition confirm_endpoint ::
    "mfa_lib \<Rightarrow> MfaConfig \<Rightarrow> mfa_env \<Rightarrow> Request \<Rightarrow> UserClaims \<Rightarrow> string \<Rightarrow> string \<Rightarrow> Mfa \<Rightarrow>
      HttpResponse \<times> Mfa \<times> bus_event list" where
  "confirm_endpoint lib cfg env req u enrollmentId totpCode st =
     (case confirmEnrollment lib cfg env enrollmentId totpCode (userId u) (Some (extractIp req)) (extractJa4h req) st of
        (ConfirmFail r, st', es) \<Rightarrow>
          (if r = Confirm_internal then json_response 500 [(''error'', JStr ''enrollment_internal'')]
           else json_response 400 [(''error'', JStr ''enrollment_failed''), (''reason'', JStr (confirm_reason_text r))], st', es)
      | (ConfirmOk, st', es) \<Rightarrow> (json_response 200 [], st', es))"

text \<open>\<open>Inl 500\<close> is the thrown \<open>InternalServerErrorException\<close>.\<close>

definition adminDeleteEnrollment ::
    "mfa_env \<Rightarrow> string \<Rightarrow> Mfa \<Rightarrow> (nat + HttpResponse) \<times> Mfa \<times> bus_event list" where
  "adminDeleteEnrollment env uid st =
     (case deleteEnrollment env uid st of
        (DeleteFail, st', es) \<Rightarrow> (Inl 500, st', es)
      | (DeleteOk d, st', es) \<Rightarrow> (Inr (json_response 200 [(''deleted'', JBool d)]), st', es))"

end
