(* ===== verification/Metrics.thy ===== *)
theory Metrics
  imports Threat
begin

text \<open>
  The cross-cutting metrics of \<open>src/src/metrics/metrics.service.ts\<close>: counters, the blacklist gauge, the recorded
  durations, and the subscribers that follow the event bus. A histogram is the list of its observations in order
  (seconds); the text rendering and the merging of registries belong to the Prometheus client.
\<close>

record GatewayMetrics =
  gm_requests :: "decision_label \<Rightarrow> nat"
  gm_tokenRevocations :: nat
  gm_blacklistSize :: nat
  gm_fingerprintDrift :: nat
  gm_providerFault :: "string \<Rightarrow> nat"
  gm_stageDuration :: "string \<Rightarrow> real list"
  gm_auditWalDuration :: "real list"
  gm_auditFailures :: nat
  gm_mfaPromotions :: "bool \<Rightarrow> nat"

definition empty_gateway_metrics :: GatewayMetrics where
  "empty_gateway_metrics = \<lparr>gm_requests = (\<lambda>_. 0), gm_tokenRevocations = 0, gm_blacklistSize = 0,
     gm_fingerprintDrift = 0, gm_providerFault = (\<lambda>_. 0), gm_stageDuration = (\<lambda>_. []), gm_auditWalDuration = [],
     gm_auditFailures = 0, gm_mfaPromotions = (\<lambda>_. 0)\<rparr>"

definition bump :: "('a \<Rightarrow> nat) \<Rightarrow> 'a \<Rightarrow> 'a \<Rightarrow> nat" where
  "bump f x = f(x := Suc (f x))"

definition incrementRequest :: "decision_label \<Rightarrow> GatewayMetrics \<Rightarrow> GatewayMetrics" where
  "incrementRequest d m = m\<lparr>gm_requests := bump (gm_requests m) d\<rparr>"

text \<open>The guard \<open>/^[a-z_]+$/\<close> on stage labels.\<close>

definition stage_id_ok :: "string \<Rightarrow> bool" where
  "stage_id_ok s \<longleftrightarrow> s \<noteq> [] \<and>
     list_all (\<lambda>c. (let n = of_char c :: nat in (97 \<le> n \<and> n \<le> 122) \<or> n = 95)) s"

definition observeStageDuration :: "string \<Rightarrow> real \<Rightarrow> GatewayMetrics \<Rightarrow> GatewayMetrics" where
  "observeStageDuration stage d m =
     (if \<not> stage_id_ok stage then m
      else m\<lparr>gm_stageDuration := (gm_stageDuration m)(stage := gm_stageDuration m stage @ [d])\<rparr>)"

definition observeAuditWalDuration :: "real \<Rightarrow> GatewayMetrics \<Rightarrow> GatewayMetrics" where
  "observeAuditWalDuration d m = m\<lparr>gm_auditWalDuration := gm_auditWalDuration m @ [d]\<rparr>"

definition incrementAuditFailure :: "GatewayMetrics \<Rightarrow> GatewayMetrics" where
  "incrementAuditFailure m = m\<lparr>gm_auditFailures := Suc (gm_auditFailures m)\<rparr>"

definition incrementMfaPromotion :: "bool \<Rightarrow> GatewayMetrics \<Rightarrow> GatewayMetrics" where
  "incrementMfaPromotion allow m = m\<lparr>gm_mfaPromotions := bump (gm_mfaPromotions m) allow\<rparr>"

definition incrementTokenRevocation :: "GatewayMetrics \<Rightarrow> GatewayMetrics" where
  "incrementTokenRevocation m = m\<lparr>gm_tokenRevocations := Suc (gm_tokenRevocations m)\<rparr>"

definition setJa4hBlacklistSize :: "nat \<Rightarrow> GatewayMetrics \<Rightarrow> GatewayMetrics" where
  "setJa4hBlacklistSize n m = m\<lparr>gm_blacklistSize := n\<rparr>"

definition incrementFingerprintDrift :: "GatewayMetrics \<Rightarrow> GatewayMetrics" where
  "incrementFingerprintDrift m = m\<lparr>gm_fingerprintDrift := Suc (gm_fingerprintDrift m)\<rparr>"

definition onTrustProviderFault :: "string \<Rightarrow> GatewayMetrics \<Rightarrow> GatewayMetrics" where
  "onTrustProviderFault p m = m\<lparr>gm_providerFault := bump (gm_providerFault m) p\<rparr>"

text \<open>The event subscribers.\<close>

fun metrics_on_event :: "bus_event \<Rightarrow> GatewayMetrics \<Rightarrow> GatewayMetrics" where
  "metrics_on_event AUDIT_RECORD_FAILED m = incrementAuditFailure m"
| "metrics_on_event (FINGERPRINT_BLACKLIST_SIZE_CHANGED n) m = setJa4hBlacklistSize n m"
| "metrics_on_event FINGERPRINT_DRIFT_DETECTED m = incrementFingerprintDrift m"
| "metrics_on_event AUTH_TOKEN_REVOKED m = incrementTokenRevocation m"
| "metrics_on_event (TRUST_PROVIDER_FAULT p) m = onTrustProviderFault p m"
| "metrics_on_event (Signal s p) m = m"

lemmas metrics_defs = incrementRequest_def observeStageDuration_def observeAuditWalDuration_def
  incrementAuditFailure_def incrementMfaPromotion_def incrementTokenRevocation_def setJa4hBlacklistSize_def
  incrementFingerprintDrift_def onTrustProviderFault_def bump_def

text \<open>Following a stream of events: every counter grows by the number of its events, the gauge shows the last announcement.\<close>

lemma metrics_follow_events:
  "gm_auditFailures (fold metrics_on_event es m) = gm_auditFailures m + count_list es AUDIT_RECORD_FAILED"
  "gm_fingerprintDrift (fold metrics_on_event es m) = gm_fingerprintDrift m + count_list es FINGERPRINT_DRIFT_DETECTED"
  "gm_tokenRevocations (fold metrics_on_event es m) = gm_tokenRevocations m + count_list es AUTH_TOKEN_REVOKED"
  "gm_providerFault (fold metrics_on_event es m) p = gm_providerFault m p + count_list es (TRUST_PROVIDER_FAULT p)"
  "gm_requests (fold metrics_on_event es m) = gm_requests m"
  "gm_stageDuration (fold metrics_on_event es m) = gm_stageDuration m"
proof (induction es arbitrary: m)
  case (Cons e es)
  { case 1 show ?case using Cons(1) by (cases e) (simp_all add: metrics_defs) }
  { case 2 show ?case using Cons(2) by (cases e) (simp_all add: metrics_defs) }
  { case 3 show ?case using Cons(3) by (cases e) (simp_all add: metrics_defs) }
  { case 4 show ?case using Cons(4) by (cases e) (simp_all add: metrics_defs) }
  { case 5 show ?case using Cons(5) by (cases e) (simp_all add: metrics_defs) }
  { case 6 show ?case using Cons(6) by (cases e) (simp_all add: metrics_defs) }
qed simp_all

end
