(* ===== verification/JsText.thy ===== *)
theory JsText
  imports Totp Proxy
begin

text \<open>
  Two conversions of the language the gateway uses: \<open>Number(s)\<close> on a string, after the numeric-literal grammar of
  ECMAScript (decimal with fraction and exponent, \<open>Infinity\<close>, and the prefixed hexadecimal, octal and binary forms), with
  the written value rounded by the arithmetic parameter, and \<open>Date.prototype.toISOString\<close>, for times within the range
  of \<open>Date\<close>.
\<close>

section \<open>Number\<close>

definition split_sign :: "string \<Rightarrow> bool \<times> string" where
  "split_sign s =
     (case s of
        [] \<Rightarrow> (False, [])
      | c # r \<Rightarrow> if c = CHR ''-'' then (True, r) else if c = CHR ''+'' then (False, r) else (False, s))"

definition exponent_part :: "string \<Rightarrow> int option" where
  "exponent_part s =
     (case s of
        [] \<Rightarrow> Some 0
      | c # r \<Rightarrow>
          (case split_sign r of
             (neg, ds) \<Rightarrow>
               if lower_char c = CHR ''e'' \<and> ds \<noteq> [] \<and> list_all is_digit ds
               then Some (if neg then - int (parse_dec ds) else int (parse_dec ds)) else None))"

definition decimal_value :: "string \<Rightarrow> real option" where
  "decimal_value s =
     (let ip = takeWhile is_digit s;
          r = dropWhile is_digit s;
          (frac, r) = (if r \<noteq> [] \<and> hd r = CHR ''.'' then (takeWhile is_digit (tl r), dropWhile is_digit (tl r)) else ([], r))
      in if ip = [] \<and> frac = [] then None
         else (case exponent_part r of
                 None \<Rightarrow> None
               | Some e \<Rightarrow> Some (real (parse_dec (ip @ frac)) * 10 powi (e - int (length frac)))))"

definition hex_val :: "char \<Rightarrow> nat option" where
  "hex_val c =
     (let n = of_char (lower_char c) :: nat
      in if 48 \<le> n \<and> n \<le> 57 then Some (n - 48) else if 97 \<le> n \<and> n \<le> 102 then Some (n - 87) else None)"

definition radix_value :: "nat \<Rightarrow> string \<Rightarrow> nat option" where
  "radix_value b ds =
     (if ds = [] then None
      else foldl (\<lambda>a c. case (a, hex_val c) of
                    (Some v, Some d) \<Rightarrow> if d < b then Some (b * v + d) else None
                  | _ \<Rightarrow> None) (Some 0) ds)"

definition js_number :: "fp \<Rightarrow> string \<Rightarrow> jsnum" where
  "js_number f s0 =
     (let s = js_trim s0;
          radix = (if take 1 s = ''0'' then map_of [(CHR ''x'', 16), (CHR ''o'', 8), (CHR ''b'', 2)]
                     (if 2 \<le> length s then lower_char (s ! 1) else CHR ''0'') else None)
      in if s = [] then Fin 0
         else (case radix of
                 Some b \<Rightarrow> (case radix_value b (drop 2 s) of None \<Rightarrow> NaN | Some v \<Rightarrow> Fin (rnd f (real v)))
               | None \<Rightarrow>
                   (case split_sign s of
                      (neg, u) \<Rightarrow>
                        if u = ''Infinity'' then (if neg then NInf else PInf)
                        else (case decimal_value u of
                                None \<Rightarrow> NaN
                              | Some v \<Rightarrow> Fin (if neg then - rnd f v else rnd f v)))))"

section \<open>Dates\<close>

text \<open>The civil date of a day number, in the proleptic Gregorian calendar, by eras of 400 years that start in March.\<close>

definition civil_from_days :: "int \<Rightarrow> int \<times> int \<times> int" where
  "civil_from_days days =
     (let z = days + 719468;
          era = z div 146097;
          doe = z mod 146097;
          yoe = (doe - doe div 1460 + doe div 36524 - doe div 146096) div 365;
          doy = doe - (365 * yoe + yoe div 4 - yoe div 100);
          mp = (5 * doy + 2) div 153;
          d = doy - (153 * mp + 2) div 5 + 1;
          m = (if mp < 10 then mp + 3 else mp - 9)
      in (yoe + era * 400 + (if m \<le> 2 then 1 else 0), m, d))"

definition pad_num :: "nat \<Rightarrow> int \<Rightarrow> string" where
  "pad_num w n = pad_start w CHR ''0'' (dec_string (nat n))"

definition year_text :: "int \<Rightarrow> string" where
  "year_text y =
     (if 0 \<le> y \<and> y \<le> 9999 then pad_num 4 y
      else if 0 \<le> y then ''+'' @ pad_num 6 y else ''-'' @ pad_num 6 (- y))"

definition iso_string :: "ms \<Rightarrow> string" where
  "iso_string t =
     (case civil_from_days (t div 86400000) of
        (y, m, d) \<Rightarrow>
          (let r = t mod 86400000
           in year_text y @ ''-'' @ pad_num 2 m @ ''-'' @ pad_num 2 d @ ''T'' @ pad_num 2 (r div 3600000) @ '':'' @
              pad_num 2 (r div 60000 mod 60) @ '':'' @ pad_num 2 (r div 1000 mod 60) @ ''.'' @ pad_num 3 (r mod 1000) @ ''Z''))"

end
