(* ===== verification/Pipeline.thy ===== *)
theory Pipeline
  imports Policy Auth Hashcash Audit_Trail Proxy Bopla Mfa Metrics Honeypot JsText
begin

text \<open>
  The request pipeline: \<open>src/src/gateway/public-paths.ts\<close>, the stage context and its builder, the thirteen stages
  under \<open>gateway/pipeline/stages\<close>, the orchestrator, the response writer, the terminal error handler, the middleware and
  the global exception filter.

  The shared state of the process and its database is the record \<open>Gateway\<close>; the services the stages call are the
  definitions of the other theories. \<open>Deps\<close> collects configuration and third-party code, \<open>ReqEnv\<close> what one
  request draws from its surroundings: clocks, identifiers, the outcomes of queries and of the network, and
  \<open>re_shared\<close>, the shared state each stage finds when it starts. Other requests run between the stages of a
  request, so that state is arbitrary, and every theorem over \<open>ReqEnv\<close> holds for every interleaving; a stage itself is taken
  as one step. Events are delivered synchronously to the threat service and the metrics.
\<close>

section \<open>Paths\<close>

definition PUBLIC_PATHS :: "string list" where
  "PUBLIC_PATHS = [''/health'', ''/metrics'']"

definition AUTH_ONLY_EXACT :: "string list" where
  "AUTH_ONLY_EXACT = [''/auth/revoke'', ''/mfa/initiate'', ''/mfa/verify'', ''/mfa/enroll'', ''/mfa/enroll/confirm'',
     ''/audit/logs'', ''/demo/mfa-token'']"

definition AUTH_ONLY_PREFIXES :: "string list" where
  "AUTH_ONLY_PREFIXES = [''/mfa/admin/enrollment'', ''/policy/admin'']"

definition isAuthOnlyPath :: "string \<Rightarrow> bool" where
  "isAuthOnlyPath p \<longleftrightarrow> p \<in> set AUTH_ONLY_EXACT \<or> (\<exists>pre \<in> set AUTH_ONLY_PREFIXES. p = pre \<or> prefix (pre @ ''/'') p)"

section \<open>Context and outcomes\<close>

record StageContext =
  sx_req :: Request
  sx_requestId :: string
  sx_startedAt :: ms
  sx_reqPath :: string
  sx_ja4h :: "string option"
  sx_claims :: "UserClaims option"
  sx_trustScore :: "jsnum option"
  sx_trustCtx :: "TrustContext option"
  sx_trustOverride :: bool
  sx_policyDecision :: "PolicyDecision option"
  sx_upstreamStatus :: "nat option"
  sx_upstreamBody :: json
  sx_strippedBody :: json
  sx_boplaRemoved :: "string list option"

text \<open>\<open>short-circuit\<close> carries status, body, headers and the \<open>challenge\<close> flag of the stage logger.\<close>

datatype StageOutcome =
    Continue
  | Bypass
  | ShortCircuit nat json "(string \<times> string) list" bool
  | Proxied nat json

text \<open>What a stage may throw: \<open>AuditExhaustedException\<close>, an \<open>HttpException\<close> with its status, any other error.\<close>

datatype gw_exn = AuditExhaustedException | HttpException nat string | PlainError string

datatype stage_result = Ret StageOutcome | Exn gw_exn

record Gateway =
  gw_revocations :: revocations
  gw_blacklist :: blacklist
  gw_threat :: Threat
  gw_hashcash :: Hashcash
  gw_mfa :: Mfa
  gw_audit :: audit_logs
  gw_trustdb :: TrustDb
  gw_metrics :: GatewayMetrics
  gw_outbox :: "(string \<times> OutboundRequest \<times> nat) list"

record Deps =
  dp_jose :: jose
  dp_auth :: AuthConfig
  dp_policy :: PolicyConfig
  dp_enforce :: enforcer
  dp_fp :: fp
  dp_trust :: TrustConfig
  dp_pow :: pow_env
  dp_hashcash :: HashcashConfig
  dp_mfalib :: mfa_lib
  dp_mfa :: MfaConfig
  dp_audit :: AuditConfig
  dp_proxy :: ProxyConfig
  dp_registry :: registry
  dp_isMatch :: "string \<Rightarrow> string \<Rightarrow> bool"
  dp_fieldPolicy :: FieldPolicy
  dp_demo_mode :: "string option"
  dp_num_str :: "jsnum \<Rightarrow> string"

record ReqEnv =
  re_uuid :: string
  re_startedAt :: ms
  re_t0 :: "string \<Rightarrow> ms"
  re_now :: "string \<Rightarrow> ms"
  re_t1 :: "string \<Rightarrow> ms"
  re_reads :: "string \<Rightarrow> trust_task \<Rightarrow> TrustDb option"
  re_clk :: "string \<Rightarrow> trust_task \<Rightarrow> ms"
  re_eval :: EvalClock
  re_mfa_validate :: mfa_env
  re_mfa_create :: mfa_env
  re_insert :: "string \<Rightarrow> InsertEnv"
  re_net :: net_env
  re_record_fails :: bool
  re_dbnow :: ms
  re_shared :: "string \<Rightarrow> Gateway"

definition demo_isActive :: "string option \<Rightarrow> bool" where
  "demo_isActive DEMO_MODE \<longleftrightarrow> DEMO_MODE = Some ''true''"

text \<open>The identifier the client sends is taken over; the path loses its query.\<close>

definition buildStageContext :: "ReqEnv \<Rightarrow> Request \<Rightarrow> StageContext" where
  "buildStageContext e req = \<lparr>sx_req = req, sx_requestId = nullish (header_string req ''x-request-id'') (re_uuid e),
     sx_startedAt = re_startedAt e, sx_reqPath = req_path req, sx_ja4h = x_ja4h req, sx_claims = None, sx_trustScore = None,
     sx_trustCtx = None, sx_trustOverride = False, sx_policyDecision = None, sx_upstreamStatus = None,
     sx_upstreamBody = JUndef, sx_strippedBody = JUndef, sx_boplaRemoved = None\<rparr>"

section \<open>What stages share\<close>

definition gw_emit :: "Deps \<Rightarrow> ms \<Rightarrow> bus_event list \<Rightarrow> Gateway \<Rightarrow> Gateway" where
  "gw_emit P now es g = g\<lparr>gw_threat := deliver (dp_policy P) now es (gw_threat g),
     gw_metrics := fold metrics_on_event es (gw_metrics g)\<rparr>"

definition stage_entry :: "StageContext \<Rightarrow> string \<Rightarrow> decision_label \<Rightarrow> jsnum option \<Rightarrow> string option \<Rightarrow> AuditEntry" where
  "stage_entry c uid dec score ev = \<lparr>ae_userId = uid, ae_resource = sx_reqPath c, ae_action = req_method (sx_req c),
     ae_decision = dec, ae_trustScore = score, ae_ja4hFingerprint = sx_ja4h c, ae_ipAddress = Some (extractIp (sx_req c)),
     ae_userAgent = None, ae_requestId = Some (sx_requestId c), ae_eventType = ev\<rparr>"

text \<open>The best-effort write with its 200 ms limit; the flag tells whether an exception reaches the stage.\<close>

definition best_effort :: "Deps \<Rightarrow> ReqEnv \<Rightarrow> string \<Rightarrow> AuditEntry \<Rightarrow> Gateway \<Rightarrow> bool \<times> Gateway" where
  "best_effort P e sid entry g =
     (case recordWithTimeoutBestEffort (dp_audit P) (re_insert e sid) 200 entry (gw_audit g) of
        (out, logs, es) \<Rightarrow>
          (let g = gw_emit P (re_now e sid) es (g\<lparr>gw_audit := logs\<rparr>);
               g = (if out = TimedOut then g\<lparr>gw_metrics := incrementAuditFailure (gw_metrics g)\<rparr> else g)
           in (out = Threw, g)))"

type_synonym stage = "Deps \<Rightarrow> ReqEnv \<Rightarrow> StageContext \<Rightarrow> Gateway \<Rightarrow> stage_result \<times> StageContext \<times> Gateway"

section \<open>The stages\<close>

definition public_bypass_stage :: stage where
  "public_bypass_stage P e c g = (Ret (if sx_reqPath c \<in> set PUBLIC_PATHS then Bypass else Continue), c, g)"

definition honeypot_bypass_stage :: stage where
  "honeypot_bypass_stage P e c g = (Ret (if sx_reqPath c \<in> set HONEYPOT_PATHS then Bypass else Continue), c, g)"

definition auth_stage :: stage where
  "auth_stage P e c g =
     (case authenticate (dp_jose P) (dp_auth P) (sx_req c) of
        AuthOk cl \<Rightarrow>
          (Ret Continue, c\<lparr>sx_claims := Some cl, sx_req := (sx_req c)\<lparr>user := Some cl, gateway_validated := True\<rparr>\<rparr>, g)
      | AuthInvalid reason m \<Rightarrow>
          (case best_effort P e ''auth'' (stage_entry c ''anonymous'' L_deny None None) g of
             (True, g) \<Rightarrow> (Exn AuditExhaustedException, c, g)
           | (False, g) \<Rightarrow>
               (let g = gw_emit P (re_now e ''auth'')
                      [Signal AUTH_INVALID_TOKEN (buildAuthInvalidPayload (sx_req c) (re_now e ''auth''))] g;
                    body = (if reason = Token
                            then JObj [(''error'', JStr ''auth_invalid''),
                                       (''message'', case m of None \<Rightarrow> JUndef | Some t \<Rightarrow> JStr t),
                                       (''requestId'', JStr (sx_requestId c))]
                            else JObj [(''error'', JStr ''auth_required''), (''requestId'', JStr (sx_requestId c))])
                in (Ret (ShortCircuit 401 body [] False), c, g))))"

definition revocation_stage :: stage where
  "revocation_stage P e c g =
     (case sx_claims c of
        None \<Rightarrow> (Ret Continue, c, g)
      | Some cl \<Rightarrow>
          (case isRevoked (re_now e ''revocation'') (jti cl) (gw_revocations g) of
             (False, rv) \<Rightarrow> (Ret Continue, c, g\<lparr>gw_revocations := rv\<rparr>)
           | (True, rv) \<Rightarrow>
               (case best_effort P e ''revocation'' (stage_entry c (userId cl) L_deny None (Some ''REVOCATION_BLOCKED''))
                       (g\<lparr>gw_revocations := rv\<rparr>) of
                  (True, g) \<Rightarrow> (Exn AuditExhaustedException, c, g)
                | (False, g) \<Rightarrow>
                    (Ret (ShortCircuit 401 (JObj [(''error'', JStr ''token_revoked''), (''requestId'', JStr (sx_requestId c))])
                       [] False), c, g))))"

definition auth_only_stage :: stage where
  "auth_only_stage P e c g =
     (if \<not> isAuthOnlyPath (sx_reqPath c) then (Ret Continue, c, g)
      else (case sx_claims c of
              None \<Rightarrow> (Exn (PlainError ''AuthOnlyShortCircuitStage: ctx.claims missing''), c, g)
            | Some cl \<Rightarrow>
                (case best_effort P e ''auth_only'' (stage_entry c (userId cl) L_allow None None) g of
                   (True, g) \<Rightarrow> (Exn AuditExhaustedException, c, g)
                 | (False, g) \<Rightarrow> (Ret Bypass, c, g))))"

definition parseDemoOverride :: "fp \<Rightarrow> hval option \<Rightarrow> jsnum option" where
  "parseDemoOverride f raw =
     (case raw of
        Some (HStr s) \<Rightarrow>
          (let trimmed = js_trim s
           in if trimmed = [] then None
              else (case js_number f trimmed of
                      Fin n \<Rightarrow> if n < 0 \<or> 1 < n then None else Some (Fin n)
                    | _ \<Rightarrow> None))
      | _ \<Rightarrow> None)"

definition trust_context :: "StageContext \<Rightarrow> UserClaims \<Rightarrow> TrustContext" where
  "trust_context c cl = \<lparr>tc_userId = userId cl, tc_deviceId = deviceId cl, tc_ip = extractIp (sx_req c),
     tc_ja4h = nullish (sx_ja4h c) [], tc_requestTimestamp = None\<rparr>"

definition trust_score_stage :: stage where
  "trust_score_stage P e c g =
     (case sx_claims c of
        None \<Rightarrow> (Exn (PlainError ''TrustScoreStage: ctx.claims missing''), c, g)
      | Some cl \<Rightarrow>
          (let tctx = trust_context c cl;
               override = (if demo_isActive (dp_demo_mode P)
                           then parseDemoOverride (dp_fp P) (header (sx_req c) ''x-demo-trust-score'') else None);
               (val, bl, es) = (case override of
                  Some v \<Rightarrow> (v, gw_blacklist g, [])
                | None \<Rightarrow> evaluateScore (dp_fp P) (dp_trust P) (re_reads e ''trust_score'') (re_clk e ''trust_score'')
                            (re_now e ''trust_score'') tctx (gw_blacklist g))
           in (Ret Continue,
               c\<lparr>sx_trustScore := Some val, sx_trustCtx := Some tctx, sx_trustOverride := (override \<noteq> None),
                 sx_req := (sx_req c)\<lparr>req_trustScore := Some val\<rparr>\<rparr>,
               gw_emit P (re_now e ''trust_score'') es (g\<lparr>gw_blacklist := bl\<rparr>))))"

definition issue_challenge ::
    "Deps \<Rightarrow> ReqEnv \<Rightarrow> StageContext \<Rightarrow> UserClaims \<Rightarrow> jsnum \<Rightarrow> string \<Rightarrow> Gateway \<Rightarrow> stage_result \<times> StageContext \<times> Gateway" where
  "issue_challenge P e c cl score errCode g =
     (case issueChallenge (dp_pow P) (dp_hashcash P) (re_now e ''hashcash'') (userId cl) (deviceId cl) score (gw_hashcash g) of
        (ic, s) \<Rightarrow>
          (Ret (ShortCircuit 429
             (JObj [(''error'', JStr errCode), (''nonce'', JStr (ic_nonce ic)), (''difficulty'', JNum (ic_difficulty ic)),
                    (''expiresAt'', jint (ic_expiresAt ic)), (''requestId'', JStr (sx_requestId c))])
             [(''X-Hashcash-Challenge'', ic_nonce ic @ '':'' @ dp_num_str P (ic_difficulty ic)), (''Retry-After'', ''1'')] True),
           c, g\<lparr>gw_hashcash := s\<rparr>))"

definition hashcash_stage :: stage where
  "hashcash_stage P e c g =
     (case sx_claims c of
        None \<Rightarrow> (Exn (PlainError ''HashcashStage: ctx.claims missing''), c, g)
      | Some cl \<Rightarrow>
     (case sx_trustScore c of
        None \<Rightarrow> (Exn (PlainError ''HashcashStage: ctx.trustScore missing''), c, g)
      | Some score \<Rightarrow>
          (let threshold = nullish (triggerThreshold (dp_hashcash P)) (1/2);
               nonceHeader = or_else (header_string (sx_req c) ''x-hashcash-nonce'') [];
               solutionHeader = or_else (header_string (sx_req c) ''x-hashcash-solution'') []
           in if jle score (Fin threshold) then (Ret Continue, c, g)
              else if nonceHeader = [] \<or> solutionHeader = []
                then issue_challenge P e c cl score ''proof_of_work_required'' g
              else if 256 < length solutionHeader \<or> length solutionHeader < 1
                then issue_challenge P e c cl score ''proof_of_work_invalid'' g
              else (case verifySolution (dp_pow P) (dp_hashcash P) (re_now e ''hashcash'') nonceHeader solutionHeader score
                           (userId cl) (deviceId cl) (gw_hashcash g) of
                      (VOk iat, s) \<Rightarrow> (Ret Continue, c, g\<lparr>gw_hashcash := s\<rparr>)
                    | (VFail r, s) \<Rightarrow>
                        issue_challenge P e c cl score ''proof_of_work_invalid'' (g\<lparr>gw_hashcash := s\<rparr>)))))"

definition policy_trust_env :: "Deps \<Rightarrow> ReqEnv \<Rightarrow> TrustEnv" where
  "policy_trust_env P e = \<lparr>te_fp = dp_fp P, te_cfg = dp_trust P, te_reads = re_reads e ''policy'', te_clk = re_clk e ''policy''\<rparr>"

definition policy_stage :: stage where
  "policy_stage P e c g =
     (case evaluate (dp_policy P) (dp_enforce P) (policy_trust_env P e) (re_eval e) (sx_req c) (gw_blacklist g) (gw_threat g) of
        (d, bl, s, es) \<Rightarrow>
          (Ret Continue, c\<lparr>sx_policyDecision := Some d\<rparr>,
           gw_emit P (ek_emit (re_eval e)) es (g\<lparr>gw_blacklist := bl, gw_threat := s\<rparr>)))"

fun decision_reason :: "PolicyDecision \<Rightarrow> string" where
  "decision_reason (ALLOW r s m) = r"
| "decision_reason (CHALLENGE r s m) = r"
| "decision_reason (DENY r s m) = r"

fun buildMfaChallengeOutcome :: "MfaCreateResult \<Rightarrow> string \<Rightarrow> StageOutcome" where
  "buildMfaChallengeOutcome (CreateFail Rate_limited) rid =
     ShortCircuit 429 (JObj [(''error'', JStr ''mfa_rate_limited''), (''requestId'', JStr rid)]) [] False"
| "buildMfaChallengeOutcome (CreateFail Create_internal) rid =
     ShortCircuit 503 (JObj [(''error'', JStr ''mfa_internal''), (''requestId'', JStr rid)]) [] False"
| "buildMfaChallengeOutcome (CreateOk cid expiry) rid =
     ShortCircuit 401
       (JObj [(''error'', JStr ''mfa_required''), (''challengeId'', JStr cid), (''verifyEndpoint'', JStr ''/mfa/verify''),
              (''expiresAt'', JStr (iso_string expiry)), (''requestId'', JStr rid)])
       [(''WWW-Authenticate'', ''MFA realm=\"gateway\", challengeId=\"'' @ cid @ ''\"''), (''X-MFA-Challenge'', cid)] False"

text \<open>The rejected half of a CHALLENGE: count, audit, create a challenge.\<close>

definition challenge_client ::
    "Deps \<Rightarrow> ReqEnv \<Rightarrow> StageContext \<Rightarrow> UserClaims \<Rightarrow> Gateway \<Rightarrow> stage_result \<times> StageContext \<times> Gateway" where
  "challenge_client P e c cl g =
     (let g = g\<lparr>gw_metrics := incrementMfaPromotion False (gw_metrics g)\<rparr>
      in case best_effort P e ''mfa_promotion'' (stage_entry c (userId cl) L_challenge (sx_trustScore c) None) g of
           (True, g) \<Rightarrow> (Exn AuditExhaustedException, c, g)
         | (False, g) \<Rightarrow>
             (let g = g\<lparr>gw_metrics := incrementRequest L_challenge (gw_metrics g)\<rparr>
              in case createChallenge (dp_mfa P) (re_mfa_create e) (userId cl) (extractIp (sx_req c)) (sx_ja4h c) (gw_mfa g) of
                   (ch, st, es) \<Rightarrow>
                     (Ret (buildMfaChallengeOutcome ch (sx_requestId c)), c,
                      gw_emit P (en_now (re_mfa_create e)) es (g\<lparr>gw_mfa := st\<rparr>))))"

definition deny_client ::
    "Deps \<Rightarrow> ReqEnv \<Rightarrow> StageContext \<Rightarrow> UserClaims \<Rightarrow> PolicyDecision \<Rightarrow> Gateway \<Rightarrow> stage_result \<times> StageContext \<times> Gateway" where
  "deny_client P e c cl d g =
     (case best_effort P e ''mfa_promotion'' (stage_entry c (userId cl) L_deny (sx_trustScore c) None) g of
        (True, g) \<Rightarrow> (Exn AuditExhaustedException, c, g)
      | (False, g) \<Rightarrow>
          (Ret (ShortCircuit 403 (JObj [(''error'', JStr ''policy_denied''), (''reason'', JStr (decision_reason d)),
             (''requestId'', JStr (sx_requestId c))]) [] False), c,
           g\<lparr>gw_metrics := incrementRequest L_deny (gw_metrics g)\<rparr>))"

definition mfa_promotion_stage :: stage where
  "mfa_promotion_stage P e c g =
     (case sx_claims c of
        None \<Rightarrow> (Exn (PlainError ''MfaPromotionStage: ctx.claims missing''), c, g)
      | Some cl \<Rightarrow>
     (case sx_policyDecision c of
        None \<Rightarrow> (Exn (PlainError ''MfaPromotionStage: ctx.policyDecision missing''), c, g)
      | Some d \<Rightarrow>
     (case label_of d of
        L_allow \<Rightarrow> (Ret Continue, c, g)
      | L_deny \<Rightarrow> deny_client P e c cl d g
      | L_challenge \<Rightarrow>
          (case truthy (header_string (sx_req c) ''x-mfa-token'') of
             None \<Rightarrow> challenge_client P e c cl g
           | Some tok \<Rightarrow>
               (case validateMfaToken (dp_mfalib P) (dp_mfa P) (re_mfa_validate e) tok (userId cl) (deviceId cl)
                       (extractIp (sx_req c)) (sx_ja4h c) (gw_mfa g) of
                  (ValidateOk p, es) \<Rightarrow>
                    (Ret Continue, c,
                     (gw_emit P (en_now (re_mfa_validate e)) es g)
                       \<lparr>gw_metrics := incrementMfaPromotion True
                          (gw_metrics (gw_emit P (en_now (re_mfa_validate e)) es g))\<rparr>)
                | (ValidateFail r, es) \<Rightarrow>
                    challenge_client P e c cl (gw_emit P (en_now (re_mfa_validate e)) es g))))))"

definition allow_entry :: "StageContext \<Rightarrow> UserClaims \<Rightarrow> AuditEntry" where
  "allow_entry c cl = stage_entry c (userId cl) L_allow (sx_trustScore c) None"

definition audit_allow_stage :: stage where
  "audit_allow_stage P e c g =
     (case sx_claims c of
        None \<Rightarrow> (Exn (PlainError ''AuditAllowStage: ctx.claims missing''), c, g)
      | Some cl \<Rightarrow>
          (case audit_log (dp_audit P) (re_insert e ''audit_allow'') (allow_entry c cl) (gw_audit g) of
             (AuditExhausted, logs, t, es) \<Rightarrow>
               (Exn AuditExhaustedException, c, gw_emit P (re_now e ''audit_allow'') es (g\<lparr>gw_audit := logs\<rparr>))
           | (Logged, logs, t, es) \<Rightarrow>
               (let g = gw_emit P (re_now e ''audit_allow'') es (g\<lparr>gw_audit := logs\<rparr>)
                in (Ret Continue, c, g\<lparr>gw_metrics := observeAuditWalDuration (real_of_int t / 1000) (gw_metrics g)\<rparr>))))"

fun exn_of :: "proxy_error \<Rightarrow> gw_exn" where
  "exn_of (HttpErr st m) = HttpException st m"
| "exn_of (RawErr m) = PlainError m"

definition proxy_stage :: stage where
  "proxy_stage P e c g =
     (case sx_claims c of
        None \<Rightarrow> (Exn (PlainError ''ProxyStage: ctx.claims missing''), c, g)
      | Some cl \<Rightarrow>
     (case sx_trustScore c of
        None \<Rightarrow> (Exn (PlainError ''ProxyStage: ctx.trustScore missing''), c, g)
      | Some score \<Rightarrow>
          (case forward (dp_proxy P) (dp_registry P) (re_net e) (sx_req c) cl score of
             (res, sent) \<Rightarrow>
               (let g = (case sent of None \<Rightarrow> g
                         | Some (ob, k) \<Rightarrow> g\<lparr>gw_outbox := gw_outbox g @ [(sx_requestId c, ob, k)]\<rparr>)
                in case res of
                     Inl x \<Rightarrow> (Exn (exn_of x), c, g)
                   | Inr up \<Rightarrow>
                       (Ret Continue, c\<lparr>sx_upstreamStatus := Some (up_status up), sx_upstreamBody := up_body up\<rparr>, g)))))"

definition bopla_strip_stage :: stage where
  "bopla_strip_stage P e c g =
     (case sx_claims c of
        None \<Rightarrow> (Exn (PlainError ''BoplaStripStage: ctx.claims missing''), c, g)
      | Some cl \<Rightarrow>
          (case strip (dp_isMatch P) (dp_fieldPolicy P) (sx_upstreamBody c) (sx_reqPath c) (roles cl) of
             Inl m \<Rightarrow> (Exn (PlainError m), c, g)
           | Inr body \<Rightarrow>
               (let removed = diffTopLevelKeys (sx_upstreamBody c) body
                in (Ret Continue,
                    c\<lparr>sx_strippedBody := body,
                      sx_boplaRemoved := (if removed \<noteq> [] then Some removed else sx_boplaRemoved c)\<rparr>, g))))"

definition record_trust_context_stage :: stage where
  "record_trust_context_stage P e c g =
     (case sx_upstreamStatus c of
        None \<Rightarrow> (Exn (PlainError ''RecordTrustContextStage: ctx.upstreamStatus missing''), c, g)
      | Some status \<Rightarrow>
          if status < 400
          then (case (sx_trustCtx c, sx_trustScore c) of
                  (Some tctx, Some score) \<Rightarrow>
                    (case recordTrustContextAfterAllow (dp_fp P) (re_record_fails e) (re_now e ''record_trust_context'')
                            (re_dbnow e) tctx score (gw_trustdb g) of
                       None \<Rightarrow> (Exn (PlainError ''recordTrustContextAfterAllow''), c, g)
                     | Some db \<Rightarrow> (Ret (Proxied status (sx_strippedBody c)), c, g\<lparr>gw_trustdb := db\<rparr>))
                | _ \<Rightarrow> (Exn (PlainError ''RecordTrustContextStage: trust ctx/score missing''), c, g))
          else (Ret (Proxied status (sx_strippedBody c)), c, g))"

section \<open>The orchestrator\<close>

definition PIPELINE_STAGES :: "(string \<times> stage) list" where
  "PIPELINE_STAGES =
     [(''public_bypass'', public_bypass_stage), (''honeypot_bypass'', honeypot_bypass_stage), (''auth'', auth_stage),
      (''revocation'', revocation_stage), (''auth_only'', auth_only_stage), (''trust_score'', trust_score_stage),
      (''hashcash'', hashcash_stage), (''policy'', policy_stage), (''mfa_promotion'', mfa_promotion_stage),
      (''audit_allow'', audit_allow_stage), (''proxy'', proxy_stage), (''bopla_strip'', bopla_strip_stage),
      (''record_trust_context'', record_trust_context_stage)]"

text \<open>One round of the loop: \<^const>\<open>None\<close> goes on to the next stage; the duration is only recorded when the stage returned.\<close>

definition orchestrator_step ::
    "Deps \<Rightarrow> ReqEnv \<Rightarrow> string \<times> stage \<Rightarrow> StageContext \<Rightarrow> Gateway \<Rightarrow> (gw_exn + StageOutcome) option \<times> StageContext \<times> Gateway" where
  "orchestrator_step P e st c g =
     (case snd st P e c g of
        (Exn x, c, g) \<Rightarrow> (Some (Inl x), c, g)
      | (Ret out, c, g) \<Rightarrow>
          (if out = Continue then None else Some (Inr out), c,
           g\<lparr>gw_metrics := observeStageDuration (fst st) (real_of_int (re_t1 e (fst st) - re_t0 e (fst st)) / 1000)
                (gw_metrics g)\<rparr>))"

text \<open>The loop; the last component lists the stages that ran with the shared state each left.\<close>

fun orchestrator_run ::
    "Deps \<Rightarrow> ReqEnv \<Rightarrow> (string \<times> stage) list \<Rightarrow> StageContext \<Rightarrow>
      (gw_exn + StageOutcome) \<times> StageContext \<times> (string \<times> Gateway) list" where
  "orchestrator_run P e [] c = (Inr Continue, c, [])"
| "orchestrator_run P e (st # rest) c =
     (case orchestrator_step P e st c (re_shared e (fst st)) of
        (Some r, c, g) \<Rightarrow> (r, c, [(fst st, g)])
      | (None, c, g) \<Rightarrow>
          (case orchestrator_run P e rest c of (r, c, steps) \<Rightarrow> (r, c, (fst st, g) # steps)))"

text \<open>What becomes of the request: handed to the router, answered, or an exception left to the global filter.\<close>

datatype Answer = Next | Respond HttpResponse | Propagate gw_exn

definition writeOutcome :: "StageOutcome \<Rightarrow> Gateway \<Rightarrow> Answer \<times> Gateway" where
  "writeOutcome out g =
     (case out of
        Bypass \<Rightarrow> (Next, g)
      | ShortCircuit st body hs ch \<Rightarrow> (Respond \<lparr>resp_status = st, resp_headers = hs, resp_body = body\<rparr>, g)
      | Proxied st body \<Rightarrow>
          (Respond \<lparr>resp_status = st, resp_headers = [], resp_body = body\<rparr>,
           g\<lparr>gw_metrics := incrementRequest L_allow (gw_metrics g)\<rparr>)
      | Continue \<Rightarrow> (Propagate (PlainError ''orchestrator returned continue; pipeline did not terminate''), g))"

definition handleTerminalError :: "Deps \<Rightarrow> ReqEnv \<Rightarrow> gw_exn \<Rightarrow> StageContext \<Rightarrow> Gateway \<Rightarrow> Answer \<times> Gateway" where
  "handleTerminalError P e x c g =
     (case x of
        AuditExhaustedException \<Rightarrow>
          (Respond \<lparr>resp_status = 503, resp_headers = [(''Retry-After'', ''5'')],
             resp_body = JObj [(''error'', JStr ''audit_unavailable''), (''requestId'', JStr (sx_requestId c))]\<rparr>,
           gw_emit P (re_now e ''terminal'')
             [Signal AUDIT_SIGNAL ((empty_payload (re_now e ''terminal''))\<lparr>pl_type := Some AUDIT_SIGNAL,
                pl_ip := Some (extractIp (sx_req c)), pl_userId := map_option userId (sx_claims c), pl_ja4h := sx_ja4h c,
                pl_resource := Some (sx_reqPath c), pl_action := Some (req_method (sx_req c)),
                pl_requestId := Some (sx_requestId c)\<rparr>)]
             (g\<lparr>gw_metrics := incrementAuditFailure (gw_metrics g)\<rparr>))
      | HttpException st m \<Rightarrow>
          if st = 503
          then (Respond (json_response 502 [(''error'', JStr ''proxy_unavailable''), (''requestId'', JStr (sx_requestId c))]), g)
          else if st = 401
          then (Respond (json_response 401 [(''error'', JStr ''auth_invalid''), (''message'', JStr m),
                  (''requestId'', JStr (sx_requestId c))]), g)
          else (Propagate x, g)
      | PlainError m \<Rightarrow> (Propagate x, g))"

text \<open>The \<open>try\<close> and \<open>catch\<close> of the middleware: an error thrown by the writer is handled like one thrown by a stage.\<close>

definition respond :: "Deps \<Rightarrow> ReqEnv \<Rightarrow> gw_exn + StageOutcome \<Rightarrow> StageContext \<Rightarrow> Gateway \<Rightarrow> Answer \<times> Gateway" where
  "respond P e r c g =
     (case r of
        Inl x \<Rightarrow> handleTerminalError P e x c g
      | Inr out \<Rightarrow>
          (case writeOutcome out g of
             (Propagate x, g) \<Rightarrow> handleTerminalError P e x c g
           | (a, g) \<Rightarrow> (a, g)))"

text \<open>\<open>GatewayMiddleware.use\<close>: the answer, the final context, the stages that ran and the shared state at the end.\<close>

definition gateway_use ::
    "Deps \<Rightarrow> ReqEnv \<Rightarrow> Request \<Rightarrow> Answer \<times> StageContext \<times> (string \<times> Gateway) list \<times> Gateway" where
  "gateway_use P e req =
     (let c = buildStageContext e req
      in if req_method req = ''OPTIONS'' then (Next, c, [], re_shared e ''end'')
         else (case orchestrator_run P e PIPELINE_STAGES c of
                 (r, c, steps) \<Rightarrow>
                   (case respond P e r c (re_shared e ''end'') of (a, g) \<Rightarrow> (a, c, steps, g))))"

text \<open>The global filter, for an exception that reaches it with the response already started or not.\<close>

definition http_exception_filter :: "ms \<Rightarrow> bool \<Rightarrow> gw_exn \<Rightarrow> HttpResponse option" where
  "http_exception_filter now headersSent x =
     (if headersSent then None
      else (case x of
              HttpException st m \<Rightarrow>
                Some (json_response st [(''statusCode'', jint (int st)), (''message'', JStr m), (''timestamp'', JStr (iso_string now))])
            | _ \<Rightarrow>
                Some (json_response 500 [(''statusCode'', jint 500), (''message'', JStr ''Internal server error''),
                  (''timestamp'', JStr (iso_string now))])))"

end
