(* ===== verification/Pipeline_Contracts.thy ===== *)
theory Pipeline_Contracts
  imports Pipeline "HOL-Library.Sublist"
begin

text \<open>
  What every stage promises to the orchestrator, as locales interpreted for the thirteen stages: the identity of the request
  is kept, the audit trail only grows, a request leaves the gateway only in the name of the verified user, and all stages
  but the proxy send nothing. The invariant of the interleaved system is proved from these contracts alone.
\<close>

section \<open>The trail only grows\<close>

lemma repo_insert_prefix: "repo_insert ie k entry logs = (ok, logs') \<Longrightarrow> prefix logs logs'"
  by (auto simp: repo_insert_def insert_row_def split: insert_result.splits)

lemma wal_loop_prefix: "wal_loop ie base entry n k logs = (out, logs', t) \<Longrightarrow> prefix logs logs'"
proof (induction n arbitrary: k logs out logs' t)
  case (Suc n)
  obtain ok logs1 where one: "repo_insert ie k entry logs = (ok, logs1)" by fastforce
  then have p: "prefix logs logs1" by (rule repo_insert_prefix)
  obtain out2 logs2 t2 where rest: "wal_loop ie base entry n (Suc k) logs1 = (out2, logs2, t2)" by (metis prod_cases3)
  from Suc.prems one rest have "logs' = (if ok then logs1 else logs2)"
    by (cases ok) (auto simp: Let_def)
  with p Suc.IH [OF rest] show ?case by (auto intro: prefix_order.trans)
qed simp

lemma audit_log_prefix: "audit_log cfg ie entry logs = (out, logs', t, es) \<Longrightarrow> prefix logs logs'"
  by (auto simp: audit_log_def writeBlocking_def recordBestEffort_def
      split: if_splits prod.splits bool.splits dest!: wal_loop_prefix repo_insert_prefix)

lemma gw_emit_simps [simp]:
  "gw_audit (gw_emit P now es g) = gw_audit g" "gw_outbox (gw_emit P now es g) = gw_outbox g"
  "gw_revocations (gw_emit P now es g) = gw_revocations g" "gw_hashcash (gw_emit P now es g) = gw_hashcash g"
  "gw_mfa (gw_emit P now es g) = gw_mfa g" "gw_blacklist (gw_emit P now es g) = gw_blacklist g"
  by (simp_all add: gw_emit_def)

lemma best_effort_frame:
  assumes "best_effort P e sid entry g = (threw, g')"
  shows "prefix (gw_audit g) (gw_audit g')" "gw_outbox g' = gw_outbox g"
    "threw \<Longrightarrow> ae_decision entry = L_allow" "gw_revocations g' = gw_revocations g"
proof -
  obtain out logs t es where a: "audit_log (dp_audit P) (re_insert e sid) entry (gw_audit g) = (out, logs, t, es)"
    by (metis prod_cases4)
  show "prefix (gw_audit g) (gw_audit g')" "gw_outbox g' = gw_outbox g" "gw_revocations g' = gw_revocations g"
    using assms a audit_log_prefix [OF a]
    by (auto simp: best_effort_def recordWithTimeoutBestEffort_def Let_def)
  show "threw \<Longrightarrow> ae_decision entry = L_allow"
    using assms a by (auto simp: best_effort_def recordWithTimeoutBestEffort_def Let_def audit_log_def
        split: if_splits prod.splits)
qed

section \<open>The contracts\<close>

text \<open>The fields of a request that the client determines.\<close>

definition base_request :: "Request \<Rightarrow> Request" where
  "base_request r = r\<lparr>user := None, req_trustScore := None, gateway_validated := False\<rparr>"

definition same_request :: "StageContext \<Rightarrow> StageContext \<Rightarrow> bool" where
  "same_request c c' \<longleftrightarrow> base_request (sx_req c') = base_request (sx_req c) \<and> sx_requestId c' = sx_requestId c
     \<and> sx_reqPath c' = sx_reqPath c \<and> sx_ja4h c' = sx_ja4h c \<and> sx_startedAt c' = sx_startedAt c"

text \<open>An upstream call made in the name of the context's user.\<close>

definition sent_for :: "StageContext \<Rightarrow> string \<times> OutboundRequest \<times> nat \<Rightarrow> bool" where
  "sent_for c x \<longleftrightarrow> (case x of (rid, ob, k) \<Rightarrow> rid = sx_requestId c \<and> ob_method ob = req_method (sx_req c)
     \<and> (\<exists>cl. sx_claims c = Some cl \<and> map_of (ob_headers ob) ''x-user-id'' = Some (userId cl)
           \<and> map_of (ob_headers ob) ''x-roles'' = Some (join_with '','' (roles cl))))"

text \<open>The ALLOW row of a context is in the trail.\<close>

definition allow_row :: "StageContext \<Rightarrow> Gateway \<Rightarrow> bool" where
  "allow_row c g \<longleftrightarrow> (\<exists>cl. sx_claims c = Some cl \<and> (\<exists>l \<in> set (gw_audit g).
     ae_requestId (al_entry l) = Some (sx_requestId c) \<and> ae_userId (al_entry l) = userId cl
     \<and> ae_decision (al_entry l) = L_allow \<and> ae_action (al_entry l) = req_method (sx_req c)
     \<and> ae_resource (al_entry l) = sx_reqPath c))"

text \<open>Every upstream call has an ALLOW row with its request identifier, user and method.\<close>

definition audited :: "Gateway \<Rightarrow> bool" where
  "audited g \<longleftrightarrow> (\<forall>(rid, ob, k) \<in> set (gw_outbox g). \<exists>l \<in> set (gw_audit g).
     ae_requestId (al_entry l) = Some rid \<and> ae_decision (al_entry l) = L_allow \<and> ae_action (al_entry l) = ob_method ob
     \<and> map_of (ob_headers ob) ''x-user-id'' = Some (ae_userId (al_entry l)))"

locale stage_contract =
  fixes stage :: stage
  assumes keeps_request: "stage P e c g = (r, c', g') \<Longrightarrow> same_request c c'"
    and trail_grows: "stage P e c g = (r, c', g') \<Longrightarrow> prefix (gw_audit g) (gw_audit g')"
    and revokes_nothing: "stage P e c g = (r, c', g') \<Longrightarrow> set (gw_revocations g') \<subseteq> set (gw_revocations g)"
    and sends_for: "stage P e c g = (r, c', g') \<Longrightarrow> x \<in> set (gw_outbox g') \<Longrightarrow> x \<in> set (gw_outbox g) \<or> sent_for c x"
begin

lemma rows_kept:
  assumes "stage P e c g = (r, c', g')" and "l \<in> set (gw_audit g)"
  shows "l \<in> set (gw_audit g')"
  using trail_grows [OF assms(1)] assms(2) by (auto simp: prefix_def)

lemma audited_if_row:
  assumes "stage P e c g = (r, c', g')" and "audited g" and "allow_row c g"
  shows "audited g'"
  unfolding audited_def
proof (clarify)
  fix rid ob k
  assume "(rid, ob, k) \<in> set (gw_outbox g')"
  then consider "(rid, ob, k) \<in> set (gw_outbox g)" | "sent_for c (rid, ob, k)"
    using sends_for [OF assms(1)] by blast
  then show "\<exists>l \<in> set (gw_audit g'). ae_requestId (al_entry l) = Some rid \<and> ae_decision (al_entry l) = L_allow
      \<and> ae_action (al_entry l) = ob_method ob \<and> map_of (ob_headers ob) ''x-user-id'' = Some (ae_userId (al_entry l))"
  proof cases
    case 1
    with assms(2) rows_kept [OF assms(1)] show ?thesis by (fastforce simp: audited_def)
  next
    case 2
    with assms(3) rows_kept [OF assms(1)] show ?thesis by (fastforce simp: sent_for_def allow_row_def)
  qed
qed

end

text \<open>Stages after authentication keep the claims.\<close>

locale claims_stage = stage_contract +
  assumes keeps_claims: "stage P e c g = (r, c', g') \<Longrightarrow> sx_claims c' = sx_claims c"
begin

lemma allow_row_kept:
  assumes "stage P e c g = (r, c', g')" and "allow_row c g"
  shows "allow_row c' g'"
proof -
  have "req_method (sx_req c') = req_method (sx_req c)"
    using keeps_request [OF assms(1)] unfolding same_request_def base_request_def
    by (metis Request.select_convs(1) Request.surjective Request.update_convs(12-14))
  then show ?thesis
    using keeps_request [OF assms(1)] keeps_claims [OF assms(1)] rows_kept [OF assms(1)] assms(2)
    by (fastforce simp: allow_row_def same_request_def)
qed

end

text \<open>All stages but the proxy send nothing.\<close>

locale quiet_stage = stage_contract +
  assumes quiet: "stage P e c g = (r, c', g') \<Longrightarrow> gw_outbox g' = gw_outbox g"
begin

lemma audited_kept:
  assumes "stage P e c g = (r, c', g')" and "audited g"
  shows "audited g'"
  using assms(2) quiet [OF assms(1)] rows_kept [OF assms(1)] by (fastforce simp: audited_def)

end

section \<open>The stages keep the contracts\<close>

lemma base_request_simps [simp]:
  "base_request (r\<lparr>user := u\<rparr>) = base_request r" "base_request (r\<lparr>req_trustScore := x\<rparr>) = base_request r"
  "base_request (r\<lparr>gateway_validated := b\<rparr>) = base_request r"
  by (simp_all add: base_request_def)

lemma same_request_refl [simp]: "same_request c c"
  by (simp add: same_request_def)

text \<open>What a quiet stage with its helpers does, in one predicate.\<close>

definition frame :: "StageContext \<Rightarrow> Gateway \<Rightarrow> stage_result \<times> StageContext \<times> Gateway \<Rightarrow> bool" where
  "frame c g res \<longleftrightarrow> (case res of (r, c', g') \<Rightarrow>
     same_request c c' \<and> prefix (gw_audit g) (gw_audit g') \<and> gw_outbox g' = gw_outbox g \<and> sx_claims c' = sx_claims c
     \<and> set (gw_revocations g') \<subseteq> set (gw_revocations g))"

lemma frame_metrics [simp]:
  "frame c (g\<lparr>gw_metrics := m\<rparr>) res = frame c g res" "frame c (g\<lparr>gw_hashcash := h\<rparr>) res = frame c g res"
  "frame c (gw_emit P now es g) res = frame c g res"
  by (simp_all add: frame_def)

lemma frame_issue_challenge: "frame c g (issue_challenge P e c cl score err g)"
  by (simp add: frame_def issue_challenge_def split: prod.splits)

lemma frame_deny_client: "frame c g (deny_client P e c cl d g)"
proof -
  obtain b g1 where b: "best_effort P e ''mfa_promotion'' (stage_entry c (userId cl) L_deny (sx_trustScore c) None) g = (b, g1)"
    by fastforce
  from best_effort_frame [OF b] b show ?thesis by (cases b) (simp_all add: frame_def deny_client_def)
qed

lemma frame_challenge_client: "frame c g (challenge_client P e c cl g)"
proof -
  let ?g = "g\<lparr>gw_metrics := incrementMfaPromotion False (gw_metrics g)\<rparr>"
  obtain b g1 where b: "best_effort P e ''mfa_promotion'' (stage_entry c (userId cl) L_challenge (sx_trustScore c) None) ?g = (b, g1)"
    by fastforce
  from best_effort_frame [OF b] b show ?thesis
    by (cases b) (auto simp: frame_def challenge_client_def Let_def split: prod.splits)
qed

lemma frame_auth_only: "frame c g (auth_only_stage P e c g)"
proof (cases "isAuthOnlyPath (sx_reqPath c) \<and> sx_claims c \<noteq> None")
  case True
  then obtain cl where cl: "sx_claims c = Some cl" by blast
  obtain b g1 where b: "best_effort P e ''auth_only'' (stage_entry c (userId cl) L_allow None None) g = (b, g1)"
    by fastforce
  from best_effort_frame [OF b] b cl True show ?thesis by (cases b) (auto simp: frame_def auth_only_stage_def)
qed (auto simp: frame_def auth_only_stage_def split: option.splits)

lemma isRevoked_shrinks: "isRevoked now j rv = (b, rv') \<Longrightarrow> set rv' \<subseteq> set rv"
  by (auto simp: isRevoked_def AList.delete_eq split: option.splits if_splits)

lemma frame_revocation: "frame c g (revocation_stage P e c g)"
proof (cases "sx_claims c")
  case (Some cl)
  obtain hit rv where r: "isRevoked (re_now e ''revocation'') (jti cl) (gw_revocations g) = (hit, rv)" by fastforce
  obtain b g1 where b: "best_effort P e ''revocation'' (stage_entry c (userId cl) L_deny None (Some ''REVOCATION_BLOCKED''))
      (g\<lparr>gw_revocations := rv\<rparr>) = (b, g1)" by fastforce
  from best_effort_frame [OF b] b r Some isRevoked_shrinks [OF r] show ?thesis
    by (cases hit; cases b) (auto simp: frame_def revocation_stage_def)
qed (simp add: frame_def revocation_stage_def)

lemma frame_auth:
  assumes "auth_stage P e c g = (r, c', g')"
  shows "same_request c c'" "prefix (gw_audit g) (gw_audit g')" "gw_outbox g' = gw_outbox g"
    "gw_revocations g' = gw_revocations g"
proof -
  obtain b g1 where b: "best_effort P e ''auth'' (stage_entry c ''anonymous'' L_deny None None) g = (b, g1)" by fastforce
  note f = best_effort_frame [OF b]
  show "same_request c c'" "prefix (gw_audit g) (gw_audit g')" "gw_outbox g' = gw_outbox g"
    "gw_revocations g' = gw_revocations g"
    using assms b f(1,2,4)
    by (cases b; auto simp: auth_stage_def same_request_def Let_def split: AuthOutcome.splits)+
qed

lemma frame_trust_score: "frame c g (trust_score_stage P e c g)"
  by (auto simp: frame_def trust_score_stage_def same_request_def Let_def split: option.splits prod.splits)

lemma frame_hashcash: "frame c g (hashcash_stage P e c g)"
  using frame_issue_challenge [of c g P e]
  by (auto simp: hashcash_stage_def Let_def split: option.splits prod.splits VerifyResult.splits
      intro: frame_metrics(2) [THEN iffD1, OF frame_issue_challenge]) (auto simp: frame_def)

lemma frame_policy: "frame c g (policy_stage P e c g)"
  by (auto simp: frame_def policy_stage_def same_request_def split: prod.splits)

lemma frame_mfa_promotion: "frame c g (mfa_promotion_stage P e c g)"
  using frame_deny_client [of c g P e] frame_challenge_client [of c g P e]
    frame_challenge_client [of c "gw_emit P t es g" P e for t es]
  by (auto simp: mfa_promotion_stage_def Let_def split: option.splits prod.splits decision_label.splits MfaValidateResult.splits)
    (auto simp: frame_def)

lemma frame_audit_allow: "frame c g (audit_allow_stage P e c g)"
  by (auto simp: frame_def audit_allow_stage_def Let_def split: option.splits prod.splits log_outcome.splits
      dest: audit_log_prefix)

lemma frame_bopla_strip: "frame c g (bopla_strip_stage P e c g)"
  by (auto simp: frame_def bopla_strip_stage_def same_request_def Let_def split: option.splits sum.splits)

lemma frame_record_trust_context: "frame c g (record_trust_context_stage P e c g)"
  by (auto simp: frame_def record_trust_context_stage_def split: option.splits)

lemma frame_bypasses: "frame c g (public_bypass_stage P e c g)" "frame c g (honeypot_bypass_stage P e c g)"
  by (simp_all add: frame_def public_bypass_stage_def honeypot_bypass_stage_def)

lemma proxy_frame:
  assumes "proxy_stage P e c g = (r, c', g')"
  shows "same_request c c'" "gw_audit g' = gw_audit g" "sx_claims c' = sx_claims c" "gw_revocations g' = gw_revocations g"
    "x \<in> set (gw_outbox g') \<Longrightarrow> x \<in> set (gw_outbox g) \<or> sent_for c x"
proof -
  show "same_request c c'" "gw_audit g' = gw_audit g" "sx_claims c' = sx_claims c" "gw_revocations g' = gw_revocations g"
    using assms by (auto simp: proxy_stage_def same_request_def Let_def split: option.splits prod.splits sum.splits)
  assume x: "x \<in> set (gw_outbox g')"
  show "x \<in> set (gw_outbox g) \<or> sent_for c x"
  proof (cases "x \<in> set (gw_outbox g)")
    case False
    then obtain cl score res ob k where cl: "sx_claims c = Some cl"
        and f: "forward (dp_proxy P) (dp_registry P) (re_net e) (sx_req c) cl score = (res, Some (ob, k))"
        and x': "x = (sx_requestId c, ob, k)"
      using assms x by (auto simp: proxy_stage_def Let_def split: option.splits prod.splits sum.splits)
    have "ob_method ob = req_method (sx_req c)"
      using f by (auto simp: forward_def Let_def split: sum.splits prod.splits if_splits option.splits)
    moreover have "ob_headers ob = buildProxyHeaders (ne_num_str (re_net e)) (headers (sx_req c)) cl score (extractJa4h (sx_req c))"
      using forward_sent [OF f] by blast
    ultimately show ?thesis using cl x' by (simp add: sent_for_def buildProxyHeaders_own)
  qed simp
qed

lemma frameD:
  assumes "frame c g (st P e c g)" and "st P e c g = (r, c', g')"
  shows "same_request c c'" "prefix (gw_audit g) (gw_audit g')" "gw_outbox g' = gw_outbox g" "sx_claims c' = sx_claims c"
    "set (gw_revocations g') \<subseteq> set (gw_revocations g)"
  using assms by (simp_all add: frame_def)

text \<open>Both contracts together, and how a framed stage meets them.\<close>

locale inner_stage = claims_stage stage + quiet_stage stage for stage :: stage

lemma inner_stageI:
  assumes "\<And>P e c g. frame c g (st P e c g)"
  shows "inner_stage st"
  by unfold_locales (use frameD [where st = st, OF assms] in metis)+

interpretation public_bypass: inner_stage public_bypass_stage by (rule inner_stageI) (rule frame_bypasses)
interpretation honeypot_bypass: inner_stage honeypot_bypass_stage by (rule inner_stageI) (rule frame_bypasses)
interpretation auth: quiet_stage auth_stage by unfold_locales (metis frame_auth subset_refl)+
interpretation revocation: inner_stage revocation_stage by (rule inner_stageI) (rule frame_revocation)
interpretation auth_only: inner_stage auth_only_stage by (rule inner_stageI) (rule frame_auth_only)
interpretation trust_score: inner_stage trust_score_stage by (rule inner_stageI) (rule frame_trust_score)
interpretation hashcash: inner_stage hashcash_stage by (rule inner_stageI) (rule frame_hashcash)
interpretation policy: inner_stage policy_stage by (rule inner_stageI) (rule frame_policy)
interpretation mfa_promotion: inner_stage mfa_promotion_stage by (rule inner_stageI) (rule frame_mfa_promotion)
interpretation audit_allow: inner_stage audit_allow_stage by (rule inner_stageI) (rule frame_audit_allow)
interpretation proxy: claims_stage proxy_stage
  by unfold_locales (use proxy_frame in \<open>blast | simp\<close>)+
interpretation bopla_strip: inner_stage bopla_strip_stage by (rule inner_stageI) (rule frame_bopla_strip)
interpretation record_trust_context: inner_stage record_trust_context_stage
  by (rule inner_stageI) (rule frame_record_trust_context)

end
