(* ===== verification/Pipeline_System.thy ===== *)
theory Pipeline_System
  imports Pipeline_Contracts
begin

text \<open>
  Many requests at once: a step relation on the shared state and the requests in flight, each a context with the stages it
  still has to run. A step lets a request arrive, runs the next stage of one request, finishes a request, or changes the
  shared state in any way that keeps the upstream calls and extends the audit trail, as the endpoints and the decoy
  routes do.
\<close>

type_synonym procs = "nat \<Rightarrow> (StageContext \<times> (string \<times> stage) list) option"

inductive sys_step :: "Deps \<Rightarrow> Gateway \<times> procs \<Rightarrow> Gateway \<times> procs \<Rightarrow> bool" for P where
  arrive: "ps n = None \<Longrightarrow> req_method req \<noteq> ''OPTIONS'' \<Longrightarrow>
    sys_step P (g, ps) (g, ps(n \<mapsto> (buildStageContext e req, PIPELINE_STAGES)))"
| proceed: "ps n = Some (c, st # rest) \<Longrightarrow> orchestrator_step P e st c g = (None, c', g') \<Longrightarrow>
    sys_step P (g, ps) (g', ps(n \<mapsto> (c', rest)))"
| finish: "ps n = Some (c, st # rest) \<Longrightarrow> orchestrator_step P e st c g = (Some r, c', g') \<Longrightarrow>
    respond P e r c' g' = (a, g'') \<Longrightarrow> sys_step P (g, ps) (g'', ps(n := None))"
| other: "prefix (gw_audit g) (gw_audit g') \<Longrightarrow> gw_outbox g' = gw_outbox g \<Longrightarrow> sys_step P (g, ps) (g', ps)"

inductive_cases sys_stepE: "sys_step P s s'"

section \<open>Where a stage stands in the pipeline\<close>

lemma append_Cons_split:
  assumes "xs @ y # ys = as @ b # bs"
  shows "(y \<in> set as \<and> set xs \<subseteq> set as) \<or> (xs = as \<and> y = b) \<or> (b \<in> set xs \<and> y \<in> set bs)"
proof -
  from assms consider (shorter) us where "as = xs @ us" "us @ b # bs = y # ys"
    | (longer) us where "xs = as @ us" "us @ y # ys = b # bs"
    by (auto simp: append_eq_append_conv2)
  then show ?thesis by cases (auto simp: Cons_eq_append_conv append_eq_Cons_conv)
qed

definition early_stages :: "(string \<times> stage) list" where
  "early_stages =
     [(''public_bypass'', public_bypass_stage), (''honeypot_bypass'', honeypot_bypass_stage), (''auth'', auth_stage),
      (''revocation'', revocation_stage), (''auth_only'', auth_only_stage), (''trust_score'', trust_score_stage),
      (''hashcash'', hashcash_stage), (''policy'', policy_stage), (''mfa_promotion'', mfa_promotion_stage)]"

definition late_stages :: "(string \<times> stage) list" where
  "late_stages = [(''proxy'', proxy_stage), (''bopla_strip'', bopla_strip_stage),
     (''record_trust_context'', record_trust_context_stage)]"

lemma pipeline_split: "PIPELINE_STAGES = early_stages @ (''audit_allow'', audit_allow_stage) # late_stages"
  by (simp add: PIPELINE_STAGES_def early_stages_def late_stages_def)

lemmas early_contracts = public_bypass.quiet_stage_axioms honeypot_bypass.quiet_stage_axioms auth.quiet_stage_axioms
  revocation.quiet_stage_axioms auth_only.quiet_stage_axioms trust_score.quiet_stage_axioms hashcash.quiet_stage_axioms
  policy.quiet_stage_axioms mfa_promotion.quiet_stage_axioms

lemmas late_contracts = proxy.claims_stage_axioms bopla_strip.claims_stage_axioms record_trust_context.claims_stage_axioms

lemma early_quiet: "\<forall>st \<in> set early_stages. quiet_stage (snd st)" "''audit_allow'' \<notin> fst ` set early_stages"
  by (simp_all add: early_stages_def early_contracts)

lemma stage_at:
  assumes "PIPELINE_STAGES = pre @ st # rest"
  shows "(''audit_allow'' \<notin> fst ` set (pre @ [st]) \<and> quiet_stage (snd st))
    \<or> (''audit_allow'' \<notin> fst ` set pre \<and> snd st = audit_allow_stage)
    \<or> (''audit_allow'' \<in> fst ` set pre \<and> claims_stage (snd st))"
proof -
  consider "st \<in> set early_stages" "set pre \<subseteq> set early_stages"
    | "pre = early_stages" "st = (''audit_allow'', audit_allow_stage)"
    | "(''audit_allow'', audit_allow_stage) \<in> set pre" "st \<in> set late_stages"
    using append_Cons_split [of pre st rest early_stages "(''audit_allow'', audit_allow_stage)" late_stages]
      assms pipeline_split by metis
  then show ?thesis
  proof cases
    case 1
    with early_quiet show ?thesis by auto
  next
    case 2
    with early_quiet show ?thesis by simp
  next
    case 3
    then have "''audit_allow'' \<in> fst ` set pre" "claims_stage (snd st)"
      by (force, auto simp: late_stages_def late_contracts)
    then show ?thesis by blast
  qed
qed

section \<open>The invariant\<close>

lemma allow_row_mono: "allow_row c g \<Longrightarrow> prefix (gw_audit g) (gw_audit g') \<Longrightarrow> allow_row c g'"
  by (auto simp: allow_row_def prefix_def)

lemma audited_mono: "audited g \<Longrightarrow> prefix (gw_audit g) (gw_audit g') \<Longrightarrow> gw_outbox g' = gw_outbox g \<Longrightarrow> audited g'"
  by (fastforce simp: audited_def prefix_def)

lemma respond_frame:
  assumes "respond P e r c g = (a, g')"
  shows "gw_audit g' = gw_audit g" "gw_outbox g' = gw_outbox g"
  using assms
  by (auto simp: respond_def writeOutcome_def handleTerminalError_def split: sum.splits StageOutcome.splits gw_exn.splits if_splits)

lemma orchestrator_step_stage:
  assumes "orchestrator_step P e st c g = (r, c', g')"
  shows "\<exists>res g1. snd st P e c g = (res, c', g1) \<and> gw_audit g' = gw_audit g1 \<and> gw_outbox g' = gw_outbox g1
    \<and> (r = None \<longleftrightarrow> res = Ret Continue)"
  using assms by (auto simp: orchestrator_step_def split: prod.splits stage_result.splits if_splits)

lemma audit_allow_writes_row:
  assumes "audit_allow_stage P e c g = (Ret Continue, c', g')"
  shows "allow_row c' g'"
proof -
  obtain cl where cl: "sx_claims c = Some cl"
    using assms by (cases "sx_claims c") (auto simp: audit_allow_stage_def)
  obtain out logs t es where a: "audit_log (dp_audit P) (re_insert e ''audit_allow'') (allow_entry c cl) (gw_audit g) = (out, logs, t, es)"
    by (metis prod_cases4)
  have allow: "ae_decision (allow_entry c cl) = L_allow" by (simp add: allow_entry_def stage_entry_def)
  have out: "out = Logged" using assms cl a by (cases out) (auto simp: audit_allow_stage_def)
  then have "\<exists>k < nat (walMaxRetries (dp_audit P)). ie_result (re_insert e ''audit_allow'') k = Stored"
    using audit_exhausted_iff [OF allow, of "dp_audit P" "re_insert e ''audit_allow''" "gw_audit g"] a by auto
  from wal_success [OF this, of "walBaseDelayMs (dp_audit P)" "allow_entry c cl" "gw_audit g"]
  obtain new where new: "logs = gw_audit g @ new" "new \<noteq> []" "\<forall>l \<in> set new. al_entry l = allow_entry c cl"
    using a by (auto simp: audit_log_def writeBlocking_def allow)
  then have "hd new \<in> set logs" "al_entry (hd new) = allow_entry c cl" by simp_all
  moreover have "c' = c" "gw_audit g' = logs"
    using assms cl a out by (auto simp: audit_allow_stage_def Let_def)
  ultimately show ?thesis using cl
    by (auto simp: allow_row_def allow_entry_def stage_entry_def intro!: bexI [of _ "hd new"])
qed

definition proc_ok :: "Gateway \<Rightarrow> StageContext \<times> (string \<times> stage) list \<Rightarrow> bool" where
  "proc_ok g p \<longleftrightarrow> (\<exists>pre. PIPELINE_STAGES = pre @ snd p \<and> (''audit_allow'' \<in> fst ` set pre \<longrightarrow> allow_row (fst p) g))"

definition sys_inv :: "Gateway \<times> procs \<Rightarrow> bool" where
  "sys_inv s \<longleftrightarrow> audited (fst s) \<and> (\<forall>n p. snd s n = Some p \<longrightarrow> proc_ok (fst s) p)"

lemma proc_okI:
  assumes "PIPELINE_STAGES = pre @ rest" and "''audit_allow'' \<in> fst ` set pre \<Longrightarrow> allow_row c g"
  shows "proc_ok g (c, rest)"
  using assms by (auto simp: proc_ok_def)

lemma proc_ok_mono: "proc_ok g p \<Longrightarrow> prefix (gw_audit g) (gw_audit g') \<Longrightarrow> proc_ok g' p"
  by (auto simp: proc_ok_def intro: allow_row_mono)

text \<open>One round of one request, from the contracts of its stage.\<close>

lemma step_keeps:
  assumes "orchestrator_step P e st c g = (r, c', g')" and "audited g" and "proc_ok g (c, st # rest)"
  shows "audited g'" "prefix (gw_audit g) (gw_audit g')" "r = None \<Longrightarrow> proc_ok g' (c', rest)"
proof -
  obtain pre where d: "PIPELINE_STAGES = pre @ st # rest" and row: "''audit_allow'' \<in> fst ` set pre \<longrightarrow> allow_row c g"
    using assms(3) by (auto simp: proc_ok_def)
  obtain res g1 where s: "snd st P e c g = (res, c', g1)" and g1: "gw_audit g' = gw_audit g1" "gw_outbox g' = gw_outbox g1"
      and r: "r = None \<longleftrightarrow> res = Ret Continue"
    using orchestrator_step_stage [OF assms(1)] by blast
  have lift: "audited g1 \<Longrightarrow> audited g'" "allow_row c' g1 \<Longrightarrow> allow_row c' g'"
    using g1 by (auto simp: audited_def allow_row_def)
  have d': "PIPELINE_STAGES = (pre @ [st]) @ rest" using d by simp
  from stage_at [OF d] consider
      (early) "''audit_allow'' \<notin> fst ` set (pre @ [st])" "quiet_stage (snd st)"
    | (here) "snd st = audit_allow_stage"
    | (late) "''audit_allow'' \<in> fst ` set pre" "claims_stage (snd st)" by blast
  then have "audited g' \<and> prefix (gw_audit g) (gw_audit g') \<and> (r = None \<longrightarrow> proc_ok g' (c', rest))"
  proof cases
    case early
    from quiet_stage.audited_kept [OF early(2) s assms(2)] stage_contract.trail_grows [OF quiet_stage.axioms(1) [OF early(2)] s]
    show ?thesis using early(1) g1 lift(1) proc_okI [OF d'] by auto
  next
    case here
    note s' = s [unfolded here]
    from audit_allow.audited_kept [OF s' assms(2)] audit_allow.trail_grows [OF s']
    show ?thesis using audit_allow_writes_row s' r g1 lift proc_okI [OF d'] by auto
  next
    case late
    have c: "allow_row c g" using late(1) row by blast
    note contract = claims_stage.axioms(1) [OF late(2)]
    from stage_contract.audited_if_row [OF contract s assms(2) c] claims_stage.allow_row_kept [OF late(2) s c]
      stage_contract.trail_grows [OF contract s]
    show ?thesis using g1 lift proc_okI [OF d'] by auto
  qed
  then show "audited g'" "prefix (gw_audit g) (gw_audit g')" "r = None \<Longrightarrow> proc_ok g' (c', rest)" by blast+
qed

lemma sys_inv_step:
  assumes "sys_step P s s'" and "sys_inv s"
  shows "sys_inv s'"
  using assms
proof cases
  case (arrive ps n req g e)
  then show ?thesis using assms(2) by (auto simp: sys_inv_def proc_ok_def)
next
  case (proceed ps n c st rest e g c' g')
  then have "audited g" "proc_ok g (c, st # rest)" using assms(2) by (auto simp: sys_inv_def)
  note k = step_keeps [OF proceed(4) this]
  from proceed assms(2) k show ?thesis by (auto simp: sys_inv_def intro: proc_ok_mono)
next
  case (finish ps n c st rest e g r c' g' a g'')
  then have "audited g" "proc_ok g (c, st # rest)" using assms(2) by (auto simp: sys_inv_def)
  note k = step_keeps [OF finish(4) this]
  note f = respond_frame [OF finish(5)]
  have "audited g''" using k(1) f by (auto simp: audited_def)
  moreover have "prefix (gw_audit g) (gw_audit g'')" using k(2) f by simp
  ultimately show ?thesis using finish assms(2) by (auto simp: sys_inv_def intro: proc_ok_mono)
next
  case (other g g' ps)
  then show ?thesis using assms(2) by (auto simp: sys_inv_def intro: audited_mono proc_ok_mono)
qed

lemma reachable_audited:
  assumes "(sys_step P)\<^sup>*\<^sup>* (g0, Map.empty) (g, ps)" and "gw_outbox g0 = []"
  shows "audited g"
proof -
  have "sys_inv (g0, Map.empty)" using assms(2) by (simp add: sys_inv_def audited_def)
  with assms(1) have "sys_inv (g, ps)" by (induction rule: rtranclp_induct) (auto intro: sys_inv_step)
  then show ?thesis by (simp add: sys_inv_def)
qed

text \<open>Whatever a stage returns, the system has a step with its effect on the trail and the upstream calls.\<close>

lemma sys_step_exists:
  assumes "ps n = Some (c, st # rest)" and "orchestrator_step P e st c g = (r, c', g')"
  shows "\<exists>g'' ps'. sys_step P (g, ps) (g'', ps') \<and> gw_audit g'' = gw_audit g' \<and> gw_outbox g'' = gw_outbox g'"
proof (cases r)
  case None
  then show ?thesis using sys_step.proceed [of ps n, OF assms(1)] assms(2) by blast
next
  case (Some x)
  obtain a g'' where a: "respond P e x c' g' = (a, g'')" by fastforce
  have "sys_step P (g, ps) (g'', ps(n := None))"
    using sys_step.finish [of ps n, OF assms(1) _ a] assms(2) Some by simp
  with respond_frame [OF a] show ?thesis by blast
qed

end
