(* ===== verification/Mfa_Histories.thy ===== *)
theory Mfa_Histories
  imports Mfa "HOL-Library.Countable"
begin

text \<open>
  The behaviour of the multi-factor service over histories of calls: which operation changes which table, where
  token rows come from, how many challenges a user gets per window and how many wrong codes an
  enrolment survives; then the properties of the component. Histories start from the empty state and
  run every state-changing call, the mint of the demonstration endpoint included, in any order and under any surroundings.
\<close>

section \<open>Histories\<close>

text \<open>
  Every call that changes the state, with the surroundings it ran in; \<open>mfa_run\<close> plays a history from the empty state.
\<close>

datatype mfa_op =
    MCreate mfa_env string string "string option"
  | MVerify mfa_env string string string string string "string option"
  | MRevoke ms string
  | MEnroll mfa_env string "string option"
  | MConfirm mfa_env string string string "string option" "string option"
  | MDelete mfa_env string
  | MDemoMint mfa_env string string string

fun mfa_apply :: "mfa_lib \<Rightarrow> MfaConfig \<Rightarrow> mfa_op \<Rightarrow> Mfa \<Rightarrow> Mfa" where
  "mfa_apply lib cfg (MCreate env uid ip ja) st = fst (snd (createChallenge cfg env uid ip ja st))"
| "mfa_apply lib cfg (MVerify env cid code uid ip did ja) st = fst (snd (verifyTotp lib cfg env cid code uid ip did ja st))"
| "mfa_apply lib cfg (MRevoke now j) st = revokeMfaToken now j st"
| "mfa_apply lib cfg (MEnroll env uid em) st = fst (snd (createEnrollment cfg env uid em st))"
| "mfa_apply lib cfg (MConfirm env i code uid ip ja) st = fst (snd (confirmEnrollment lib cfg env i code uid ip ja st))"
| "mfa_apply lib cfg (MDelete env uid) st = fst (snd (deleteEnrollment env uid st))"
| "mfa_apply lib cfg (MDemoMint env uid did ip) st = snd (mintDemoMfaToken lib cfg env uid did ip st)"

definition mfa_run :: "mfa_lib \<Rightarrow> MfaConfig \<Rightarrow> mfa_op list \<Rightarrow> Mfa" where
  "mfa_run lib cfg ops = fold (mfa_apply lib cfg) ops empty_mfa"

lemma mfa_run_Nil [simp]: "mfa_run lib cfg [] = empty_mfa"
  by (simp add: mfa_run_def)

lemma mfa_run_snoc [simp]: "mfa_run lib cfg (ops @ [x]) = mfa_apply lib cfg x (mfa_run lib cfg ops)"
  by (simp add: mfa_run_def)

text \<open>Which operation touches which table.\<close>

lemma createChallenge_frame:
  "createChallenge cfg env uid ip ja st = (r, st', es) \<Longrightarrow>
    mf_tokens st' = mf_tokens st \<and> mf_secrets st' = mf_secrets st \<and> mf_pending st' = mf_pending st"
  by (auto simp: createChallenge_def insertChallengeIfUnderLimit_def Let_def split: if_splits)

lemma mint_token_frame:
  "mint_token lib cfg env uid did ip st = (r, st') \<Longrightarrow>
    mf_challenges st' = mf_challenges st \<and> mf_secrets st' = mf_secrets st \<and> mf_pending st' = mf_pending st"
  by (auto simp: mint_token_def insertMfaToken_def Let_def split: if_splits)

lemma mint_token_None: "mint_token lib cfg env uid did ip st = (None, st') \<Longrightarrow> st' = st"
  by (auto simp: mint_token_def insertMfaToken_def Let_def split: if_splits)

lemma verifyTotp_cases:
  assumes "verifyTotp lib cfg env cid code uid ip did ja st = (r, st', es)"
  obtains (ok) c enc secret tok expiry where "getChallenge env cid st = Some (Some c)" "en_now env \<le> ch_expires c"
      "map_of (mf_secrets st) uid = Some enc" "aesGcmDecrypt (ml_gcm lib) enc (totpEncryptionKey cfg) = Some secret"
      "totp_verify (ml_hmac lib) (en_now env) code secret = Inr True"
      "mint_token lib cfg env uid did ip st = (Some (tok, expiry), st')" "r = VerifyOk tok expiry" "es = []"
  | (fail) reason where "r = VerifyFail reason" "mf_tokens st' = mf_tokens st" "mf_challenges st' = mf_challenges st"
      "mf_secrets st' = mf_secrets st" "mf_pending st' = mf_pending st"
  using assms ok fail
  by (auto simp: verifyTotp_def getEncryptedSecret_def nullish_def Let_def
      split: option.splits if_splits sum.splits bool.splits prod.splits dest: mint_token_None)

lemma createEnrollment_frame:
  "createEnrollment cfg env uid em st = (r, st', es) \<Longrightarrow>
    mf_tokens st' = mf_tokens st \<and> mf_secrets st' = mf_secrets st \<and> mf_challenges st' = mf_challenges st"
  by (auto simp: createEnrollment_def Let_def split: if_splits option.splits prod.splits)

lemma reject_code_frame:
  "reject_code env i uid ip ja st = (r, st', es) \<Longrightarrow>
    mf_tokens st' = mf_tokens st \<and> mf_secrets st' = mf_secrets st \<and> mf_challenges st' = mf_challenges st
    \<and> r = ConfirmFail Invalid_totp"
  by (auto simp: reject_code_def Let_def split: if_splits option.splits prod.splits)

lemma confirmEnrollment_frame:
  assumes "confirmEnrollment lib cfg env i code uid ip ja st = (r, st', es)"
  shows "mf_tokens st' = mf_tokens st \<and> mf_challenges st' = mf_challenges st"
  using assms reject_code_frame
  by (fastforce simp: confirmEnrollment_def save_secret_def Let_def
      split: if_splits option.splits prod.splits sum.splits bool.splits)

lemma deleteEnrollment_frame:
  "deleteEnrollment env uid st = (r, st', es) \<Longrightarrow>
    mf_tokens st' = mf_tokens st \<and> mf_challenges st' = mf_challenges st \<and> mf_pending st' = mf_pending st"
  by (auto simp: deleteEnrollment_def deleteByUserId_def split: if_splits)

lemma revokeMfaToken_frame [simp]:
  "mf_challenges (revokeMfaToken now j st) = mf_challenges st"
  "mf_secrets (revokeMfaToken now j st) = mf_secrets st"
  "mf_pending (revokeMfaToken now j st) = mf_pending st"
  by (simp_all add: revokeMfaToken_def)

lemma mint_token_row:
  assumes "mint_token lib cfg env uid did ip st = (Some (tok, expiry), st')"
  shows "\<exists>j. mf_tokens st' = mf_tokens st @ [token_row env j uid (ml_sha256 lib (fingerprint_text uid did ip)) expiry]
    \<and> j \<notin> tk_jti ` set (mf_tokens st) \<and> expiry = en_now env + tokenTtlMs cfg
    \<and> (en_uuid env 0 \<notin> tk_jti ` set (mf_tokens st) \<longrightarrow> j = en_uuid env 0)"
  using assms by (auto simp: mint_token_def insertMfaToken_def Let_def split: if_splits)

section \<open>Where token rows come from\<close>

text \<open>
  The two ways to a token: a verification that succeeds, and the mint of the demonstration endpoint.
\<close>

definition mints :: "mfa_lib \<Rightarrow> MfaConfig \<Rightarrow> Mfa \<Rightarrow> mfa_op \<Rightarrow> mfa_env \<Rightarrow> string \<Rightarrow> string \<Rightarrow> string \<Rightarrow> bool" where
  "mints lib cfg st x env uid did ip \<longleftrightarrow>
     (\<exists>cid code ja tok expiry. x = MVerify env cid code uid ip did ja
        \<and> fst (verifyTotp lib cfg env cid code uid ip did ja st) = VerifyOk tok expiry)
   \<or> x = MDemoMint env uid did ip \<and> fst (mintDemoMfaToken lib cfg env uid did ip st) \<noteq> None"

definition minted_by :: "mfa_lib \<Rightarrow> MfaConfig \<Rightarrow> mfa_op list \<Rightarrow> MfaTokenRow \<Rightarrow> bool" where
  "minted_by lib cfg ops row \<longleftrightarrow>
     (\<exists>pre x post env uid did ip. ops = pre @ x # post \<and> mints lib cfg (mfa_run lib cfg pre) x env uid did ip
        \<and> tk_fingerprintHash row = ml_sha256 lib (fingerprint_text uid did ip)
        \<and> tk_expiresAt row = en_now env + tokenTtlMs cfg)"

lemma minted_by_snoc:
  assumes "minted_by lib cfg ops row"
  shows "minted_by lib cfg (ops @ [y]) row"
proof -
  obtain pre x post env uid did ip where h: "ops = pre @ x # post" "mints lib cfg (mfa_run lib cfg pre) x env uid did ip"
    "tk_fingerprintHash row = ml_sha256 lib (fingerprint_text uid did ip)" "tk_expiresAt row = en_now env + tokenTtlMs cfg"
    using assms by (auto simp: minted_by_def)
  then have "ops @ [y] = pre @ x # (post @ [y])" by simp
  with h show ?thesis unfolding minted_by_def by blast
qed

lemma minted_by_last:
  assumes "mints lib cfg (mfa_run lib cfg ops) x env uid did ip" and "mint_token lib cfg env uid did ip (mfa_run lib cfg ops) = (Some (tok, expiry), st')"
    and "row \<in> set (mf_tokens st')" and "row \<notin> set (mf_tokens (mfa_run lib cfg ops))"
  shows "minted_by lib cfg (ops @ [x]) row"
proof -
  from mint_token_row [OF assms(2)] obtain j where
    "mf_tokens st' = mf_tokens (mfa_run lib cfg ops) @ [token_row env j uid (ml_sha256 lib (fingerprint_text uid did ip)) expiry]"
    "expiry = en_now env + tokenTtlMs cfg" by blast
  then have "row = token_row env j uid (ml_sha256 lib (fingerprint_text uid did ip)) (en_now env + tokenTtlMs cfg)"
    using assms(3,4) by simp
  then have "tk_fingerprintHash row = ml_sha256 lib (fingerprint_text uid did ip)" "tk_expiresAt row = en_now env + tokenTtlMs cfg"
    by (simp_all add: token_row_def)
  with assms(1) show ?thesis unfolding minted_by_def by blast
qed

lemma minted_by_revoked [simp]: "minted_by lib cfg ops (row\<lparr>tk_revokedAt := v\<rparr>) = minted_by lib cfg ops row"
  by (simp add: minted_by_def)

lemma tokens_minted: "row \<in> set (mf_tokens (mfa_run lib cfg ops)) \<Longrightarrow> minted_by lib cfg ops row"
proof (induction ops arbitrary: row rule: rev_induct)
  case Nil
  then show ?case by (simp add: empty_mfa_def)
next
  case (snoc x ops)
  let ?st = "mfa_run lib cfg ops"
  have old: "minted_by lib cfg (ops @ [x]) row" if "row \<in> set (mf_tokens ?st)"
    using snoc.IH [OF that] by (rule minted_by_snoc)
  show ?case
  proof (cases x)
    case (MVerify env cid code uid ip did ja)
    obtain r st' es where v: "verifyTotp lib cfg env cid code uid ip did ja ?st = (r, st', es)"
      by (metis prod_cases3)
    then have row: "row \<in> set (mf_tokens st')" using snoc.prems MVerify by simp
    from v show ?thesis
    proof (cases rule: verifyTotp_cases)
      case (ok c enc secret tok expiry)
      then have "mints lib cfg ?st x env uid did ip" using MVerify v by (simp add: mints_def)
      then show ?thesis using minted_by_last [OF _ ok(6)] old row by blast
    next
      case (fail reason)
      then show ?thesis using row old by simp
    qed
  next
    case (MDemoMint env uid did ip)
    obtain r st' where m: "mint_token lib cfg env uid did ip ?st = (r, st')" by fastforce
    then have row: "row \<in> set (mf_tokens st')" using snoc.prems MDemoMint by (simp add: mintDemoMfaToken_def)
    show ?thesis
    proof (cases r)
      case None
      then show ?thesis using m row old mint_token_None by blast
    next
      case (Some p)
      then have "mints lib cfg ?st x env uid did ip" using MDemoMint m by (simp add: mints_def mintDemoMfaToken_def)
      then show ?thesis using minted_by_last [of lib cfg ops x env uid did ip "fst p" "snd p" st' row] m Some old row by auto
    qed
  next
    case (MRevoke now j)
    then obtain row' where "row' \<in> set (mf_tokens ?st)" "row = row' \<or> row = row'\<lparr>tk_revokedAt := Some now\<rparr>"
      using snoc.prems by (auto simp: revokeMfaToken_def)
    then show ?thesis using minted_by_snoc [OF snoc.IH] by auto
  next
    case (MCreate env uid ip ja)
    then show ?thesis using snoc.prems old createChallenge_frame by (metis mfa_apply.simps(1) mfa_run_snoc prod.collapse)
  next
    case (MEnroll env uid em)
    then show ?thesis using snoc.prems old createEnrollment_frame by (metis mfa_apply.simps(4) mfa_run_snoc prod.collapse)
  next
    case (MConfirm env i code uid ip ja)
    then show ?thesis using snoc.prems old confirmEnrollment_frame by (metis mfa_apply.simps(5) mfa_run_snoc prod.collapse)
  next
    case (MDelete env uid)
    then show ?thesis using snoc.prems old deleteEnrollment_frame by (metis mfa_apply.simps(6) mfa_run_snoc prod.collapse)
  qed
qed

lemma validateMfaToken_Ok:
  assumes "validateMfaToken lib cfg env tok uid did ip ja st = (ValidateOk c, es)"
  shows "\<exists>row \<in> set (mf_tokens st). tk_jti row = mt_jti c \<and> tk_revokedAt row = None \<and> en_now env < tk_expiresAt row
    \<and> tk_fingerprintHash row = ml_sha256 lib (fingerprint_text uid did ip)
    \<and> ml_verify lib (mfa_jwtSecret cfg) (en_now env) tok = Some c \<and> mt_typ c = ''mfa''"
  using assms
  by (auto simp: validateMfaToken_def getMfaTokenWithStatus_def Let_def find_Some_iff
      split: option.splits if_splits)

section \<open>Challenges\<close>

text \<open>Rows of a user created within one window that ends at \<open>t\<close>.\<close>

definition in_window :: "int \<Rightarrow> ms \<Rightarrow> string \<Rightarrow> Challenge list \<Rightarrow> nat" where
  "in_window window t uid cs = length (filter (\<lambda>c. ch_user c = uid \<and> t - window < ch_created c \<and> ch_created c \<le> t) cs)"

text \<open>A row admitted by the count of recent rows keeps the bound of every window.\<close>

lemma in_window_snoc:
  assumes "int (in_window w t uid cs) \<le> max 0 mx" and "int (recent (ch_created c) w (ch_user c) cs) < mx"
  shows "int (in_window w t uid (cs @ [c])) \<le> max 0 mx"
proof (cases "ch_user c = uid \<and> ch_created c \<le> t")
  case True
  have "in_window w t uid cs \<le> recent (ch_created c) w uid cs"
    unfolding in_window_def recent_def length_filter_conv_card
    by (rule card_mono) (use True in auto)
  with True assms(2) show ?thesis by (simp add: in_window_def)
next
  case False
  then have "in_window w t uid (cs @ [c]) = in_window w t uid cs" by (auto simp: in_window_def)
  with assms(1) show ?thesis by simp
qed

lemma mfa_apply_challenges:
  "mf_challenges (mfa_apply lib cfg x st) = mf_challenges st \<or>
     (\<exists>env uid ip ja. x = MCreate env uid ip ja
        \<and> int (recent (en_now env) (mfa_rateLimitWindowMs cfg) uid (mf_challenges st)) < mfa_rateLimitMax cfg
        \<and> mf_challenges (mfa_apply lib cfg x st) = mf_challenges st @
            [\<lparr>ch_id = en_uuid env 0, ch_user = uid, ch_created = en_now env, ch_expires = en_now env + challengeTtlMs cfg\<rparr>])"
proof (cases x)
  case (MCreate env uid ip ja)
  then show ?thesis
    by (auto simp: createChallenge_def insertChallengeIfUnderLimit_def Let_def split: if_splits)
next
  case (MVerify env cid code uid ip did ja)
  obtain r st' es where v: "verifyTotp lib cfg env cid code uid ip did ja st = (r, st', es)" by (metis prod_cases3)
  then have "mf_challenges st' = mf_challenges st"
    by (cases rule: verifyTotp_cases) (auto dest: mint_token_frame)
  then show ?thesis using MVerify v by simp
next
  case (MEnroll env uid em)
  then show ?thesis using createEnrollment_frame by (metis mfa_apply.simps(4) prod.collapse)
next
  case (MConfirm env i code uid ip ja)
  then show ?thesis using confirmEnrollment_frame by (metis mfa_apply.simps(5) prod.collapse)
next
  case (MDelete env uid)
  then show ?thesis using deleteEnrollment_frame by (metis mfa_apply.simps(6) prod.collapse)
next
  case (MDemoMint env uid did ip)
  then show ?thesis using mint_token_frame by (metis mfa_apply.simps(7) mintDemoMfaToken_def prod.collapse)
qed simp

section \<open>Pending enrolments\<close>

definition pending_inv :: "pendings \<Rightarrow> bool" where
  "pending_inv ps \<longleftrightarrow> jsmap_wf ps \<and> (\<forall>(i, e) \<in> set ps. pn_attempts e < ENROLL_MAX_ATTEMPTS)"

lemma hasPending_subset: "set (snd (hasPendingForUser now uid ps)) \<subseteq> set ps"
proof (induction ps)
  case (Cons p ps)
  obtain i e where "p = (i, e)" by fastforce
  with Cons show ?case by (cases "hasPendingForUser now uid ps") auto
qed simp

lemma hasPending_wf: "jsmap_wf ps \<Longrightarrow> jsmap_wf (snd (hasPendingForUser now uid ps))"
proof (induction ps)
  case (Cons p ps)
  obtain i e where p: "p = (i, e)" by fastforce
  have "fst ` set (snd (hasPendingForUser now uid ps)) \<subseteq> fst ` set ps"
    using hasPending_subset by (metis image_mono)
  with Cons p show ?case by (cases "hasPendingForUser now uid ps") (auto dest: subsetD)
qed simp

lemma set_AList_update: "set (AList.update k v m) \<subseteq> insert (k, v) (set m)"
  by (induction m) auto

lemma set_AList_delete: "set (AList.delete k m) \<subseteq> set m"
  by (auto simp: AList.delete_eq)

lemma pending_inv_update:
  "pending_inv ps \<Longrightarrow> pn_attempts e < ENROLL_MAX_ATTEMPTS \<Longrightarrow> pending_inv (AList.update i e ps)"
  using set_AList_update [of i e ps] by (fastforce simp: pending_inv_def intro: jsmap_wf_update)

lemma pending_inv_delete: "pending_inv ps \<Longrightarrow> pending_inv (AList.delete i ps)"
  using set_AList_delete [of i ps] by (fastforce simp: pending_inv_def intro: jsmap_wf_delete)

lemma pending_inv_get: "pending_inv ps \<Longrightarrow> pending_inv (snd (pending_get now i ps))"
  by (auto simp: pending_get_def intro: pending_inv_delete split: option.splits)

lemma pending_inv_sweep: "pending_inv ps \<Longrightarrow> pending_inv (snd (hasPendingForUser now uid ps))"
  using hasPending_subset [of now uid ps] hasPending_wf [of ps now uid] unfolding pending_inv_def by blast

lemma pending_inv_entry: "pending_inv ps \<Longrightarrow> map_of ps i = Some e \<Longrightarrow> pn_attempts e < ENROLL_MAX_ATTEMPTS"
  by (fastforce simp: pending_inv_def dest: map_of_SomeD)

text \<open>What the operations do to the pending entries.\<close>

lemma createEnrollment_pending:
  assumes "createEnrollment cfg env uid em st = (r, st', es)"
  shows "mf_pending st' = snd (hasPendingForUser (en_now env) uid (mf_pending st)) \<or>
    mf_pending st' = pending_set cfg (en_now env) (en_uuid env 0) uid (generateSecret (en_secret env))
       (snd (hasPendingForUser (en_now env) uid (mf_pending st)))"
  using assms by (auto simp: createEnrollment_def Let_def split: if_splits option.splits prod.splits)

lemma reject_code_pending:
  assumes "reject_code env i uid ip ja st = (r, st', es)" and "map_of (mf_pending st) i = Some e"
  shows "mf_pending st' =
    (if ENROLL_MAX_ATTEMPTS \<le> pn_attempts e + 1 then AList.delete i (AList.update i (e\<lparr>pn_attempts := pn_attempts e + 1\<rparr>) (mf_pending st))
     else AList.update i (e\<lparr>pn_attempts := pn_attempts e + 1\<rparr>) (mf_pending st))"
  using assms by (auto simp: reject_code_def incrementAttempts_def pending_delete_def Let_def split: if_splits)

lemma confirmEnrollment_pending:
  assumes "confirmEnrollment lib cfg env i code uid ip ja st = (r, st', es)"
  obtains (rejected) e where "map_of (mf_pending st) i = Some e" "en_now env < pn_expiresAt e" "r = ConfirmFail Invalid_totp"
      "reject_code env i uid ip ja st = (r, st', es)"
  | (same) "r \<noteq> ConfirmFail Invalid_totp" "mf_pending st' = snd (pending_get (en_now env) i (mf_pending st))"
  | (dropped) "r = ConfirmOk" "mf_pending st' = AList.delete i (snd (pending_get (en_now env) i (mf_pending st)))"
proof -
  have id: "st\<lparr>mf_pending := mf_pending st\<rparr> = st" by simp
  show thesis
  proof (cases "fst (pending_get (en_now env) i (mf_pending st))")
    case None
    then show thesis using assms same
      by (auto simp: confirmEnrollment_def Let_def split: prod.splits)
  next
    case (Some e)
    then have e: "map_of (mf_pending st) i = Some e" "en_now env < pn_expiresAt e"
        "pending_get (en_now env) i (mf_pending st) = (Some e, mf_pending st)"
      by (auto simp: pending_get_def split: option.splits if_splits)
    show thesis
    proof (cases "pn_userId e = uid \<and> totp_verify (ml_hmac lib) (en_now env) code (pn_secret e) = Inr False")
      case True
      then have "reject_code env i uid ip ja st = (r, st', es)"
        using assms e by (simp add: confirmEnrollment_def Let_def)
      then show thesis using rejected e reject_code_frame by blast
    next
      case False
      then show thesis using assms e same dropped
        by (auto simp: confirmEnrollment_def Let_def save_secret_def pending_delete_def
            split: if_splits sum.splits bool.splits option.splits)
    qed
  qed
qed

text \<open>The guesses a pending enrolment still allows.\<close>

definition guesses_left :: "string \<Rightarrow> Mfa \<Rightarrow> nat" where
  "guesses_left i st = (case map_of (mf_pending st) i of None \<Rightarrow> 0 | Some e \<Rightarrow> ENROLL_MAX_ATTEMPTS - pn_attempts e)"

fun is_guess :: "mfa_lib \<Rightarrow> MfaConfig \<Rightarrow> string \<Rightarrow> mfa_op \<Rightarrow> Mfa \<Rightarrow> bool" where
  "is_guess lib cfg i (MConfirm env i' code uid ip ja) st =
     (i' = i \<and> fst (confirmEnrollment lib cfg env i' code uid ip ja st) = ConfirmFail Invalid_totp)"
| "is_guess lib cfg i _ st = False"

fun guesses :: "mfa_lib \<Rightarrow> MfaConfig \<Rightarrow> string \<Rightarrow> mfa_op list \<Rightarrow> Mfa \<Rightarrow> nat" where
  "guesses lib cfg i [] st = 0"
| "guesses lib cfg i (x # xs) st = of_bool (is_guess lib cfg i x st) + guesses lib cfg i xs (mfa_apply lib cfg x st)"

fun reissues :: "string \<Rightarrow> mfa_op \<Rightarrow> bool" where
  "reissues i (MEnroll env uid em) = (en_uuid env 0 = i)"
| "reissues i _ = False"

lemma map_of_sweep:
  assumes "jsmap_wf ps"
  shows "map_of (snd (hasPendingForUser now uid ps)) i = map_of ps i \<or> map_of (snd (hasPendingForUser now uid ps)) i = None"
proof (cases "map_of (snd (hasPendingForUser now uid ps)) i")
  case (Some e)
  then have "(i, e) \<in> set ps" using hasPending_subset [of now uid ps] map_of_SomeD by fast
  with assms Some show ?thesis by simp
qed simp

lemma guesses_left_drop:
  "map_of (mf_pending st') i = map_of (mf_pending st) i \<or> map_of (mf_pending st') i = None \<Longrightarrow>
    guesses_left i st' \<le> guesses_left i st"
  by (auto simp: guesses_left_def)

lemma delete_update_same: "AList.delete k (AList.update k v m) = AList.delete k m"
  by (induction m) auto

lemma confirm_step:
  assumes inv: "pending_inv (mf_pending st)" and c: "confirmEnrollment lib cfg env i' code uid ip ja st = (r, st', es)"
  shows "pending_inv (mf_pending st') \<and>
    guesses_left i st' + of_bool (i' = i \<and> r = ConfirmFail Invalid_totp) \<le> guesses_left i st"
  using c
proof (cases rule: confirmEnrollment_pending)
  case (rejected e)
  note p = reject_code_pending [OF rejected(4,1)]
  have lt: "pn_attempts e < ENROLL_MAX_ATTEMPTS" using inv rejected(1) by (rule pending_inv_entry)
  show ?thesis
  proof (cases "ENROLL_MAX_ATTEMPTS \<le> pn_attempts e + 1")
    case True
    then have "mf_pending st' = AList.delete i' (mf_pending st)"
      using p by (simp add: delete_update_same)
    then show ?thesis using inv rejected(1) lt
      by (auto simp: guesses_left_def intro: pending_inv_delete)
  next
    case False
    then show ?thesis using p inv rejected(1) lt
      by (auto simp: guesses_left_def intro!: pending_inv_update)
  qed
next
  case same
  then show ?thesis using inv pending_inv_get [OF inv]
    by (auto simp: guesses_left_def pending_get_def split: option.splits if_splits)
next
  case dropped
  then show ?thesis using inv pending_inv_get [OF inv]
    by (auto simp: guesses_left_def pending_get_def intro: pending_inv_delete split: option.splits if_splits)
qed

lemma enroll_step:
  assumes inv: "pending_inv (mf_pending st)" and c: "createEnrollment cfg env uid em st = (r, st', es)"
  shows "pending_inv (mf_pending st') \<and> (en_uuid env 0 \<noteq> i \<longrightarrow> guesses_left i st' \<le> guesses_left i st)"
proof -
  have wf: "jsmap_wf (mf_pending st)" using inv by (simp add: pending_inv_def)
  note sweep = map_of_sweep [OF wf, of "en_now env" uid i] pending_inv_sweep [OF inv, of "en_now env" uid]
  from createEnrollment_pending [OF c] show ?thesis
  proof
    assume "mf_pending st' = snd (hasPendingForUser (en_now env) uid (mf_pending st))"
    then show ?thesis using sweep guesses_left_drop by metis
  next
    assume p: "mf_pending st' = pending_set cfg (en_now env) (en_uuid env 0) uid (generateSecret (en_secret env))
       (snd (hasPendingForUser (en_now env) uid (mf_pending st)))"
    then have "pending_inv (mf_pending st')"
      using sweep(2) by (auto simp: pending_set_def ENROLL_MAX_ATTEMPTS_def intro!: pending_inv_update)
    moreover have "guesses_left i st' \<le> guesses_left i st" if "en_uuid env 0 \<noteq> i"
      using that p sweep(1) by (intro guesses_left_drop) (auto simp: pending_set_def)
    ultimately show ?thesis by blast
  qed
qed

lemma guess_step:
  assumes inv: "pending_inv (mf_pending st)"
  shows "pending_inv (mf_pending (mfa_apply lib cfg x st)) \<and>
    (\<not> reissues i x \<longrightarrow> guesses_left i (mfa_apply lib cfg x st) + of_bool (is_guess lib cfg i x st) \<le> guesses_left i st)"
proof (cases x)
  case (MConfirm env i' code uid ip ja)
  then show ?thesis using confirm_step [OF inv, of lib cfg env i' code uid ip ja]
    by (cases "confirmEnrollment lib cfg env i' code uid ip ja st") auto
next
  case (MEnroll env uid em)
  then show ?thesis using enroll_step [OF inv, of cfg env uid em]
    by (cases "createEnrollment cfg env uid em st") auto
next
  case (MVerify env cid code uid ip did ja)
  obtain r st' es where v: "verifyTotp lib cfg env cid code uid ip did ja st = (r, st', es)" by (metis prod_cases3)
  then have "mf_pending st' = mf_pending st"
    by (cases rule: verifyTotp_cases) (auto dest: mint_token_frame)
  then show ?thesis using MVerify v inv by (simp add: guesses_left_def)
next
  case (MCreate env uid ip ja)
  obtain r st' es where c: "createChallenge cfg env uid ip ja st = (r, st', es)" by (metis prod_cases3)
  then show ?thesis using MCreate inv createChallenge_frame [OF c] by (simp add: guesses_left_def)
next
  case (MDelete env uid)
  obtain r st' es where d: "deleteEnrollment env uid st = (r, st', es)" by (metis prod_cases3)
  then show ?thesis using MDelete inv deleteEnrollment_frame [OF d] by (simp add: guesses_left_def)
next
  case (MDemoMint env uid did ip)
  obtain r st' where m: "mint_token lib cfg env uid did ip st = (r, st')" by fastforce
  then show ?thesis using MDemoMint inv mint_token_frame [OF m] by (simp add: guesses_left_def mintDemoMfaToken_def)
next
  case (MRevoke now j)
  then show ?thesis using inv by (simp add: guesses_left_def)
qed

lemma guesses_bounded_core:
  assumes "pending_inv (mf_pending st)" and "\<forall>x \<in> set xs. \<not> reissues i x"
  shows "guesses lib cfg i xs st \<le> guesses_left i st"
  using assms
proof (induction xs arbitrary: st)
  case Nil
  show ?case by simp
next
  case (Cons x xs)
  note g = guess_step [OF Cons.prems(1), of lib cfg x i]
  then have "guesses lib cfg i xs (mfa_apply lib cfg x st) \<le> guesses_left i (mfa_apply lib cfg x st)"
    using Cons by simp
  with g Cons.prems(2) show ?case by simp
qed

lemma reachable_pending_inv: "pending_inv (mf_pending (mfa_run lib cfg ops))"
proof (induction ops rule: rev_induct)
  case Nil
  show ?case by (simp add: empty_mfa_def pending_inv_def)
next
  case (snoc x ops)
  then show ?case using guess_step by simp
qed

lemma guesses_left_le: "guesses_left i st \<le> ENROLL_MAX_ATTEMPTS"
  by (auto simp: guesses_left_def split: option.splits)

section \<open>Tokens over time\<close>

text \<open>What the gateway relies on from the JWT library: a signed token verifies with its key until its expiry.\<close>

definition jwt_ok :: "mfa_lib \<Rightarrow> bool" where
  "jwt_ok lib \<longleftrightarrow> (\<forall>k now c. ml_verify lib k now (ml_sign lib k c) = (if now div 1000 < mt_exp c then Some c else None))"

definition token_at :: "string \<Rightarrow> Mfa \<Rightarrow> MfaTokenRow option" where
  "token_at j st = find (\<lambda>r. tk_jti r = j) (mf_tokens st)"

lemma find_revoke_other:
  assumes "j' \<noteq> j"
  shows "find (\<lambda>r. tk_jti r = j) (map (\<lambda>r. if tk_jti r = j' then r\<lparr>tk_revokedAt := v\<rparr> else r) rows) =
    find (\<lambda>r. tk_jti r = j) rows"
  using assms by (induction rows) auto

lemma token_at_step:
  assumes "token_at j st = Some row" and "\<forall>now. x \<noteq> MRevoke now j"
  shows "token_at j (mfa_apply lib cfg x st) = Some row"
proof (cases x)
  case (MVerify env cid code uid ip did ja)
  obtain r st' es where v: "verifyTotp lib cfg env cid code uid ip did ja st = (r, st', es)" by (metis prod_cases3)
  then have "\<exists>rows. mf_tokens st' = mf_tokens st @ rows"
    by (cases rule: verifyTotp_cases) (auto dest: mint_token_row)
  then show ?thesis using MVerify v assms(1) by (auto simp: token_at_def find_append)
next
  case (MDemoMint env uid did ip)
  obtain r st' where m: "mint_token lib cfg env uid did ip st = (r, st')" by fastforce
  then have "\<exists>rows. mf_tokens st' = mf_tokens st @ rows"
    by (cases r) (auto dest: mint_token_None mint_token_row)
  then show ?thesis using MDemoMint m assms(1) by (auto simp: token_at_def find_append mintDemoMfaToken_def)
next
  case (MRevoke now j')
  then show ?thesis using assms by (simp add: token_at_def revokeMfaToken_def find_revoke_other)
next
  case (MCreate env uid ip ja)
  obtain r st' es where c: "createChallenge cfg env uid ip ja st = (r, st', es)" by (metis prod_cases3)
  then show ?thesis using MCreate assms createChallenge_frame [OF c] by (simp add: token_at_def)
next
  case (MEnroll env uid em)
  obtain r st' es where c: "createEnrollment cfg env uid em st = (r, st', es)" by (metis prod_cases3)
  then show ?thesis using MEnroll assms createEnrollment_frame [OF c] by (simp add: token_at_def)
next
  case (MConfirm env i code uid ip ja)
  obtain r st' es where c: "confirmEnrollment lib cfg env i code uid ip ja st = (r, st', es)" by (metis prod_cases3)
  then show ?thesis using MConfirm assms confirmEnrollment_frame [OF c] by (simp add: token_at_def)
next
  case (MDelete env uid)
  obtain r st' es where c: "deleteEnrollment env uid st = (r, st', es)" by (metis prod_cases3)
  then show ?thesis using MDelete assms deleteEnrollment_frame [OF c] by (simp add: token_at_def)
qed

lemma token_at_run:
  assumes "token_at j st = Some row" and "\<forall>x \<in> set xs. \<forall>now. x \<noteq> MRevoke now j"
  shows "token_at j (fold (mfa_apply lib cfg) xs st) = Some row"
  using assms by (induction xs arbitrary: st) (auto simp: token_at_step)

text \<open>The token a call returned, from either of the two ways.\<close>

definition returned :: "mfa_lib \<Rightarrow> MfaConfig \<Rightarrow> mfa_env \<Rightarrow> string \<Rightarrow> string \<Rightarrow> string \<Rightarrow> Mfa \<Rightarrow> string \<Rightarrow> ms \<Rightarrow> Mfa \<Rightarrow> bool" where
  "returned lib cfg env uid did ip st tok expiry st' \<longleftrightarrow>
     (\<exists>cid code ja es. verifyTotp lib cfg env cid code uid ip did ja st = (VerifyOk tok expiry, st', es))
   \<or> mintDemoMfaToken lib cfg env uid did ip st = (Some (tok, expiry), st')"

lemma returned_mint:
  assumes "returned lib cfg env uid did ip st tok expiry st'"
  shows "mint_token lib cfg env uid did ip st = (Some (tok, expiry), st')"
proof -
  have "mint_token lib cfg env uid did ip st = (Some (tok, expiry), st')"
    if "verifyTotp lib cfg env cid code uid ip did ja st = (VerifyOk tok expiry, st', es)" for cid code ja es
    using that by (cases rule: verifyTotp_cases) simp_all
  then show ?thesis using assms by (auto simp: returned_def mintDemoMfaToken_def)
qed

lemma returned_row:
  assumes "returned lib cfg env uid did ip st tok expiry st'"
    and "en_uuid env 0 \<notin> tk_jti ` set (mf_tokens st)"
  shows "token_at (en_uuid env 0) st' = Some (token_row env (en_uuid env 0) uid (ml_sha256 lib (fingerprint_text uid did ip)) expiry)
    \<and> expiry = en_now env + tokenTtlMs cfg
    \<and> tok = ml_sign lib (mfa_jwtSecret cfg) \<lparr>mt_sub = uid, mt_jti = en_uuid env 0, mt_deviceId = did,
        mt_fpHash = ml_sha256 lib (fingerprint_text uid did ip), mt_typ = ''mfa'', mt_iat = en_now env div 1000,
        mt_exp = expiry div 1000\<rparr>"
proof -
  note m = returned_mint [OF assms(1)]
  have "find (\<lambda>r. tk_jti r = en_uuid env 0) (mf_tokens st) = None"
    using assms(2) by (force simp: find_None_iff)
  then show ?thesis using m mint_token_row [OF m] assms(2)
    by (auto simp: token_at_def find_append token_row_def) (auto simp: mint_token_def Let_def split: prod.splits option.splits)
qed

section \<open>Accepting a code\<close>

lemma verifyTotp_accepts:
  assumes "getChallenge env cid st = Some (Some c)" and "en_now env \<le> ch_expires c"
    and "map_of (mf_secrets st) uid = Some enc" and "enc \<noteq> []" and "\<not> en_fault env GetSecret"
    and "aesGcmDecrypt (ml_gcm lib) enc (totpEncryptionKey cfg) = Some secret" and "secret \<noteq> []"
    and "totp_verify (ml_hmac lib) (en_now env) code secret = Inr True"
    and "\<not> en_fault env InsertToken" and "en_uuid env 0 \<notin> tk_jti ` set (mf_tokens st)"
  shows "\<exists>tok expiry. fst (verifyTotp lib cfg env cid code uid ip did ja st) = VerifyOk tok expiry"
  using assms
  by (simp add: verifyTotp_def getEncryptedSecret_def nullish_def Let_def mint_token_def insertMfaToken_def)

lemma verifyTotp_Ok_parts:
  assumes "verifyTotp lib cfg env cid code uid ip did ja st = (VerifyOk tok expiry, st', es)"
  shows "\<exists>enc secret. map_of (mf_secrets st) uid = Some enc \<and> enc \<noteq> [] \<and> secret \<noteq> []
    \<and> aesGcmDecrypt (ml_gcm lib) enc (totpEncryptionKey cfg) = Some secret
    \<and> totp_verify (ml_hmac lib) (en_now env) code secret = Inr True
    \<and> mf_secrets st' = mf_secrets st \<and> mf_challenges st' = mf_challenges st"
proof -
  have "\<exists>enc secret. map_of (mf_secrets st) uid = Some enc \<and> enc \<noteq> [] \<and> secret \<noteq> []
    \<and> aesGcmDecrypt (ml_gcm lib) enc (totpEncryptionKey cfg) = Some secret
    \<and> totp_verify (ml_hmac lib) (en_now env) code secret = Inr True"
    using assms
    by (auto simp: verifyTotp_def getEncryptedSecret_def nullish_def Let_def
        split: option.splits if_splits sum.splits bool.splits prod.splits)
  moreover have "mf_secrets st' = mf_secrets st \<and> mf_challenges st' = mf_challenges st"
    using assms by (cases rule: verifyTotp_cases) (auto dest: mint_token_frame)
  ultimately show ?thesis by blast
qed

lemma base32Encode_nonempty: "bs \<noteq> [] \<Longrightarrow> base32Encode bs \<noteq> []"
  using base32_roundtrip [of bs] by (auto simp: base32Decode_def strip_padding_def to_upper_def)

lemma confirmEnrollment_Ok:
  assumes "confirmEnrollment lib cfg env i code uid ip ja st = (ConfirmOk, st', es)"
  shows "\<exists>e enc. map_of (mf_pending st) i = Some e \<and> pn_userId e = uid \<and> en_now env < pn_expiresAt e
    \<and> totp_verify (ml_hmac lib) (en_now env) code (pn_secret e) = Inr True
    \<and> aesGcmEncrypt (ml_gcm lib) (en_iv env) (pn_secret e) (totpEncryptionKey cfg) = Some enc
    \<and> mf_secrets st' = AList.update uid enc (mf_secrets st)"
  using assms
  by (auto simp: confirmEnrollment_def reject_code_def pending_get_def save_secret_def Let_def
      split: option.splits if_splits sum.splits bool.splits prod.splits)

lemma createEnrollment_Ok:
  assumes "createEnrollment cfg env uid em st = (EnrollOk i uri, st', es)"
  shows "\<exists>e. map_of (mf_pending st') i = Some e \<and> pn_secret e = generateSecret (en_secret env) \<and> pn_userId e = uid"
  using assms by (auto simp: createEnrollment_def pending_set_def Let_def split: if_splits option.splits prod.splits)

section \<open>Samples\<close>

definition sample_gcm :: gcm where
  "sample_gcm = \<lparr>gc_encrypt = (\<lambda>key iv pt. Some (pt, replicate 16 0)), gc_decrypt = (\<lambda>key iv ct tag. Some ct)\<rparr>"

definition claims_tuple :: "string \<Rightarrow> MfaTokenClaims \<Rightarrow> string \<times> string \<times> string \<times> string \<times> string \<times> string \<times> int \<times> int" where
  "claims_tuple k c = (k, mt_sub c, mt_jti c, mt_deviceId c, mt_fpHash c, mt_typ c, mt_iat c, mt_exp c)"

definition sample_sign :: "string \<Rightarrow> MfaTokenClaims \<Rightarrow> string" where
  "sample_sign k c = replicate (Suc (to_nat (claims_tuple k c))) CHR ''a''"

definition sample_verify :: "string \<Rightarrow> ms \<Rightarrow> string \<Rightarrow> MfaTokenClaims option" where
  "sample_verify k now t =
     (case from_nat (length t - 1) :: string \<times> string \<times> string \<times> string \<times> string \<times> string \<times> int \<times> int of
        (k', s, j, d, f, y, i, x) \<Rightarrow>
          if k' = k \<and> now div 1000 < x
          then Some \<lparr>mt_sub = s, mt_jti = j, mt_deviceId = d, mt_fpHash = f, mt_typ = y, mt_iat = i, mt_exp = x\<rparr> else None)"

definition sample_lib :: mfa_lib where
  "sample_lib = \<lparr>ml_hmac = (\<lambda>k m. replicate 20 0), ml_sha256 = id, ml_gcm = sample_gcm, ml_sign = sample_sign,
     ml_verify = sample_verify\<rparr>"

definition sample_mfa_cfg :: MfaConfig where
  "sample_mfa_cfg = \<lparr>mfa_jwtSecret = ''k'', totpEncryptionKey = ''AAAA'', challengeTtlMs = 300000, tokenTtlMs = 900000,
     mfa_rateLimitMax = 3, mfa_rateLimitWindowMs = 60000, issuerName = ''zt'', enrollPendingTtlMs = 600000\<rparr>"

definition env_at :: "ms \<Rightarrow> string \<Rightarrow> mfa_env" where
  "env_at t i = \<lparr>en_now = t, en_fault = (\<lambda>_. False), en_uuid = (\<lambda>_. i), en_secret = [1, 2, 3], en_iv = replicate 12 0\<rparr>"

lemma env_at_simps [simp]: "en_now (env_at t i) = t" "en_fault (env_at t i) q = False" "en_uuid (env_at t i) n = i"
  "en_secret (env_at t i) = [1, 2, 3]" "en_iv (env_at t i) = replicate 12 0"
  by (simp_all add: env_at_def)

lemma sample_gcm_ok: "gcm_ok sample_gcm"
  by (simp add: gcm_ok_def sample_gcm_def)

lemma sample_jwt_ok: "jwt_ok sample_lib"
  by (auto simp: jwt_ok_def sample_lib_def sample_sign_def sample_verify_def claims_tuple_def)

lemma sample_code: "30000 \<le> t \<Longrightarrow> t < 2 ^ 64 \<Longrightarrow>
    totp_generate (ml_hmac sample_lib) t (base32Encode [1, 2, 3]) = Inr ''000000''"
proof -
  assume t: "30000 \<le> t" "t < 2 ^ 64"
  have r: "replicate 20 (0 :: byte) ! i = 0" if "i < 20" for i using that by simp
  have "read_uint32_be (replicate 20 0) 0 = 0" by (simp only: read_uint32_be_def r) simp
  moreover have "replicate 5 CHR ''0'' = ''00000''" by (simp add: numeral_eq_Suc)
  moreover have "char_of (48 :: nat) = CHR ''0''"
    using char_of_char [of "CHR ''0''", where 'a = nat] by simp
  then have "dec_string 0 = ''0''" by (subst dec_string.simps) simp
  moreover have "0 \<le> currentCounter t div 2 ^ 32" "currentCounter t div 2 ^ 32 < 2 ^ 32"
    using t by (simp_all add: currentCounter_div)
  ultimately have "hotp (\<lambda>k m. replicate 20 0) key (currentCounter t) = Inr ''000000''" for key
    by (simp add: hotp_def pad_start_def r)
  then show ?thesis by (simp add: totp_generate_def base32_roundtrip sample_lib_def)
qed

lemma sample_code_ok: "30000 \<le> t \<Longrightarrow> t < 2 ^ 64 \<Longrightarrow>
    totp_verify (ml_hmac sample_lib) t ''000000'' (base32Encode [1, 2, 3]) = Inr True"
  using sample_code [of t]
  by (auto simp: totp_verify_exact [OF base32_roundtrip] clock_ok_def totp_generate_def base32_roundtrip)

text \<open>A user who enrolled, confirmed, holds a challenge and answered it at one minute.\<close>

definition sample_enrolled :: Mfa where
  "sample_enrolled = \<lparr>mf_challenges = [\<lparr>ch_id = ''c1'', ch_user = ''alice'', ch_created = 60000, ch_expires = 360000\<rparr>],
     mf_tokens = [], mf_secrets = [(''alice'', the (aesGcmEncrypt sample_gcm (replicate 12 0) (base32Encode [1, 2, 3]) ''AAAA''))],
     mf_pending = []\<rparr>"

definition sample_ops :: "mfa_op list" where
  "sample_ops = [MEnroll (env_at 60000 ''e1'') ''alice'' None, MConfirm (env_at 60000 ''x'') ''e1'' ''000000'' ''alice'' None None,
     MCreate (env_at 60000 ''c1'') ''alice'' ''10.0.0.9'' None]"

lemma sample_ops_run: "mfa_run sample_lib sample_mfa_cfg sample_ops = sample_enrolled"
proof -
  have v: "totp_verify (ml_hmac sample_lib) 60000 ''000000'' (base32Encode [1, 2, 3]) = Inr True"
    by (rule sample_code_ok) simp_all
  obtain enc where e: "aesGcmEncrypt sample_gcm (replicate 12 0) (base32Encode [1, 2, 3]) ''AAAA'' = Some enc"
    by (simp add: aesGcmEncrypt_def sample_gcm_def)
  have g: "ml_gcm sample_lib = sample_gcm" by (simp add: sample_lib_def)
  have k: "totpEncryptionKey sample_mfa_cfg = ''AAAA''" "challengeTtlMs sample_mfa_cfg = 300000"
    "mfa_rateLimitMax sample_mfa_cfg = 3" "enrollPendingTtlMs sample_mfa_cfg = 600000"
    by (simp_all add: sample_mfa_cfg_def)
  let ?st1 = "empty_mfa\<lparr>mf_pending := [(''e1'', \<lparr>pn_userId = ''alice'', pn_secret = base32Encode [1, 2, 3],
     pn_expiresAt = 660000, pn_attempts = 0\<rparr>)]\<rparr>"
  let ?st2 = "empty_mfa\<lparr>mf_secrets := [(''alice'', enc)]\<rparr>"
  have 1: "fst (snd (createEnrollment sample_mfa_cfg (env_at 60000 ''e1'') ''alice'' None empty_mfa)) = ?st1"
    by (simp add: createEnrollment_def getEncryptedSecret_def nullish_def pending_set_def generateSecret_def k Let_def
        empty_mfa_def)
  have 2: "fst (snd (confirmEnrollment sample_lib sample_mfa_cfg (env_at 60000 ''x'') ''e1'' ''000000'' ''alice'' None None ?st1)) = ?st2"
    by (simp add: confirmEnrollment_def pending_get_def v e g k save_secret_def pending_delete_def Let_def empty_mfa_def)
  have 3: "fst (snd (createChallenge sample_mfa_cfg (env_at 60000 ''c1'') ''alice'' ''10.0.0.9'' None ?st2)) = sample_enrolled"
    by (simp add: createChallenge_def insertChallengeIfUnderLimit_def recent_def sample_enrolled_def k e Let_def empty_mfa_def)
  show ?thesis by (simp only: mfa_run_def sample_ops_def fold_simps mfa_apply.simps 1 2 3)
qed

lemma sample_verify_Ok:
  "\<exists>tok x st' es. verifyTotp sample_lib sample_mfa_cfg (env_at 60000 ''t1'') ''c1'' ''000000'' ''alice'' ''10.0.0.9'' ''d1'' None sample_enrolled
     = (VerifyOk tok x, st', es)"
proof -
  obtain enc where e: "aesGcmEncrypt sample_gcm (replicate 12 0) (base32Encode [1, 2, 3]) ''AAAA'' = Some enc"
    by (simp add: aesGcmEncrypt_def sample_gcm_def)
  have d: "aesGcmDecrypt sample_gcm enc ''AAAA'' = Some (base32Encode [1, 2, 3])"
    by (rule aes_roundtrip [OF sample_gcm_ok _ e]) simp
  have "enc \<noteq> []" using d by (auto simp: aesGcmDecrypt_def b64url_decode_def List.map_filter_def eights.simps [of "[]"])
  moreover have "totp_verify (ml_hmac sample_lib) 60000 ''000000'' (base32Encode [1, 2, 3]) = Inr True"
    by (rule sample_code_ok) simp_all
  ultimately have "\<exists>tok x. fst (verifyTotp sample_lib sample_mfa_cfg (env_at 60000 ''t1'') ''c1'' ''000000'' ''alice'' ''10.0.0.9'' ''d1'' None sample_enrolled)
     = VerifyOk tok x"
    using d e base32Encode_nonempty
    by (intro verifyTotp_accepts [where c = "\<lparr>ch_id = ''c1'', ch_user = ''alice'', ch_created = 60000, ch_expires = 360000\<rparr>"
          and enc = enc and secret = "base32Encode [1, 2, 3]"])
      (simp_all add: sample_enrolled_def getChallenge_def sample_lib_def sample_mfa_cfg_def)
  then show ?thesis by (metis prod.collapse)
qed

lemma decrypt_nonempty: "aesGcmDecrypt gc enc k = Some s \<Longrightarrow> enc \<noteq> []"
  by (auto simp: aesGcmDecrypt_def b64url_decode_def List.map_filter_def eights.simps [of "[]"])

lemma totp_code_accepted:
  assumes "base32Decode secret = Inr key" and "clock_ok now" and "\<bar>t div 30000 - now div 30000\<bar> \<le> 1"
    and "totp_generate hmac t secret = Inr code"
  shows "totp_verify hmac now code secret = Inr True"
proof -
  have "t div 30000 - now div 30000 \<in> {-1, 0, 1}" using assms(3) by auto
  moreover have "hotp hmac key (now div 30000 + (t div 30000 - now div 30000)) = Inr code"
    using assms(1,4) by (simp add: totp_generate_def currentCounter_div)
  ultimately have "\<exists>d \<in> {-1, 0, 1}. hotp hmac key (currentCounter now + d) = Inr code"
    by (simp only: currentCounter_div) blast
  then show ?thesis using totp_verify_exact [OF assms(1,2)] by simp
qed

lemma minted_token_core:
  assumes "jwt_ok lib" and "returned lib cfg env uid did ip st tok expiry st'"
    and "en_uuid env 0 \<notin> tk_jti ` set (mf_tokens st)" and "\<forall>x \<in> set xs. \<forall>now. x \<noteq> MRevoke now (en_uuid env 0)"
    and "en_now env' div 1000 < expiry div 1000" and "\<not> en_fault env' GetToken"
  shows "fst (validateMfaToken lib cfg env' tok uid' did' ip' ja' (fold (mfa_apply lib cfg) xs st')) =
    (if ml_sha256 lib (fingerprint_text uid' did' ip') = ml_sha256 lib (fingerprint_text uid did ip)
     then ValidateOk \<lparr>mt_sub = uid, mt_jti = en_uuid env 0, mt_deviceId = did,
        mt_fpHash = ml_sha256 lib (fingerprint_text uid did ip), mt_typ = ''mfa'', mt_iat = en_now env div 1000,
        mt_exp = expiry div 1000\<rparr>
     else ValidateFail Fingerprint_mismatch)"
proof -
  note row = returned_row [OF assms(2,3)]
  let ?st = "fold (mfa_apply lib cfg) xs st'" and ?j = "en_uuid env 0"
  have "token_at ?j ?st = Some (token_row env ?j uid (ml_sha256 lib (fingerprint_text uid did ip)) expiry)"
    using row assms(4) by (intro token_at_run) auto
  moreover have "\<not> expiry \<le> en_now env'"
    using assms(5) zdiv_mono1 [of expiry "en_now env'" 1000] by linarith
  ultimately have "getMfaTokenWithStatus env' ?j ?st =
      Some (Some (token_row env ?j uid (ml_sha256 lib (fingerprint_text uid did ip)) expiry, False, False))"
    using assms(6) by (simp add: getMfaTokenWithStatus_def token_at_def token_row_def)
  then show ?thesis
    using assms(1,5) row by (simp add: validateMfaToken_def jwt_ok_def token_row_def)
qed

lemma sample_validate_Ok:
  "\<exists>tok c es. validateMfaToken sample_lib sample_mfa_cfg (env_at 70000 ''v'') tok ''alice'' ''d1'' ''10.0.0.9'' None
     (mfa_run sample_lib sample_mfa_cfg
        (sample_ops @ [MVerify (env_at 60000 ''t1'') ''c1'' ''000000'' ''alice'' ''10.0.0.9'' ''d1'' None])) = (ValidateOk c, es)"
proof -
  obtain tok x st' es where v: "verifyTotp sample_lib sample_mfa_cfg (env_at 60000 ''t1'') ''c1'' ''000000'' ''alice'' ''10.0.0.9'' ''d1'' None sample_enrolled
     = (VerifyOk tok x, st', es)" using sample_verify_Ok by blast
  have fresh: "en_uuid (env_at 60000 ''t1'') 0 \<notin> tk_jti ` set (mf_tokens sample_enrolled)" by (simp add: sample_enrolled_def)
  have v': "returned sample_lib sample_mfa_cfg (env_at 60000 ''t1'') ''alice'' ''d1'' ''10.0.0.9'' sample_enrolled tok x st'"
    using v by (auto simp: returned_def)
  have "x = 960000" using returned_row [OF v' fresh] by (simp add: sample_mfa_cfg_def)
  then have "\<exists>c. fst (validateMfaToken sample_lib sample_mfa_cfg (env_at 70000 ''v'') tok ''alice'' ''d1'' ''10.0.0.9'' None st') = ValidateOk c"
    using minted_token_core [OF sample_jwt_ok v' fresh, of "[]" "env_at 70000 ''v''" "''alice''" "''d1''" "''10.0.0.9''" None] by simp
  moreover have "mfa_run sample_lib sample_mfa_cfg
      (sample_ops @ [MVerify (env_at 60000 ''t1'') ''c1'' ''000000'' ''alice'' ''10.0.0.9'' ''d1'' None]) = st'"
    using v by (simp add: sample_ops_run)
  ultimately show ?thesis by (metis prod.collapse)
qed

section \<open>Properties\<close>

text \<open>Identifiers without the separator of the fingerprint text.\<close>

definition plain_id :: "string \<Rightarrow> bool" where
  "plain_id s \<longleftrightarrow> CHR ''|'' \<notin> set s"

fun plain_op :: "mfa_op \<Rightarrow> bool" where
  "plain_op (MVerify env cid code uid ip did ja) = (plain_id uid \<and> plain_id did)"
| "plain_op (MDemoMint env uid did ip) = (plain_id uid \<and> plain_id did)"
| "plain_op _ = True"

lemma fingerprint_text_inject:
  assumes "plain_id u" and "plain_id u'" and "plain_id d" and "plain_id d'" and "fingerprint_text u d i = fingerprint_text u' d' i'"
  shows "u = u' \<and> d = d' \<and> i = i'"
proof -
  have "u @ CHR ''|'' # (d @ CHR ''|'' # i) = u' @ CHR ''|'' # (d' @ CHR ''|'' # i')"
    using assms(5) by (simp add: fingerprint_text_def)
  then have "u = u'" "d @ CHR ''|'' # i = d' @ CHR ''|'' # i'"
    using sep_inject [of "CHR ''|''" u u'] assms(1,2) by (auto simp: plain_id_def)
  then show ?thesis using sep_inject [of "CHR ''|''" d d' i i'] assms(3,4) by (auto simp: plain_id_def)
qed

text \<open>
  C35. Promotion needs a second factor, the demonstration mint apart. The digest is assumed free of collisions, and user and device names free
  of the separator of the fingerprint text. When, after any history of calls, an MFA token is accepted for a
  user, device and address, then earlier in that history, less than the token lifetime ago, either the same user verified a one-time code from the
  same device and address and the code was correct for the secret stored for that user, or the demonstration endpoint, which exists
  in demo mode only, minted a token for the same user, device and address. In a history without a demonstration mint it is always a verified code.
\<close>

theorem promotion_requires_totp:
  assumes "validateMfaToken lib cfg env tok uid did ip ja (mfa_run lib cfg ops) = (ValidateOk c, es)"
    and "inj (ml_sha256 lib)" and "plain_id uid" and "plain_id did" and "\<forall>x \<in> set ops. plain_op x"
  shows "\<exists>pre x post venv. ops = pre @ x # post \<and> en_now env < en_now venv + tokenTtlMs cfg
    \<and> (x = MDemoMint venv uid did ip
       \<or> (\<exists>cid code vja enc secret. x = MVerify venv cid code uid ip did vja
            \<and> map_of (mf_secrets (mfa_run lib cfg pre)) uid = Some enc
            \<and> aesGcmDecrypt (ml_gcm lib) enc (totpEncryptionKey cfg) = Some secret
            \<and> totp_verify (ml_hmac lib) (en_now venv) code secret = Inr True))"
proof -
  obtain row where row: "row \<in> set (mf_tokens (mfa_run lib cfg ops))" "en_now env < tk_expiresAt row"
      "tk_fingerprintHash row = ml_sha256 lib (fingerprint_text uid did ip)"
    using validateMfaToken_Ok [OF assms(1)] by blast
  then obtain pre x post venv u d i where m: "ops = pre @ x # post" "mints lib cfg (mfa_run lib cfg pre) x venv u d i"
      "tk_fingerprintHash row = ml_sha256 lib (fingerprint_text u d i)" "tk_expiresAt row = en_now venv + tokenTtlMs cfg"
    using tokens_minted [OF row(1)] unfolding minted_by_def by auto
  have "fingerprint_text u d i = fingerprint_text uid did ip"
    using m(3) row(3) assms(2) by (simp add: inj_eq)
  moreover have "plain_id u" "plain_id d" using assms(5) m(1,2) by (auto simp: mints_def)
  ultimately have same: "u = uid" "d = did" "i = ip"
    using fingerprint_text_inject [of u uid d did i ip] assms(3,4) by auto
  have code: "\<exists>enc secret. map_of (mf_secrets (mfa_run lib cfg pre)) uid = Some enc
      \<and> aesGcmDecrypt (ml_gcm lib) enc (totpEncryptionKey cfg) = Some secret
      \<and> totp_verify (ml_hmac lib) (en_now venv) code secret = Inr True"
    if "fst (verifyTotp lib cfg venv cid code uid ip did vja (mfa_run lib cfg pre)) = VerifyOk vtok expiry" for cid code vja vtok expiry
    using that verifyTotp_Ok_parts by (metis prod.collapse)
  have "x = MDemoMint venv uid did ip
       \<or> (\<exists>cid code vja enc secret. x = MVerify venv cid code uid ip did vja
            \<and> map_of (mf_secrets (mfa_run lib cfg pre)) uid = Some enc
            \<and> aesGcmDecrypt (ml_gcm lib) enc (totpEncryptionKey cfg) = Some secret
            \<and> totp_verify (ml_hmac lib) (en_now venv) code secret = Inr True)"
    using m(2) unfolding mints_def same
  proof (elim disjE exE conjE)
    fix cid code vja vtok expiry
    assume "x = MVerify venv cid code uid ip did vja"
      and v: "fst (verifyTotp lib cfg venv cid code uid ip did vja (mfa_run lib cfg pre)) = VerifyOk vtok expiry"
    then show ?thesis using code [OF v] by simp
  qed simp
  with m(1,4) row(2) show ?thesis by (intro exI [of _ pre] exI [of _ x] exI [of _ post] exI [of _ venv]) simp
qed

theorem promotion_requires_totp_witness:
  "\<exists>venv cid code vja. MVerify venv cid code ''alice'' ''10.0.0.9'' ''d1'' vja
      \<in> set (sample_ops @ [MVerify (env_at 60000 ''t1'') ''c1'' ''000000'' ''alice'' ''10.0.0.9'' ''d1'' None])
    \<and> en_now (env_at 70000 ''v'') < en_now venv + tokenTtlMs sample_mfa_cfg"
proof -
  let ?ops = "sample_ops @ [MVerify (env_at 60000 ''t1'') ''c1'' ''000000'' ''alice'' ''10.0.0.9'' ''d1'' None]"
  obtain tok c es where v: "validateMfaToken sample_lib sample_mfa_cfg (env_at 70000 ''v'') tok ''alice'' ''d1'' ''10.0.0.9'' None
      (mfa_run sample_lib sample_mfa_cfg ?ops) = (ValidateOk c, es)"
    using sample_validate_Ok by auto
  have "inj (ml_sha256 sample_lib)" "plain_id ''alice''" "plain_id ''d1''" "\<forall>x \<in> set ?ops. plain_op x"
    by (auto simp: sample_lib_def plain_id_def sample_ops_def)
  from promotion_requires_totp [OF v this] show ?thesis
  proof (elim exE conjE disjE)
    fix pre x post venv
    assume "?ops = pre @ x # post" "x = MDemoMint venv ''alice'' ''d1'' ''10.0.0.9''"
    then have "MDemoMint venv ''alice'' ''d1'' ''10.0.0.9'' \<in> set ?ops" by (metis in_set_conv_decomp)
    then show ?thesis by (simp add: sample_ops_def)
  next
    fix pre x post venv cid code vja
    assume "?ops = pre @ x # post" "x = MVerify venv cid code ''alice'' ''10.0.0.9'' ''d1'' vja"
      and t: "en_now (env_at 70000 ''v'') < en_now venv + tokenTtlMs sample_mfa_cfg"
    then have "MVerify venv cid code ''alice'' ''10.0.0.9'' ''d1'' vja \<in> set ?ops" by (metis in_set_conv_decomp)
    with t show ?thesis by blast
  qed
qed

text \<open>
  C36. The token a successful verification or a demonstration mint returns is bound to its user, device and address. The digest is assumed
  free of collisions, the names free of the separator of the fingerprint text, the identifier of the token not used before, and the
  JWT library to verify what it signed until the expiry. Then, at any later time before the expiry (in whole
  seconds), after any further calls that do not revoke it, and when the lookup of its row does not fail, it is accepted for exactly
  the user, device and address it was returned to, with its claims, and refused as a mismatch for every other.
\<close>

theorem minted_token_binding:
  assumes "jwt_ok lib" and "returned lib cfg env uid did ip st tok expiry st'"
    and "en_uuid env 0 \<notin> tk_jti ` set (mf_tokens st)" and "\<forall>x \<in> set xs. \<forall>now. x \<noteq> MRevoke now (en_uuid env 0)"
    and "en_now env' div 1000 < expiry div 1000" and "\<not> en_fault env' GetToken"
    and "inj (ml_sha256 lib)" and "plain_id uid" and "plain_id did" and "plain_id uid'" and "plain_id did'"
  shows "if uid' = uid \<and> did' = did \<and> ip' = ip
    then \<exists>c. fst (validateMfaToken lib cfg env' tok uid' did' ip' ja' (fold (mfa_apply lib cfg) xs st')) = ValidateOk c
      \<and> mt_sub c = uid \<and> mt_deviceId c = did \<and> mt_jti c = en_uuid env 0 \<and> mt_exp c = expiry div 1000
    else fst (validateMfaToken lib cfg env' tok uid' did' ip' ja' (fold (mfa_apply lib cfg) xs st')) = ValidateFail Fingerprint_mismatch"
proof -
  have "ml_sha256 lib (fingerprint_text uid' did' ip') = ml_sha256 lib (fingerprint_text uid did ip)
      \<longleftrightarrow> uid' = uid \<and> did' = did \<and> ip' = ip"
    using fingerprint_text_inject [of uid' uid did' did ip' ip] assms(7-11) by (auto simp: inj_eq)
  with minted_token_core [OF assms(1-6), of uid' did' ip' ja'] show ?thesis by auto
qed

theorem minted_token_binding_witness:
  "\<exists>tok st'. fst (validateMfaToken sample_lib sample_mfa_cfg (env_at 70000 ''v'') tok ''alice'' ''d1'' ''10.0.0.8'' None st')
       = ValidateFail Fingerprint_mismatch
     \<and> (\<exists>c. fst (validateMfaToken sample_lib sample_mfa_cfg (env_at 70000 ''v'') tok ''alice'' ''d1'' ''10.0.0.9'' None st') = ValidateOk c)"
proof -
  obtain tok x st' es where v: "verifyTotp sample_lib sample_mfa_cfg (env_at 60000 ''t1'') ''c1'' ''000000'' ''alice'' ''10.0.0.9'' ''d1'' None sample_enrolled
     = (VerifyOk tok x, st', es)" using sample_verify_Ok by blast
  have fresh: "en_uuid (env_at 60000 ''t1'') 0 \<notin> tk_jti ` set (mf_tokens sample_enrolled)" by (simp add: sample_enrolled_def)
  have v': "returned sample_lib sample_mfa_cfg (env_at 60000 ''t1'') ''alice'' ''d1'' ''10.0.0.9'' sample_enrolled tok x st'"
    using v by (auto simp: returned_def)
  have "x = 960000" using returned_row [OF v' fresh] by (simp add: sample_mfa_cfg_def)
  moreover have "inj (ml_sha256 sample_lib)" "plain_id ''alice''" "plain_id ''d1''" by (simp_all add: sample_lib_def plain_id_def)
  ultimately show ?thesis
    using minted_token_binding [OF sample_jwt_ok v' fresh, of "[MDelete (env_at 65000 ''z'') ''bob'']" "env_at 70000 ''v''"
        "''alice''" "''d1''" "''10.0.0.8''" None]
      minted_token_binding [OF sample_jwt_ok v' fresh, of "[MDelete (env_at 65000 ''z'') ''bob'']" "env_at 70000 ''v''"
        "''alice''" "''d1''" "''10.0.0.9''" None]
    by (intro exI [of _ tok] exI [of _ "fold (mfa_apply sample_lib sample_mfa_cfg) [MDelete (env_at 65000 ''z'') ''bob''] st'"]) auto
qed

text \<open>
  The rate limit holds over every history: whatever calls happen, in whatever order and whichever of them
  fail, no window of the configured length ever contains more challenges of one user than the
  configured maximum.
\<close>

lemma challenge_rate_bounded:
  "int (in_window (mfa_rateLimitWindowMs cfg) t uid (mf_challenges (mfa_run lib cfg ops))) \<le> max 0 (mfa_rateLimitMax cfg)"
proof (induction ops rule: rev_induct)
  case Nil
  show ?case by (simp add: empty_mfa_def in_window_def)
next
  case (snoc x ops)
  from mfa_apply_challenges [of lib cfg x "mfa_run lib cfg ops"] show ?case
  proof (elim disjE exE conjE)
    assume "mf_challenges (mfa_apply lib cfg x (mfa_run lib cfg ops)) = mf_challenges (mfa_run lib cfg ops)"
    with snoc show ?thesis by simp
  qed (use in_window_snoc [OF snoc] in simp)
qed

text \<open>
  C38. Guessing at an enrolment is bounded: from any state a history reaches, while the identifier of an enrolment is not
  issued again, at most five wrong codes are ever checked against it, whatever other calls are
  interleaved.
\<close>

theorem enroll_guesses_bounded:
  assumes "\<forall>x \<in> set xs. \<not> reissues i x"
  shows "guesses lib cfg i xs (mfa_run lib cfg ops) \<le> 5"
  using guesses_bounded_core [OF reachable_pending_inv assms, of lib cfg lib cfg ops] guesses_left_le [of i "mfa_run lib cfg ops"]
  by (simp add: ENROLL_MAX_ATTEMPTS_def)

theorem enroll_guesses_bounded_witness:
  "guesses sample_lib sample_mfa_cfg ''e1'' (replicate 9 (MConfirm (env_at 60000 ''x'') ''e1'' ''999999'' ''alice'' None None))
     (mfa_run sample_lib sample_mfa_cfg [MEnroll (env_at 60000 ''e1'') ''alice'' None]) \<le> 5"
  by (rule enroll_guesses_bounded) simp

text \<open>
  C39. Enrolment leads to verification: when a user enrols, confirms the enrolment, and holds an unexpired challenge, then
  a code the user's authenticator shows in the current half minute or a neighbouring one is
  accepted. The stored secret survives encryption and the base32 codec.
\<close>

theorem enrolled_user_can_verify:
  assumes "gcm_ok (ml_gcm lib)" and "length (en_iv env2) = 12" and "en_secret env1 \<noteq> []"
    and "createEnrollment cfg env1 uid em st = (EnrollOk i uri, st1, es1)"
    and "confirmEnrollment lib cfg env2 i code2 uid ip2 ja2 st1 = (ConfirmOk, st2, es2)"
    and "getChallenge env3 cid st2 = Some (Some c)" and "en_now env3 \<le> ch_expires c"
    and "\<not> en_fault env3 GetSecret" and "\<not> en_fault env3 InsertToken" and "en_uuid env3 0 \<notin> tk_jti ` set (mf_tokens st2)"
    and "clock_ok (en_now env3)" and "\<bar>t div 30000 - en_now env3 div 30000\<bar> \<le> 1"
    and "totp_generate (ml_hmac lib) t (generateSecret (en_secret env1)) = Inr code3"
  shows "\<exists>tok expiry. fst (verifyTotp lib cfg env3 cid code3 uid ip3 did3 ja3 st2) = VerifyOk tok expiry"
proof -
  let ?secret = "generateSecret (en_secret env1)"
  obtain e where e: "map_of (mf_pending st1) i = Some e" "pn_secret e = ?secret"
    using createEnrollment_Ok [OF assms(4)] by blast
  obtain enc where enc: "aesGcmEncrypt (ml_gcm lib) (en_iv env2) ?secret (totpEncryptionKey cfg) = Some enc"
      "mf_secrets st2 = AList.update uid enc (mf_secrets st1)"
    using confirmEnrollment_Ok [OF assms(5)] e by auto
  have dec: "aesGcmDecrypt (ml_gcm lib) enc (totpEncryptionKey cfg) = Some ?secret"
    by (rule aes_roundtrip [OF assms(1,2) enc(1)])
  show ?thesis
  proof (rule verifyTotp_accepts [OF assms(6,7) _ _ assms(8) dec _ _ assms(9,10)])
    show "map_of (mf_secrets st2) uid = Some enc" using enc(2) by simp
    show "enc \<noteq> []" using dec by (rule decrypt_nonempty)
    show "?secret \<noteq> []" using assms(3) by (simp add: generateSecret_def base32Encode_nonempty)
    show "totp_verify (ml_hmac lib) (en_now env3) code3 ?secret = Inr True"
      using assms(11-13) by (simp add: generateSecret_def totp_code_accepted [OF base32_roundtrip])
  qed
qed

theorem enrolled_user_can_verify_witness:
  "\<exists>tok expiry st2. fst (verifyTotp sample_lib sample_mfa_cfg (env_at 90000 ''t9'') ''c9'' ''000000'' ''alice'' ''10.0.0.9'' ''d1'' None st2)
     = VerifyOk tok expiry"
proof -
  let ?st = "empty_mfa\<lparr>mf_challenges := [\<lparr>ch_id = ''c9'', ch_user = ''alice'', ch_created = 50000, ch_expires = 350000\<rparr>]\<rparr>"
  obtain i uri st1 es1 where 1: "createEnrollment sample_mfa_cfg (env_at 60000 ''e1'') ''alice'' None ?st = (EnrollOk i uri, st1, es1)"
    by (simp add: createEnrollment_def getEncryptedSecret_def nullish_def Let_def empty_mfa_def)
  then have s: "i = ''e1''" "mf_challenges st1 = mf_challenges ?st" "mf_tokens st1 = []"
      "mf_pending st1 = [(''e1'', \<lparr>pn_userId = ''alice'', pn_secret = base32Encode [1, 2, 3], pn_expiresAt = 660000, pn_attempts = 0\<rparr>)]"
    by (auto simp: createEnrollment_def getEncryptedSecret_def nullish_def Let_def empty_mfa_def pending_set_def
        generateSecret_def sample_mfa_cfg_def)
  have v: "totp_verify (ml_hmac sample_lib) 60000 ''000000'' (base32Encode [1, 2, 3]) = Inr True"
    by (rule sample_code_ok) simp_all
  have g: "aesGcmEncrypt (ml_gcm sample_lib) (replicate 12 0) p k \<noteq> None" for p k
    by (simp add: aesGcmEncrypt_def sample_gcm_def sample_lib_def)
  obtain st2 es2 where 2: "confirmEnrollment sample_lib sample_mfa_cfg (env_at 60000 ''x'') i ''000000'' ''alice'' None None st1 = (ConfirmOk, st2, es2)"
    using g [of "base32Encode [1, 2, 3]" "totpEncryptionKey sample_mfa_cfg"]
    by (auto simp: confirmEnrollment_def pending_get_def s v save_secret_def Let_def)
  then have "mf_challenges st2 = mf_challenges ?st" "mf_tokens st2 = []"
    using confirmEnrollment_frame [OF 2] s by auto
  then show ?thesis
    using enrolled_user_can_verify [OF _ _ _ 1 2, of "env_at 90000 ''t9''" "''c9''" _ 90000 "''000000''"] sample_code [of 90000]
      sample_gcm_ok
    by (fastforce simp: getChallenge_def clock_ok_def generateSecret_def sample_lib_def)
qed

text \<open>
  A one-time code can be used again: after a successful verification, the same code with any unexpired challenge, of
  the same or of another user and answered already or not, is accepted once more at the same time and
  mints a second token, from whatever device and address the second request comes.
\<close>

lemma code_replayable:
  assumes "verifyTotp lib cfg env cid code uid ip did ja st = (VerifyOk tok expiry, st', es)"
    and "find (\<lambda>c. ch_id c = cid') (mf_challenges st) = Some c" and "en_now env \<le> ch_expires c"
    and "en_now env' = en_now env" and "\<forall>q. \<not> en_fault env' q" and "en_uuid env' 0 \<notin> tk_jti ` set (mf_tokens st')"
  shows "\<exists>tok' expiry'. fst (verifyTotp lib cfg env' cid' code uid ip' did' ja' st') = VerifyOk tok' expiry'"
proof -
  obtain enc secret where "map_of (mf_secrets st) uid = Some enc" "enc \<noteq> []" "secret \<noteq> []"
      "aesGcmDecrypt (ml_gcm lib) enc (totpEncryptionKey cfg) = Some secret"
      "totp_verify (ml_hmac lib) (en_now env) code secret = Inr True"
      "mf_secrets st' = mf_secrets st" "mf_challenges st' = mf_challenges st"
    using verifyTotp_Ok_parts [OF assms(1)] by blast
  then show ?thesis using assms
    by (intro verifyTotp_accepts [where c = c and enc = enc and secret = secret]) (simp_all add: getChallenge_def)
qed

end
