(* ===== verification/Pipeline_Admission.thy ===== *)
theory Pipeline_Admission
  imports Pipeline_System Mfa_Histories
begin

text \<open>
  Which requests get through the pipeline, and how every request is answered: an exact description of the guards a request
  has passed when the proxy stage runs, in terms of the services of the other theories on the shared state each
  stage found.
\<close>

section \<open>Passing a stage\<close>

definition pass :: "Deps \<Rightarrow> ReqEnv \<Rightarrow> string \<times> stage \<Rightarrow> StageContext \<Rightarrow> StageContext option" where
  "pass P e st c =
     (case snd st P e c (re_shared e (fst st)) of (Ret Continue, c', g) \<Rightarrow> Some c' | _ \<Rightarrow> None)"

fun passes :: "Deps \<Rightarrow> ReqEnv \<Rightarrow> (string \<times> stage) list \<Rightarrow> StageContext \<Rightarrow> StageContext option" where
  "passes P e [] c = Some c"
| "passes P e (st # rest) c = (case pass P e st c of None \<Rightarrow> None | Some c' \<Rightarrow> passes P e rest c')"

definition ran_stages :: "Deps \<Rightarrow> ReqEnv \<Rightarrow> (string \<times> stage) list \<Rightarrow> StageContext \<Rightarrow> string list" where
  "ran_stages P e sts c = map fst (snd (snd (orchestrator_run P e sts c)))"

lemma orchestrator_step_pass:
  "fst (orchestrator_step P e st c (re_shared e (fst st))) = None \<longleftrightarrow> pass P e st c \<noteq> None"
  "pass P e st c = Some c' \<Longrightarrow> fst (snd (orchestrator_step P e st c (re_shared e (fst st)))) = c'"
  by (auto simp: orchestrator_step_def pass_def split: prod.splits stage_result.splits StageOutcome.splits)

lemma run_pass:
  assumes "pass P e st c = Some c'"
  shows "fst (orchestrator_run P e (st # rest) c) = fst (orchestrator_run P e rest c')"
    "ran_stages P e (st # rest) c = fst st # ran_stages P e rest c'"
proof -
  obtain g where "orchestrator_step P e st c (re_shared e (fst st)) = (None, c', g)"
    using assms orchestrator_step_pass [of P e st c] by (metis option.distinct(1) prod.collapse)
  then show "fst (orchestrator_run P e (st # rest) c) = fst (orchestrator_run P e rest c')"
    "ran_stages P e (st # rest) c = fst st # ran_stages P e rest c'"
    by (auto simp: ran_stages_def split: prod.splits)
qed

lemma run_stop:
  assumes "pass P e st c = None"
  shows "ran_stages P e (st # rest) c = [fst st]"
    "fst (orchestrator_run P e (st # rest) c) = (case fst (snd st P e c (re_shared e (fst st))) of Exn x \<Rightarrow> Inl x | Ret out \<Rightarrow> Inr out)"
proof -
  obtain r c' g where s: "orchestrator_step P e st c (re_shared e (fst st)) = (Some r, c', g)"
    using assms orchestrator_step_pass(1) [of P e st c] by (metis option.exhaust prod.collapse)
  then show "ran_stages P e (st # rest) c = [fst st]" by (simp add: ran_stages_def)
  show "fst (orchestrator_run P e (st # rest) c) = (case fst (snd st P e c (re_shared e (fst st))) of Exn x \<Rightarrow> Inl x | Ret out \<Rightarrow> Inr out)"
    using s by (auto simp: orchestrator_step_def split: prod.splits stage_result.splits if_splits)
qed

lemma run_context:
  "pass P e st c = Some c' \<Longrightarrow> fst (snd (orchestrator_run P e (st # rest) c)) = fst (snd (orchestrator_run P e rest c'))"
  "pass P e st c = None \<Longrightarrow> fst (snd (orchestrator_run P e (st # rest) c)) = fst (snd (snd st P e c (re_shared e (fst st))))"
  by (auto simp: orchestrator_step_def pass_def split: prod.splits stage_result.splits StageOutcome.splits if_splits)

lemma run_passes:
  assumes "passes P e xs c = Some c'"
  shows "fst (orchestrator_run P e (xs @ ys) c) = fst (orchestrator_run P e ys c')"
    "fst (snd (orchestrator_run P e (xs @ ys) c)) = fst (snd (orchestrator_run P e ys c'))"
    "ran_stages P e (xs @ ys) c = map fst xs @ ran_stages P e ys c'"
  using assms
proof (induction xs arbitrary: c)
  case (Cons st xs)
  { case 1 with Cons show ?case by (simp only: append.simps run_pass(1)) (auto simp: run_pass(1) simp del: orchestrator_run.simps split: option.splits) }
  { case 2 with Cons show ?case by (auto simp: run_context simp del: orchestrator_run.simps split: option.splits) }
  { case 3 with Cons show ?case by (auto simp: run_pass(2) simp del: orchestrator_run.simps split: option.splits) }
qed simp_all

lemma ran_reaches:
  assumes "n \<notin> fst ` set xs"
  shows "n \<in> set (ran_stages P e (xs @ (n, f) # ys) c) \<longleftrightarrow> passes P e xs c \<noteq> None"
  using assms
proof (induction xs arbitrary: c)
  case Nil
  show ?case by (cases "pass P e (n, f) c") (auto simp: run_pass(2) run_stop(1))
next
  case (Cons st xs)
  then show ?case by (cases "pass P e st c") (auto simp: run_pass(2) run_stop(1))
qed

lemma passes_append: "passes P e (xs @ ys) c = (case passes P e xs c of None \<Rightarrow> None | Some c' \<Rightarrow> passes P e ys c')"
  by (induction xs arbitrary: c) (auto split: option.splits)

section \<open>The guards\<close>

definition demo_override :: "Deps \<Rightarrow> Request \<Rightarrow> jsnum option" where
  "demo_override P req = (if demo_isActive (dp_demo_mode P)
     then parseDemoOverride (dp_fp P) (header req ''x-demo-trust-score'') else None)"

text \<open>The score of a request: the demo override when there is one, else the computed score.\<close>

definition score_for :: "Deps \<Rightarrow> ReqEnv \<Rightarrow> Request \<Rightarrow> UserClaims \<Rightarrow> jsnum" where
  "score_for P e req cl =
     (case demo_override P req of
        Some v \<Rightarrow> v
      | None \<Rightarrow> fst (evaluateScore (dp_fp P) (dp_trust P) (re_reads e ''trust_score'') (re_clk e ''trust_score'')
                   (re_now e ''trust_score'')
                   \<lparr>tc_userId = userId cl, tc_deviceId = deviceId cl, tc_ip = extractIp req, tc_ja4h = nullish (x_ja4h req) [],
                    tc_requestTimestamp = None\<rparr> (gw_blacklist (re_shared e ''trust_score''))))"

text \<open>Low risk, or a proof of work the service accepts.\<close>

definition pow_passes :: "Deps \<Rightarrow> ReqEnv \<Rightarrow> Request \<Rightarrow> UserClaims \<Rightarrow> jsnum \<Rightarrow> bool" where
  "pow_passes P e req cl score \<longleftrightarrow>
     jle score (Fin (nullish (triggerThreshold (dp_hashcash P)) (1/2)))
   \<or> (\<exists>nonce solution iat. header_string req ''x-hashcash-nonce'' = Some nonce \<and> nonce \<noteq> []
        \<and> header_string req ''x-hashcash-solution'' = Some solution \<and> solution \<noteq> [] \<and> length solution \<le> 256
        \<and> fst (verifySolution (dp_pow P) (dp_hashcash P) (re_now e ''hashcash'') nonce solution score (userId cl) (deviceId cl)
            (gw_hashcash (re_shared e ''hashcash''))) = VOk iat)"

text \<open>The decision on the authenticated, scored request.\<close>

definition decision_for :: "Deps \<Rightarrow> ReqEnv \<Rightarrow> Request \<Rightarrow> UserClaims \<Rightarrow> jsnum \<Rightarrow> PolicyDecision" where
  "decision_for P e req cl score =
     fst (evaluate (dp_policy P) (dp_enforce P) (policy_trust_env P e) (re_eval e)
       (req\<lparr>user := Some cl, gateway_validated := True, req_trustScore := Some score\<rparr>)
       (gw_blacklist (re_shared e ''policy'')) (gw_threat (re_shared e ''policy'')))"

text \<open>Allowed outright, or challenged with a valid MFA token at hand.\<close>

definition promoted :: "Deps \<Rightarrow> ReqEnv \<Rightarrow> Request \<Rightarrow> UserClaims \<Rightarrow> PolicyDecision \<Rightarrow> bool" where
  "promoted P e req cl d \<longleftrightarrow> label_of d = L_allow
   \<or> label_of d = L_challenge \<and> (\<exists>tok p. header_string req ''x-mfa-token'' = Some tok \<and> tok \<noteq> []
        \<and> fst (validateMfaToken (dp_mfalib P) (dp_mfa P) (re_mfa_validate e) tok (userId cl) (deviceId cl) (extractIp req)
            (x_ja4h req) (gw_mfa (re_shared e ''mfa_promotion''))) = ValidateOk p)"

definition audit_confirmed :: "Deps \<Rightarrow> ReqEnv \<Rightarrow> bool" where
  "audit_confirmed P e \<longleftrightarrow> (\<exists>k < nat (walMaxRetries (dp_audit P)). ie_result (re_insert e ''audit_allow'') k = Stored)"

text \<open>Authenticated, not revoked, and not on a path of its own.\<close>

definition authenticated :: "Deps \<Rightarrow> ReqEnv \<Rightarrow> Request \<Rightarrow> UserClaims \<Rightarrow> bool" where
  "authenticated P e req cl \<longleftrightarrow> req_path req \<notin> set PUBLIC_PATHS \<and> req_path req \<notin> set HONEYPOT_PATHS
     \<and> authenticate (dp_jose P) (dp_auth P) req = AuthOk cl
     \<and> \<not> fst (isRevoked (re_now e ''revocation'') (jti cl) (gw_revocations (re_shared e ''revocation'')))"

definition admitted :: "Deps \<Rightarrow> ReqEnv \<Rightarrow> Request \<Rightarrow> UserClaims \<Rightarrow> bool" where
  "admitted P e req cl \<longleftrightarrow> authenticated P e req cl \<and> \<not> isAuthOnlyPath (req_path req)
     \<and> pow_passes P e req cl (score_for P e req cl)
     \<and> promoted P e req cl (decision_for P e req cl (score_for P e req cl))"

section \<open>What each stage passes\<close>

lemma pass_bypasses:
  "pass P e (''public_bypass'', public_bypass_stage) c = (if sx_reqPath c \<in> set PUBLIC_PATHS then None else Some c)"
  "pass P e (''honeypot_bypass'', honeypot_bypass_stage) c = (if sx_reqPath c \<in> set HONEYPOT_PATHS then None else Some c)"
  by (simp_all add: pass_def public_bypass_stage_def honeypot_bypass_stage_def)

lemma pass_auth:
  "pass P e (''auth'', auth_stage) c =
     (case authenticate (dp_jose P) (dp_auth P) (sx_req c) of
        AuthOk cl \<Rightarrow> Some (c\<lparr>sx_claims := Some cl, sx_req := (sx_req c)\<lparr>user := Some cl, gateway_validated := True\<rparr>\<rparr>)
      | AuthInvalid r m \<Rightarrow> None)"
  by (auto simp: pass_def auth_stage_def Let_def split: AuthOutcome.splits prod.splits bool.splits)

lemma pass_revocation:
  assumes "sx_claims c = Some cl"
  shows "pass P e (''revocation'', revocation_stage) c =
    (if fst (isRevoked (re_now e ''revocation'') (jti cl) (gw_revocations (re_shared e ''revocation''))) then None else Some c)"
  using assms by (auto simp: pass_def revocation_stage_def split: prod.splits bool.splits)

lemma pass_auth_only:
  "pass P e (''auth_only'', auth_only_stage) c = (if isAuthOnlyPath (sx_reqPath c) then None else Some c)"
  by (auto simp: pass_def auth_only_stage_def split: option.splits prod.splits bool.splits)

lemma pass_trust_score:
  assumes "sx_claims c = Some cl" and "sx_ja4h c = x_ja4h (sx_req c)"
  shows "pass P e (''trust_score'', trust_score_stage) c =
    Some (c\<lparr>sx_trustScore := Some (score_for P e (sx_req c) cl), sx_trustCtx := Some (trust_context c cl),
            sx_trustOverride := (demo_override P (sx_req c) \<noteq> None),
            sx_req := (sx_req c)\<lparr>req_trustScore := Some (score_for P e (sx_req c) cl)\<rparr>\<rparr>)"
  using assms
  by (auto simp: pass_def trust_score_stage_def score_for_def demo_override_def trust_context_def Let_def
      split: option.splits prod.splits)

lemma pass_hashcash:
  assumes "sx_claims c = Some cl" and "sx_trustScore c = Some score"
  shows "pass P e (''hashcash'', hashcash_stage) c = (if pow_passes P e (sx_req c) cl score then Some c else None)"
proof -
  have issue: "issue_challenge P e c cl score err g = (r, c', g') \<Longrightarrow> r \<noteq> Ret Continue" for err g r c' g'
    by (auto simp: issue_challenge_def split: prod.splits)
  show ?thesis
    using assms
    by (auto simp: pass_def hashcash_stage_def pow_passes_def or_else_def Let_def
        split: option.splits prod.splits VerifyResult.splits if_splits)
      (auto split: stage_result.splits StageOutcome.splits dest: issue)
qed

lemma pass_policy:
  "pass P e (''policy'', policy_stage) c =
     Some (c\<lparr>sx_policyDecision := Some (fst (evaluate (dp_policy P) (dp_enforce P) (policy_trust_env P e) (re_eval e)
       (sx_req c) (gw_blacklist (re_shared e ''policy'')) (gw_threat (re_shared e ''policy''))))\<rparr>)"
  by (simp add: pass_def policy_stage_def split: prod.splits)

lemma buildMfaChallengeOutcome_stops: "buildMfaChallengeOutcome ch rid \<noteq> Continue"
  by (cases "(ch, rid)" rule: buildMfaChallengeOutcome.cases) simp_all

lemma pass_mfa_promotion:
  assumes "sx_claims c = Some cl" and "sx_policyDecision c = Some d" and "sx_ja4h c = x_ja4h (sx_req c)"
  shows "pass P e (''mfa_promotion'', mfa_promotion_stage) c = (if promoted P e (sx_req c) cl d then Some c else None)"
proof -
  have chal: "challenge_client P e c cl g = (r, c', g') \<Longrightarrow> r \<noteq> Ret Continue" for g r c' g'
    by (auto simp: challenge_client_def Let_def buildMfaChallengeOutcome_stops split: prod.splits bool.splits)
  have deny: "deny_client P e c cl d g = (r, c', g') \<Longrightarrow> r \<noteq> Ret Continue" for g r c' g'
    by (auto simp: deny_client_def split: prod.splits bool.splits)
  show ?thesis
    using assms
    by (auto simp: pass_def mfa_promotion_stage_def promoted_def truthy_def
        split: option.splits prod.splits decision_label.splits MfaValidateResult.splits if_splits)
      (auto split: stage_result.splits StageOutcome.splits dest: chal deny)
qed

lemma pass_audit_allow:
  assumes "sx_claims c = Some cl"
  shows "pass P e (''audit_allow'', audit_allow_stage) c = (if audit_confirmed P e then Some c else None)"
proof -
  let ?ie = "re_insert e ''audit_allow''" and ?logs = "gw_audit (re_shared e ''audit_allow'')"
  obtain out logs t es where a: "audit_log (dp_audit P) ?ie (allow_entry c cl) ?logs = (out, logs, t, es)"
    by (metis prod_cases4)
  have "ae_decision (allow_entry c cl) = L_allow" by (simp add: allow_entry_def stage_entry_def)
  from audit_exhausted_iff [OF this, of "dp_audit P" ?ie ?logs] a
  have "out = AuditExhausted \<longleftrightarrow> \<not> audit_confirmed P e" by (simp add: audit_confirmed_def)
  with a assms show ?thesis
    by (cases out) (auto simp: pass_def audit_allow_stage_def Let_def)
qed

lemma audit_allow_exhausted:
  assumes "sx_claims c = Some cl"
    and "\<forall>k < nat (walMaxRetries (dp_audit P)). ie_result (re_insert e ''audit_allow'') k \<noteq> Stored"
  shows "fst (audit_allow_stage P e c g) = Exn AuditExhaustedException" "fst (snd (audit_allow_stage P e c g)) = c"
proof -
  obtain out logs t es where a: "audit_log (dp_audit P) (re_insert e ''audit_allow'') (allow_entry c cl) (gw_audit g) = (out, logs, t, es)"
    by (metis prod_cases4)
  have "ae_decision (allow_entry c cl) = L_allow" by (simp add: allow_entry_def stage_entry_def)
  from audit_exhausted_iff [OF this, of "dp_audit P" "re_insert e ''audit_allow''" "gw_audit g"] a assms(2)
  have "out = AuditExhausted" by auto
  with a assms(1) show "fst (audit_allow_stage P e c g) = Exn AuditExhaustedException" "fst (snd (audit_allow_stage P e c g)) = c"
    by (simp_all add: audit_allow_stage_def)
qed

lemmas pass_stages = pass_bypasses pass_auth pass_revocation pass_auth_only pass_trust_score pass_hashcash pass_policy
  pass_mfa_promotion pass_audit_allow

text \<open>The context a request arrives with at the proxy.\<close>

definition admitted_context :: "Deps \<Rightarrow> ReqEnv \<Rightarrow> Request \<Rightarrow> UserClaims \<Rightarrow> StageContext" where
  "admitted_context P e req cl =
     (let score = score_for P e req cl; c = buildStageContext e req
      in c\<lparr>sx_claims := Some cl, sx_trustScore := Some score, sx_trustCtx := Some (trust_context c cl),
           sx_trustOverride := (demo_override P req \<noteq> None), sx_policyDecision := Some (decision_for P e req cl score),
           sx_req := req\<lparr>user := Some cl, gateway_validated := True, req_trustScore := Some score\<rparr>\<rparr>)"

lemma extractIp_updates [simp]:
  "extractIp (req\<lparr>user := u\<rparr>) = extractIp req" "extractIp (req\<lparr>gateway_validated := b\<rparr>) = extractIp req"
  "extractIp (req\<lparr>req_trustScore := x\<rparr>) = extractIp req"
  by (simp_all add: extractIp_def header_def)

lemma guard_invariants [simp]:
  "demo_override P (req\<lparr>user := u\<rparr>) = demo_override P req"
  "demo_override P (req\<lparr>gateway_validated := b\<rparr>) = demo_override P req"
  "demo_override P (req\<lparr>req_trustScore := x\<rparr>) = demo_override P req"
  "score_for P e (req\<lparr>user := u\<rparr>) cl = score_for P e req cl"
  "score_for P e (req\<lparr>gateway_validated := b\<rparr>) cl = score_for P e req cl"
  "pow_passes P e (req\<lparr>user := u\<rparr>) cl s = pow_passes P e req cl s"
  "pow_passes P e (req\<lparr>gateway_validated := b\<rparr>) cl s = pow_passes P e req cl s"
  "pow_passes P e (req\<lparr>req_trustScore := x\<rparr>) cl s = pow_passes P e req cl s"
  "promoted P e (req\<lparr>user := u\<rparr>) cl d = promoted P e req cl d"
  "promoted P e (req\<lparr>gateway_validated := b\<rparr>) cl d = promoted P e req cl d"
  "promoted P e (req\<lparr>req_trustScore := x\<rparr>) cl d = promoted P e req cl d"
  by (simp_all add: demo_override_def score_for_def pow_passes_def promoted_def header_def header_string_def
      split: option.splits)

lemma context_simps [simp]:
  "sx_req (buildStageContext e req) = req" "sx_reqPath (buildStageContext e req) = req_path req"
  "sx_claims (buildStageContext e req) = None" "sx_ja4h (buildStageContext e req) = x_ja4h req"
  by (simp_all add: buildStageContext_def)

text \<open>Stage by stage up to the trust score, then up to the proxy.\<close>

lemma passes_authenticated:
  "passes P e (take 5 PIPELINE_STAGES) (buildStageContext e req) =
     (case authenticate (dp_jose P) (dp_auth P) req of
        AuthOk cl \<Rightarrow>
          if authenticated P e req cl \<and> \<not> isAuthOnlyPath (req_path req)
          then Some ((buildStageContext e req)\<lparr>sx_claims := Some cl, sx_req := req\<lparr>user := Some cl, gateway_validated := True\<rparr>\<rparr>)
          else None
      | AuthInvalid r m \<Rightarrow> None)"
  by (auto simp: PIPELINE_STAGES_def pass_stages authenticated_def numeral_eq_Suc split: AuthOutcome.splits)

lemma passes_to_audit:
  "passes P e (take 9 PIPELINE_STAGES) (buildStageContext e req) =
     (case authenticate (dp_jose P) (dp_auth P) req of
        AuthOk cl \<Rightarrow> if admitted P e req cl then Some (admitted_context P e req cl) else None
      | AuthInvalid r m \<Rightarrow> None)"
proof -
  have "take 9 PIPELINE_STAGES = take 5 PIPELINE_STAGES @ take 4 (drop 5 PIPELINE_STAGES)"
    by (simp add: PIPELINE_STAGES_def numeral_eq_Suc)
  moreover have "take 4 (drop 5 PIPELINE_STAGES) = [(''trust_score'', trust_score_stage), (''hashcash'', hashcash_stage),
      (''policy'', policy_stage), (''mfa_promotion'', mfa_promotion_stage)]"
    by (simp add: PIPELINE_STAGES_def numeral_eq_Suc)
  ultimately show ?thesis
    by (auto simp: passes_append passes_authenticated pass_stages admitted_def admitted_context_def decision_for_def
        trust_context_def Let_def split: AuthOutcome.splits)
qed

lemma passes_to_proxy:
  "passes P e (take 10 PIPELINE_STAGES) (buildStageContext e req) =
     (case authenticate (dp_jose P) (dp_auth P) req of
        AuthOk cl \<Rightarrow> if admitted P e req cl \<and> audit_confirmed P e then Some (admitted_context P e req cl) else None
      | AuthInvalid r m \<Rightarrow> None)"
proof -
  have "take 10 PIPELINE_STAGES = take 9 PIPELINE_STAGES @ [(''audit_allow'', audit_allow_stage)]"
    by (simp add: PIPELINE_STAGES_def numeral_eq_Suc)
  moreover have "sx_claims (admitted_context P e req cl) = Some cl" for cl by (simp add: admitted_context_def Let_def)
  ultimately show ?thesis
    by (auto simp: passes_append passes_to_audit pass_audit_allow split: AuthOutcome.splits)
qed

section \<open>How a run ends\<close>

text \<open>
  A triple for one stage: from contexts with \<open>A\<close>, the stage either continues with \<open>B\<close> or ends the run with a result
  in \<open>Q\<close>.
\<close>

definition stage_triple ::
    "(gw_exn + StageOutcome \<Rightarrow> bool) \<Rightarrow> (StageContext \<Rightarrow> bool) \<Rightarrow> stage \<Rightarrow> (StageContext \<Rightarrow> bool) \<Rightarrow> bool" where
  "stage_triple Q A st B \<longleftrightarrow> (\<forall>P e c g. A c \<longrightarrow>
     (case st P e c g of
        (Exn x, c', g') \<Rightarrow> Q (Inl x)
      | (Ret out, c', g') \<Rightarrow> if out = Continue then B c' else Q (Inr out)))"

lemma run_triple:
  assumes "stage_triple Q A (snd st) B" and "A c" and "\<And>c'. B c' \<Longrightarrow> Q (fst (orchestrator_run P e rest c'))"
  shows "Q (fst (orchestrator_run P e (st # rest) c))"
proof -
  obtain r c' g where s: "snd st P e c (re_shared e (fst st)) = (r, c', g)" by (metis prod_cases3)
  have t: "case r of Exn x \<Rightarrow> Q (Inl x) | Ret out \<Rightarrow> if out = Continue then B c' else Q (Inr out)"
    using assms(1,2) s unfolding stage_triple_def by (fastforce split: prod.splits stage_result.splits)
  show ?thesis
  proof (cases "r = Ret Continue")
    case True
    then have "pass P e st c = Some c'" using s by (simp add: pass_def)
    then show ?thesis using True t assms(3) by (simp only: run_pass(1)) simp
  next
    case False
    then have "pass P e st c = None" using s by (auto simp: pass_def split: stage_result.splits StageOutcome.splits)
    then show ?thesis using False s t by (simp only: run_stop(2)) (auto split: stage_result.splits if_splits)
  qed
qed

text \<open>The messages of the errors that come from outside the pipeline.\<close>

definition outside_errors :: "string list" where
  "outside_errors = [''Invalid URL'', ''dns lookup failed'', ''mtls agent'', ''network error'', ''Upstream after retries'',
     ''allowed is not iterable'', ''recordTrustContextAfterAllow'']"

text \<open>A settled result: an outcome that answers the request, or an exception that is not a fault of the pipeline.\<close>

fun settled :: "gw_exn + StageOutcome \<Rightarrow> bool" where
  "settled (Inr out) = (out \<noteq> Continue)"
| "settled (Inl (PlainError m)) = (m \<in> set outside_errors)"
| "settled (Inl _) = True"

definition has_claims :: "StageContext \<Rightarrow> bool" where
  "has_claims c \<longleftrightarrow> sx_claims c \<noteq> None"

definition has_score :: "StageContext \<Rightarrow> bool" where
  "has_score c \<longleftrightarrow> sx_claims c \<noteq> None \<and> sx_trustScore c \<noteq> None \<and> sx_trustCtx c \<noteq> None"

definition has_decision :: "StageContext \<Rightarrow> bool" where
  "has_decision c \<longleftrightarrow> has_score c \<and> sx_policyDecision c \<noteq> None"

definition has_status :: "StageContext \<Rightarrow> bool" where
  "has_status c \<longleftrightarrow> has_score c \<and> sx_upstreamStatus c \<noteq> None"

text \<open>After the endpoints of the gateway have left the pipeline, no stage hands the request to the router.\<close>

definition answered :: "gw_exn + StageOutcome \<Rightarrow> bool" where
  "answered r \<longleftrightarrow> settled r \<and> r \<noteq> Inr Bypass"

lemmas has_defs = has_claims_def has_score_def has_decision_def has_status_def answered_def stage_triple_def

lemma triple_bypasses:
  "stage_triple settled (\<lambda>_. True) public_bypass_stage (\<lambda>_. True)"
  "stage_triple settled (\<lambda>_. True) honeypot_bypass_stage (\<lambda>_. True)"
  by (simp_all add: stage_triple_def public_bypass_stage_def honeypot_bypass_stage_def)

lemma triple_auth: "stage_triple settled (\<lambda>_. True) auth_stage has_claims"
  by (auto simp: has_defs auth_stage_def Let_def split: AuthOutcome.splits prod.splits bool.splits)

lemma triple_revocation: "stage_triple settled has_claims revocation_stage has_claims"
  by (auto simp: has_defs revocation_stage_def split: prod.splits bool.splits)

lemma triple_auth_only: "stage_triple settled has_claims auth_only_stage has_claims"
  by (auto simp: has_defs auth_only_stage_def split: prod.splits bool.splits)

lemma triple_trust_score: "stage_triple answered has_claims trust_score_stage has_score"
  by (auto simp: has_defs trust_score_stage_def Let_def split: prod.splits)

lemma triple_policy: "stage_triple answered has_score policy_stage has_decision"
  by (auto simp: has_defs policy_stage_def split: prod.splits)

lemma buildMfaChallengeOutcome_answered: "answered (Inr (buildMfaChallengeOutcome ch rid))"
  by (cases "(ch, rid)" rule: buildMfaChallengeOutcome.cases) (simp_all add: answered_def)

definition ends :: "stage_result \<Rightarrow> bool" where
  "ends r \<longleftrightarrow> (case r of Exn x \<Rightarrow> x = AuditExhaustedException | Ret out \<Rightarrow> out \<noteq> Continue \<and> out \<noteq> Bypass)"

lemma clients_end:
  "ends (fst (challenge_client P e c cl g))" "ends (fst (deny_client P e c cl d g))"
  "ends (fst (issue_challenge P e c cl score err g))"
  using buildMfaChallengeOutcome_answered
  by (auto simp: ends_def answered_def challenge_client_def deny_client_def issue_challenge_def Let_def
      split: prod.splits bool.splits)

lemma ends_triple:
  "ends (fst x) \<Longrightarrow> case x of (Exn y, c', g') \<Rightarrow> answered (Inl y)
     | (Ret out, c', g') \<Rightarrow> if out = Continue then B c' else answered (Inr out)"
  by (auto simp: ends_def answered_def split: prod.splits stage_result.splits)

lemma ends_or_continues:
  assumes "\<And>P e c g. A c \<Longrightarrow> ends (fst (st P e c g)) \<or> (\<exists>g'. st P e c g = (Ret Continue, c, g'))" and "\<And>c. A c \<Longrightarrow> B c"
  shows "stage_triple answered A st B"
  unfolding stage_triple_def
proof (intro allI impI)
  fix P e c and g :: Gateway
  assume h: "A c"
  from assms(1) [OF h, of P e g] show "case st P e c g of (Exn y, c', g') \<Rightarrow> answered (Inl y)
     | (Ret out, c', g') \<Rightarrow> if out = Continue then B c' else answered (Inr out)"
    using assms(2) [OF h] by (elim disjE exE) (rule ends_triple, auto)
qed

lemma triple_hashcash: "stage_triple answered has_score hashcash_stage has_score"
  by (rule ends_or_continues)
    (use clients_end(3) in \<open>auto simp: has_score_def hashcash_stage_def Let_def
       split: prod.splits VerifyResult.splits if_splits\<close>)

lemma triple_mfa_promotion: "stage_triple answered has_decision mfa_promotion_stage has_score"
  by (rule ends_or_continues)
    (use clients_end(1,2) in \<open>auto simp: has_decision_def has_score_def mfa_promotion_stage_def
       split: decision_label.splits option.splits prod.splits MfaValidateResult.splits\<close>)

lemma triple_audit_allow: "stage_triple answered has_score audit_allow_stage has_score"
  by (auto simp: has_defs audit_allow_stage_def Let_def split: prod.splits log_outcome.splits)

lemma forward_errors:
  assumes "forward cfg reg ne req cl score = (Inl x, sent)"
  shows "settled (Inl (exn_of x))"
proof -
  have raw: "retry_loop net n k = (Inl y, m, d) \<Longrightarrow> settled (Inl (exn_of y))" for net n k y m d
    by (induction net n k arbitrary: y m d rule: retry_loop.induct)
      (auto simp: outside_errors_def split: sum.splits if_splits prod.splits)
  have target: "resolve_target reg ne req = Inl y \<Longrightarrow> settled (Inl (exn_of y))" for y
    by (auto simp: resolve_target_def resolve_service_def Let_def outside_errors_def
        split: option.splits if_splits sum.splits prod.splits guard_result.splits)
  have resp: "assertValidProxyResponse r = Some y \<Longrightarrow> settled (Inl (exn_of y))" for r y
    by (auto simp: assertValidProxyResponse_def Let_def split: if_splits)
  show ?thesis
    using assms target raw resp
    by (auto simp: forward_def executeWithRetry_def Let_def outside_errors_def
        split: sum.splits prod.splits if_splits option.splits)
qed

lemma exn_of_answered: "settled (Inl x) \<Longrightarrow> answered (Inl x)"
  by (simp add: answered_def)

lemma triple_proxy: "stage_triple answered has_score proxy_stage has_status"
  using forward_errors
  by (fastforce simp: has_defs proxy_stage_def Let_def split: prod.splits sum.splits option.splits)

lemma triple_bopla_strip: "stage_triple answered has_status bopla_strip_stage has_status"
  by (auto simp: has_defs bopla_strip_stage_def strip_def Let_def outside_errors_def
      split: sum.splits allowed.splits if_splits)

lemma triple_record: "stage_triple answered has_status record_trust_context_stage (\<lambda>_. False)"
  by (auto simp: has_defs record_trust_context_stage_def outside_errors_def split: option.splits)

lemma run_triple':
  assumes "stage_triple Q A f B" and "A c" and "\<And>c'. B c' \<Longrightarrow> Q (fst (orchestrator_run P e rest c'))"
  shows "Q (fst (orchestrator_run P e ((i, f) # rest) c))"
  using run_triple [of Q A "(i, f)" B] assms by simp

lemma triple_mono: "stage_triple Q A f B \<Longrightarrow> (\<And>r. Q r \<Longrightarrow> Q' r) \<Longrightarrow> stage_triple Q' A f B"
  unfolding stage_triple_def by (fastforce split: prod.splits stage_result.splits if_splits)

lemma drop_stages: "drop 5 PIPELINE_STAGES =
    [(''trust_score'', trust_score_stage), (''hashcash'', hashcash_stage), (''policy'', policy_stage),
     (''mfa_promotion'', mfa_promotion_stage), (''audit_allow'', audit_allow_stage), (''proxy'', proxy_stage),
     (''bopla_strip'', bopla_strip_stage), (''record_trust_context'', record_trust_context_stage)]"
  "PIPELINE_STAGES = [(''public_bypass'', public_bypass_stage), (''honeypot_bypass'', honeypot_bypass_stage), (''auth'', auth_stage),
     (''revocation'', revocation_stage), (''auth_only'', auth_only_stage)] @ drop 5 PIPELINE_STAGES"
  by (simp_all add: PIPELINE_STAGES_def numeral_eq_Suc)

lemma late_answered:
  assumes "has_claims c"
  shows "answered (fst (orchestrator_run P e (drop 5 PIPELINE_STAGES) c))"
  unfolding drop_stages(1)
  by (rule run_triple' [OF triple_trust_score assms], erule run_triple' [OF triple_hashcash],
      erule run_triple' [OF triple_policy], erule run_triple' [OF triple_mfa_promotion],
      erule run_triple' [OF triple_audit_allow], erule run_triple' [OF triple_proxy],
      erule run_triple' [OF triple_bopla_strip], erule run_triple' [OF triple_record]) simp

lemma answered_settled: "answered r \<Longrightarrow> settled r"
  by (simp add: answered_def)

lemma run_settled: "settled (fst (orchestrator_run P e PIPELINE_STAGES c))"
  unfolding append.simps
  by (subst drop_stages(2), unfold append.simps, rule run_triple' [OF triple_bypasses(1)], simp,
      rule run_triple' [OF triple_bypasses(2)], simp, rule run_triple' [OF triple_auth], simp,
      erule run_triple' [OF triple_revocation], erule run_triple' [OF triple_auth_only], rule answered_settled,
      erule late_answered)

lemma ran_stages_Cons:
  "ran_stages P e (st # rest) c = fst st # (case pass P e st c of None \<Rightarrow> [] | Some c' \<Rightarrow> ran_stages P e rest c')"
  by (cases "pass P e st c") (simp_all add: run_pass(2) run_stop(1))

lemma ran_prefix: "prefix (ran_stages P e sts c) (map fst sts)"
proof (induction sts arbitrary: c)
  case Nil
  show ?case by (simp add: ran_stages_def)
next
  case (Cons st sts)
  then show ?case by (simp add: ran_stages_Cons split: option.splits)
qed

text \<open>The result of a run, round by round.\<close>

lemma run_Cons:
  "fst (orchestrator_run P e (st # rest) c) =
     (case pass P e st c of
        Some c' \<Rightarrow> fst (orchestrator_run P e rest c')
      | None \<Rightarrow> (case fst (snd st P e c (re_shared e (fst st))) of Exn x \<Rightarrow> Inl x | Ret out \<Rightarrow> Inr out))"
  by (cases "pass P e st c") (simp_all only: run_pass(1) run_stop(2) option.case)

definition auth_only_context :: "ReqEnv \<Rightarrow> Request \<Rightarrow> UserClaims \<Rightarrow> StageContext" where
  "auth_only_context e req cl =
     (buildStageContext e req)\<lparr>sx_claims := Some cl, sx_req := req\<lparr>user := Some cl, gateway_validated := True\<rparr>\<rparr>"

lemma auth_only_bypasses:
  assumes "isAuthOnlyPath (req_path req)"
  shows "fst (auth_only_stage P e (auth_only_context e req cl) (re_shared e ''auth_only'')) = Ret Bypass \<longleftrightarrow>
    fst (recordWithTimeoutBestEffort (dp_audit P) (re_insert e ''auth_only'') 200
      (stage_entry (buildStageContext e req) (userId cl) L_allow None None) (gw_audit (re_shared e ''auth_only''))) \<noteq> Threw"
proof -
  have "stage_entry (auth_only_context e req cl) = stage_entry (buildStageContext e req)"
    by (simp add: stage_entry_def auth_only_context_def fun_eq_iff)
  then show ?thesis using assms
    by (auto simp: auth_only_stage_def auth_only_context_def best_effort_def Let_def split: prod.splits)
qed

lemma bypass_iff:
  "fst (orchestrator_run P e PIPELINE_STAGES (buildStageContext e req)) = Inr Bypass \<longleftrightarrow>
     req_path req \<in> set PUBLIC_PATHS \<or> req_path req \<in> set HONEYPOT_PATHS
   \<or> (\<exists>cl. authenticated P e req cl \<and> isAuthOnlyPath (req_path req)
        \<and> fst (auth_only_stage P e (auth_only_context e req cl) (re_shared e ''auth_only'')) = Ret Bypass)"
proof -
  have rest: "fst (orchestrator_run P e (drop 5 PIPELINE_STAGES) (auth_only_context e req cl)) \<noteq> Inr Bypass" for cl
    using late_answered [of "auth_only_context e req cl" P e]
    by (auto simp: has_claims_def auth_only_context_def answered_def)
  have auth: "fst (auth_stage P e c g) = Ret out \<Longrightarrow> out \<noteq> Bypass" for c g out
    by (auto simp: auth_stage_def Let_def split: AuthOutcome.splits prod.splits bool.splits)
  have revocation: "fst (revocation_stage P e c g) = Ret out \<Longrightarrow> out \<noteq> Bypass" for c g out
    by (auto simp: revocation_stage_def split: option.splits prod.splits bool.splits)
  show ?thesis
    apply (subst drop_stages(2))
    using rest auth revocation
    by (auto simp: run_Cons pass_stages authenticated_def auth_only_context_def public_bypass_stage_def
        honeypot_bypass_stage_def simp del: orchestrator_run.simps(2) split: AuthOutcome.splits stage_result.splits)
qed

lemma proxy_ran_iff:
  "''proxy'' \<in> set (ran_stages P e PIPELINE_STAGES (buildStageContext e req)) \<longleftrightarrow>
     (\<exists>cl. authenticate (dp_jose P) (dp_auth P) req = AuthOk cl \<and> admitted P e req cl \<and> audit_confirmed P e)"
proof -
  have split: "PIPELINE_STAGES = take 10 PIPELINE_STAGES @ (''proxy'', proxy_stage) # drop 11 PIPELINE_STAGES"
    by (simp add: PIPELINE_STAGES_def numeral_eq_Suc)
  have "''proxy'' \<notin> fst ` set (take 10 PIPELINE_STAGES)" by (simp add: PIPELINE_STAGES_def numeral_eq_Suc)
  from ran_reaches [OF this, of P e proxy_stage "drop 11 PIPELINE_STAGES" "buildStageContext e req"] split
  have "''proxy'' \<in> set (ran_stages P e PIPELINE_STAGES (buildStageContext e req)) \<longleftrightarrow>
      passes P e (take 10 PIPELINE_STAGES) (buildStageContext e req) \<noteq> None" by simp
  also have "\<dots> \<longleftrightarrow> (\<exists>cl. authenticate (dp_jose P) (dp_auth P) req = AuthOk cl \<and> admitted P e req cl \<and> audit_confirmed P e)"
    unfolding passes_to_proxy by (auto split: AuthOutcome.splits)
  finally show ?thesis .
qed

section \<open>Properties\<close>

text \<open>
  C1. The guards of the upstream, exactly: the proxy stage runs for a request if and only if its path is not public, a decoy
  or an endpoint of the gateway itself, its bearer token authenticates, the token was not revoked when the revocation
  stage looked, its risk score is at most the trigger threshold or it carries a proof of work the service accepts for
  that user, device and score, the policy allows it or challenges it while it carries a valid MFA token bound to
  that user, device and address, and the ALLOW row was confirmed by the database within the configured attempts.
  Whatever else other requests do to the shared state between the stages.
\<close>

theorem upstream_iff_admitted:
  "''proxy'' \<in> set (ran_stages P e PIPELINE_STAGES (buildStageContext e req)) \<longleftrightarrow>
     (\<exists>cl. authenticate (dp_jose P) (dp_auth P) req = AuthOk cl
        \<and> req_path req \<notin> set PUBLIC_PATHS \<and> req_path req \<notin> set HONEYPOT_PATHS \<and> \<not> isAuthOnlyPath (req_path req)
        \<and> \<not> fst (isRevoked (re_now e ''revocation'') (jti cl) (gw_revocations (re_shared e ''revocation'')))
        \<and> pow_passes P e req cl (score_for P e req cl)
        \<and> promoted P e req cl (decision_for P e req cl (score_for P e req cl))
        \<and> (\<exists>k < nat (walMaxRetries (dp_audit P)). ie_result (re_insert e ''audit_allow'') k = Stored))"
  unfolding proxy_ran_iff by (auto simp: admitted_def authenticated_def audit_confirmed_def)


text \<open>
  C5. Every request is settled after at most one pass over the thirteen stages: the run visits a non-empty prefix of the
  pipeline and ends with an outcome the middleware can write or with an exception from outside (the audit trail
  exhausted, an HTTP error of the proxy, a network, field-policy or recording error); it never falls off the end and never
  hits a guard for missing context. Whatever reaches the global filter is turned into a response.
\<close>

theorem pipeline_settles:
  "settled (fst (orchestrator_run P e PIPELINE_STAGES (buildStageContext e req)))
   \<and> ran_stages P e PIPELINE_STAGES (buildStageContext e req) \<noteq> []
   \<and> prefix (ran_stages P e PIPELINE_STAGES (buildStageContext e req)) (map fst PIPELINE_STAGES)
   \<and> (case fst (gateway_use P e req) of
        Propagate x \<Rightarrow> settled (Inl x) \<and> http_exception_filter now False x \<noteq> None
      | _ \<Rightarrow> True)"
proof -
  have run: "settled (fst (orchestrator_run P e PIPELINE_STAGES (buildStageContext e req)))" by (rule run_settled)
  have filt: "http_exception_filter now False x \<noteq> None" for x
    by (simp add: http_exception_filter_def split: gw_exn.splits)
  obtain r c steps where o: "orchestrator_run P e PIPELINE_STAGES (buildStageContext e req) = (r, c, steps)"
    by (metis prod_cases3)
  have hte: "case fst (handleTerminalError P e x c g) of Propagate y \<Rightarrow> settled (Inl y) | _ \<Rightarrow> True" if "settled (Inl x)" for x g
    using that by (auto simp: handleTerminalError_def split: gw_exn.splits)
  have "case fst (gateway_use P e req) of Propagate y \<Rightarrow> settled (Inl y) | _ \<Rightarrow> True"
  proof (cases r)
    case (Inl x)
    then show ?thesis using run o hte [of x "re_shared e ''end''"]
      by (auto simp: gateway_use_def Let_def respond_def split: prod.splits Answer.splits)
  next
    case (Inr out)
    then have "out \<noteq> Continue" using run o by simp
    then show ?thesis using Inr o
      by (cases out) (auto simp: gateway_use_def Let_def respond_def writeOutcome_def)
  qed
  then show ?thesis
    using run filt ran_prefix [of P e PIPELINE_STAGES "buildStageContext e req"]
    by (auto simp: PIPELINE_STAGES_def ran_stages_Cons split: Answer.splits)
qed

text \<open>
  When the middleware hands a request to the router, in terms of what the stages do. The write of the short-circuit stage is best-effort by its description; that it
  can throw, because its entry has the decision \<open>allow\<close> and so goes through the retries, is a divergence of the code.
\<close>

lemma next_iff:
  "fst (gateway_use P e req) = Next \<longleftrightarrow>
     req_method req = ''OPTIONS'' \<or> req_path req \<in> set PUBLIC_PATHS \<or> req_path req \<in> set HONEYPOT_PATHS
   \<or> (\<exists>cl. isAuthOnlyPath (req_path req) \<and> authenticate (dp_jose P) (dp_auth P) req = AuthOk cl
        \<and> \<not> fst (isRevoked (re_now e ''revocation'') (jti cl) (gw_revocations (re_shared e ''revocation'')))
        \<and> fst (recordWithTimeoutBestEffort (dp_audit P) (re_insert e ''auth_only'') 200
              (stage_entry (buildStageContext e req) (userId cl) L_allow None None) (gw_audit (re_shared e ''auth_only''))) \<noteq> Threw)"
proof (cases "req_method req = ''OPTIONS''")
  case False
  obtain r c steps where o: "orchestrator_run P e PIPELINE_STAGES (buildStageContext e req) = (r, c, steps)"
    by (metis prod_cases3)
  have "fst (handleTerminalError P e x c g) \<noteq> Next" for x g
    by (auto simp: handleTerminalError_def split: gw_exn.splits)
  then have "fst (gateway_use P e req) = Next \<longleftrightarrow> r = Inr Bypass"
    using False o
    by (auto simp: gateway_use_def Let_def respond_def writeOutcome_def split: sum.splits StageOutcome.splits prod.splits)
      (metis fst_conv)+
  with bypass_iff [of P e req] o False auth_only_bypasses [of req P e] show ?thesis by (auto simp: authenticated_def)
qed (simp add: gateway_use_def)

text \<open>
  C4. Who reaches a controller. The middleware hands a request to the router only if it is a CORS preflight, or its path is one of the two public
  paths or of the seven decoy paths, or its path is an endpoint of the gateway itself (one of the listed paths, or one of the two
  administration prefixes or below it) and its bearer token authenticates and is not revoked. No other path, however it is spelled, reaches a
  controller through the pipeline, and none of the later stages opens one. Conversely, each of these requests is handed on, those to
  the endpoints of the gateway provided that the database confirms one of the stage's inserts or the 200 ms of the best-effort write run out first.
\<close>

theorem controller_reached:
  assumes own: "own \<longleftrightarrow> req_path req \<in> {''/auth/revoke'', ''/mfa/initiate'', ''/mfa/verify'', ''/mfa/enroll'', ''/mfa/enroll/confirm'',
        ''/audit/logs'', ''/demo/mfa-token'', ''/mfa/admin/enrollment'', ''/policy/admin''}
      \<or> prefix ''/mfa/admin/enrollment/'' (req_path req) \<or> prefix ''/policy/admin/'' (req_path req)"
    and open_path: "open_path \<longleftrightarrow> req_path req \<in> {''/health'', ''/metrics'', ''/wp-login.php'', ''/.env'', ''/admin/config.json'',
        ''/api/v1/debug'', ''/graphql/introspection'', ''/actuator/health'', ''/api/v1/internal/keys''}"
  shows "(fst (gateway_use P e req) = Next \<longrightarrow> req_method req = ''OPTIONS'' \<or> open_path
        \<or> (\<exists>cl. own \<and> authenticate (dp_jose P) (dp_auth P) req = AuthOk cl
             \<and> \<not> fst (isRevoked (re_now e ''revocation'') (jti cl) (gw_revocations (re_shared e ''revocation'')))))
    \<and> (req_method req = ''OPTIONS'' \<or> open_path \<longrightarrow> fst (gateway_use P e req) = Next)
    \<and> (\<forall>cl. own \<and> authenticate (dp_jose P) (dp_auth P) req = AuthOk cl
         \<and> \<not> fst (isRevoked (re_now e ''revocation'') (jti cl) (gw_revocations (re_shared e ''revocation'')))
         \<and> ((\<exists>k < nat (walMaxRetries (dp_audit P)). ie_result (re_insert e ''auth_only'') k = Stored)
            \<or> 200 \<le> fst (snd (snd (audit_log (dp_audit P) (re_insert e ''auth_only'')
                 (stage_entry (buildStageContext e req) (userId cl) L_allow None None) (gw_audit (re_shared e ''auth_only''))))))
         \<longrightarrow> fst (gateway_use P e req) = Next)"
proof -
  have o: "open_path \<longleftrightarrow> req_path req \<in> set PUBLIC_PATHS \<or> req_path req \<in> set HONEYPOT_PATHS"
    unfolding open_path by (simp add: PUBLIC_PATHS_def HONEYPOT_PATHS_def)
  have w: "own \<longleftrightarrow> isAuthOnlyPath (req_path req)"
    unfolding own by (auto simp: isAuthOnlyPath_def AUTH_ONLY_EXACT_def AUTH_ONLY_PREFIXES_def)
  show ?thesis unfolding next_iff o w timeout_wrapper_throws_iff by (auto dest: leD)
qed

text \<open>
  C7. Fail-closed auditing, end to end: a request that passed every guard but whose ALLOW row the database never confirms is
  answered 503 with a retry hint and its request identifier, the proxy stage does not run, and the failure is counted.
\<close>

theorem audit_exhaustion_answers_503:
  assumes "admitted P e req cl" and "req_method req \<noteq> ''OPTIONS''"
    and "\<forall>k < nat (walMaxRetries (dp_audit P)). ie_result (re_insert e ''audit_allow'') k \<noteq> Stored"
  shows "case gateway_use P e req of (a, c, steps, g) \<Rightarrow>
    a = Respond \<lparr>resp_status = 503, resp_headers = [(''Retry-After'', ''5'')],
      resp_body = JObj [(''error'', JStr ''audit_unavailable''), (''requestId'', JStr (sx_requestId (buildStageContext e req)))]\<rparr>
    \<and> ''proxy'' \<notin> fst ` set steps
    \<and> gm_auditFailures (gw_metrics g) = Suc (gm_auditFailures (gw_metrics (re_shared e ''end'')))"
proof -
  let ?c = "admitted_context P e req cl" and ?start = "buildStageContext e req"
  have "passes P e (take 9 PIPELINE_STAGES) ?start = Some ?c"
    unfolding passes_to_audit using assms(1) by (simp add: admitted_def authenticated_def)
  note run = run_passes [OF this, of "drop 9 PIPELINE_STAGES", unfolded append_take_drop_id]
  have d: "drop 9 PIPELINE_STAGES = (''audit_allow'', audit_allow_stage) # drop 10 PIPELINE_STAGES"
    by (simp add: PIPELINE_STAGES_def numeral_eq_Suc)
  have cl: "sx_claims ?c = Some cl" "sx_requestId ?c = sx_requestId ?start" by (simp_all add: admitted_context_def Let_def)
  have stop: "pass P e (''audit_allow'', audit_allow_stage) ?c = None"
    using pass_audit_allow [OF cl(1)] assms(3) by (simp add: audit_confirmed_def)
  from audit_allow_exhausted [OF cl(1) assms(3)] run d stop have o: "fst (orchestrator_run P e PIPELINE_STAGES ?start) = Inl AuditExhaustedException"
      "fst (snd (orchestrator_run P e PIPELINE_STAGES ?start)) = ?c"
    by (simp_all add: run_Cons run_context(2) del: orchestrator_run.simps)
  have "ran_stages P e PIPELINE_STAGES ?start = map fst (take 9 PIPELINE_STAGES) @ [''audit_allow'']"
    using run(3) d stop by (simp add: run_stop(1))
  then have "''proxy'' \<notin> set (ran_stages P e PIPELINE_STAGES ?start)"
    by (simp add: PIPELINE_STAGES_def numeral_eq_Suc)
  then have "''proxy'' \<notin> fst ` set (snd (snd (orchestrator_run P e PIPELINE_STAGES ?start)))"
    by (simp add: ran_stages_def)
  with o assms(2) cl(2) show ?thesis
    by (auto simp: gateway_use_def Let_def respond_def handleTerminalError_def gw_emit_def metrics_defs split: prod.splits)
qed

section \<open>A request that gets through\<close>

definition pipe_deps :: Deps where
  "pipe_deps = \<lparr>dp_jose = sample_jose, dp_auth = sample_auth_cfg, dp_policy = default_policy, dp_enforce = (\<lambda>_ _ _. Some True),
     dp_fp = exact_fp, dp_trust = default_trust, dp_pow = sample_env, dp_hashcash = default_hashcash [],
     dp_mfalib = sample_lib, dp_mfa = sample_mfa_cfg, dp_audit = default_audit, dp_proxy = sample_proxy_cfg,
     dp_registry = sample_registry, dp_isMatch = (\<lambda>_ _. True), dp_fieldPolicy = [], dp_demo_mode = Some ''true'',
     dp_num_str = (\<lambda>_. ''0'')\<rparr>"

definition pipe_start :: Gateway where
  "pipe_start = \<lparr>gw_revocations = [], gw_blacklist = [], gw_threat = init_threat 0, gw_hashcash = idle_pow, gw_mfa = empty_mfa,
     gw_audit = [], gw_trustdb = \<lparr>trust_signals = [], trust_activity = []\<rparr>, gw_metrics = empty_gateway_metrics, gw_outbox = []\<rparr>"

definition pipe_env :: "InsertEnv \<Rightarrow> Gateway \<Rightarrow> ReqEnv" where
  "pipe_env ie g = \<lparr>re_uuid = ''r1'', re_startedAt = 0, re_t0 = (\<lambda>_. 0), re_now = (\<lambda>_. 0), re_t1 = (\<lambda>_. 1),
     re_reads = (\<lambda>_ _. None), re_clk = (\<lambda>_ _. 0), re_eval = \<lparr>ek_trust = 0, ek_challenge = 0, ek_deny = 0, ek_emit = 0\<rparr>,
     re_mfa_validate = env_at 0 ''a'', re_mfa_create = env_at 0 ''b'', re_insert = (\<lambda>_. ie), re_net = sample_net,
     re_record_fails = False, re_dbnow = 0, re_shared = (\<lambda>_. g)\<rparr>"

definition pipe_request :: Request where
  "pipe_request = sample_bearer_request\<lparr>originalUrl := Some ''/users//evil.test/x'',
     headers := (''x-demo-trust-score'', HStr ''0'') # headers sample_bearer_request\<rparr>"

lemma pipe_authenticate: "authenticate sample_jose sample_auth_cfg pipe_request = AuthOk sample_claims"
  by (simp add: authenticate_def pipe_request_def sample_bearer_request_def header_def before_char_def validateToken_def
      sample_jose_def extractClaims_def js_trim_def js_space_def sample_claims_def List.map_filter_def)

text \<open>A call of an endpoint of the gateway, by a client with a valid token.\<close>

definition own_request :: Request where
  "own_request = sample_bearer_request\<lparr>originalUrl := Some ''/policy/admin/rules?x=1''\<rparr>"

theorem controller_reached_witness: "fst (gateway_use pipe_deps (pipe_env flaky_env pipe_start) own_request) = Next"
proof -
  have "req_path own_request = ''/policy/admin/rules''"
    by (simp add: req_path_def raw_url_def own_request_def before_char_def nullish_def)
  then have path: "prefix ''/policy/admin/'' (req_path own_request)" by simp
  have au: "authenticate sample_jose sample_auth_cfg own_request = AuthOk sample_claims"
    by (simp add: authenticate_def own_request_def sample_bearer_request_def header_def before_char_def validateToken_def
      sample_jose_def extractClaims_def js_trim_def js_space_def sample_claims_def List.map_filter_def)
  have "\<exists>k < nat (walMaxRetries default_audit). ie_result flaky_env k = Stored"
    by (intro exI [of _ 2]) (simp add: default_audit_def flaky_env_def)
  with path au controller_reached [OF refl refl, where req = own_request and P = pipe_deps and e = "pipe_env flaky_env pipe_start"]
  show ?thesis by (simp add: pipe_deps_def pipe_env_def pipe_start_def isRevoked_def)
qed

lemma pipe_override: "demo_override pipe_deps pipe_request = Some (Fin 0)"
proof -
  have "js_number exact_fp ''0'' = Fin 0"
    by (simp add: js_number_def js_trim_def js_space_def split_sign_def decimal_value_def is_digit_def exponent_part_def
        parse_dec_def digit_val_def)
  then have "parseDemoOverride exact_fp (Some (HStr ''0'')) = Some (Fin 0)"
    by (simp add: parseDemoOverride_def js_trim_def js_space_def)
  then show ?thesis
    by (simp add: demo_override_def pipe_deps_def demo_isActive_def pipe_request_def header_def)
qed

lemma pipe_score: "score_for pipe_deps e pipe_request cl = Fin 0"
  by (simp add: score_for_def pipe_override)

lemma pipe_path: "req_path pipe_request = ''/users//evil.test/x''"
  by (simp add: req_path_def raw_url_def pipe_request_def before_char_def nullish_def)

lemma pipe_decision:
  "fst (evaluate default_policy (\<lambda>_ _ _. Some True) te ek
      (r\<lparr>user := Some cl, gateway_validated := True, req_trustScore := Some (Fin 0)\<rparr>) bl s)
   = ALLOW ''score_below_challenge_threshold'' (Fin 0) (user_subject (userId cl))"
proof -
  let ?r = "r\<lparr>user := Some cl, gateway_validated := True, req_trustScore := Some (Fin 0)\<rparr>"
  have pos: "0 < challenge_at default_policy l" "0 < deny_at default_policy l" for l
    by (cases l; simp add: default_policy_def)+
  have "first_match (\<lambda>_ _ _. Some True) (req_obj ?r) (req_act ?r) (buildSubjects cl) = Inr (Some (user_subject (userId cl)))"
    by (simp add: buildSubjects_def)
  from evaluate_matched [OF _ _ this, of te ek bl "Fin 0" bl "[]" default_policy s] show ?thesis
    using pos [of "challenge_level default_policy ek s"] pos [of "deny_level default_policy ek s"]
    by (simp add: score_seam_def map_decision_def Let_def)
qed

lemma pipe_admitted:
  assumes "gw_revocations g = []"
  shows "admitted pipe_deps (pipe_env ie g) pipe_request sample_claims"
  using assms pipe_authenticate pipe_score [of "pipe_env ie g" sample_claims]
  by (simp add: admitted_def authenticated_def pipe_path pow_passes_def promoted_def decision_for_def pipe_decision
      PUBLIC_PATHS_def HONEYPOT_PATHS_def isAuthOnlyPath_def AUTH_ONLY_EXACT_def AUTH_ONLY_PREFIXES_def)
    (simp add: pipe_deps_def pipe_env_def default_hashcash_def nullish_def isRevoked_def pipe_decision)

theorem audit_exhaustion_answers_503_witness:
  "\<exists>b. fst (gateway_use pipe_deps (pipe_env broken_env pipe_start) pipe_request) =
     Respond \<lparr>resp_status = 503, resp_headers = [(''Retry-After'', ''5'')], resp_body = b\<rparr>"
proof -
  let ?e = "pipe_env broken_env pipe_start"
  have "gw_revocations pipe_start = []" by (simp add: pipe_start_def)
  note adm = pipe_admitted [OF this, of broken_env]
  have m: "req_method pipe_request \<noteq> ''OPTIONS''"
    by (simp add: pipe_request_def sample_bearer_request_def sample_request_def)
  have "\<forall>k < nat (walMaxRetries (dp_audit pipe_deps)). ie_result (re_insert ?e ''audit_allow'') k \<noteq> Stored"
    by (simp add: pipe_env_def broken_env_def)
  from audit_exhaustion_answers_503 [OF adm m this] show ?thesis by (auto split: prod.splits)
qed

text \<open>The same request as a run of the system: the states in which it has \<open>n\<close> stages behind it.\<close>

definition at_stage :: "StageContext \<Rightarrow> nat \<Rightarrow> bool" where
  "at_stage c n \<longleftrightarrow> (\<exists>g. gw_revocations g = [] \<and>
     (sys_step pipe_deps)\<^sup>*\<^sup>* (pipe_start, Map.empty) (g, [0 \<mapsto> (c, drop n PIPELINE_STAGES)]))"

lemma pipeline_contracts: "st \<in> set PIPELINE_STAGES \<Longrightarrow> stage_contract (snd st)"
  unfolding pipeline_split early_stages_def late_stages_def
  using early_contracts audit_allow.claims_stage_axioms late_contracts
  by (auto simp: quiet_stage_def claims_stage_def)

lemma at_stage_Suc:
  assumes "at_stage c n" and "n < 13"
    and "\<And>g. gw_revocations g = [] \<Longrightarrow> pass pipe_deps (pipe_env flaky_env g) (PIPELINE_STAGES ! n) c = Some c'"
  shows "at_stage c' (Suc n)"
proof -
  let ?st = "PIPELINE_STAGES ! n"
  obtain g where g: "gw_revocations g = []"
      and reach: "(sys_step pipe_deps)\<^sup>*\<^sup>* (pipe_start, Map.empty) (g, [0 \<mapsto> (c, drop n PIPELINE_STAGES)])"
    using assms(1) by (auto simp: at_stage_def)
  have len: "n < length PIPELINE_STAGES" using assms(2) by (simp add: PIPELINE_STAGES_def)
  have sh: "re_shared (pipe_env flaky_env g) x = g" for x by (simp add: pipe_env_def)
  obtain g' where s: "orchestrator_step pipe_deps (pipe_env flaky_env g) ?st c g = (None, c', g')"
    using orchestrator_step_pass [of pipe_deps "pipe_env flaky_env g" ?st c] assms(3) [OF g]
    unfolding sh by (metis option.distinct(1) prod.collapse)
  obtain res g1 where "snd ?st pipe_deps (pipe_env flaky_env g) c g = (res, c', g1)" "gw_revocations g' = gw_revocations g1"
    using s by (auto simp: orchestrator_step_def split: prod.splits stage_result.splits)
  with stage_contract.revokes_nothing [OF pipeline_contracts [OF nth_mem [OF len]]] g
  have rv: "gw_revocations g' = []" by (metis set_empty subset_empty)
  have "sys_step pipe_deps (g, [0 \<mapsto> (c, drop n PIPELINE_STAGES)])
      (g', [0 \<mapsto> (c, drop n PIPELINE_STAGES)](0 \<mapsto> (c', drop (Suc n) PIPELINE_STAGES)))"
    by (rule sys_step.proceed [OF _ s]) (simp add: Cons_nth_drop_Suc [OF len])
  with reach have "(sys_step pipe_deps)\<^sup>*\<^sup>* (pipe_start, Map.empty) (g', [0 \<mapsto> (c', drop (Suc n) PIPELINE_STAGES)])"
    by (simp add: rtranclp.rtrancl_into_rtrancl)
  with rv show ?thesis unfolding at_stage_def by blast
qed

lemma at_stage_next:
  assumes "at_stage c n" and "PIPELINE_STAGES ! n = st" and "Suc n = m" and "n < 13"
    and "\<And>g. gw_revocations g = [] \<Longrightarrow> pass pipe_deps (pipe_env flaky_env g) st c = Some c'"
  shows "at_stage c' m"
  using at_stage_Suc [of c n c'] assms by simp

lemma pipe_at_start: "at_stage (buildStageContext (pipe_env flaky_env pipe_start) pipe_request) 0"
  unfolding at_stage_def
proof (intro exI conjI)
  show "gw_revocations pipe_start = []" by (simp add: pipe_start_def)
  have m: "req_method pipe_request \<noteq> ''OPTIONS''"
    by (simp add: pipe_request_def sample_bearer_request_def sample_request_def)
  have "sys_step pipe_deps (pipe_start, Map.empty)
      (pipe_start, [0 \<mapsto> (buildStageContext (pipe_env flaky_env pipe_start) pipe_request, PIPELINE_STAGES)])"
    by (rule sys_step.arrive [OF _ m]) simp
  then show "(sys_step pipe_deps)\<^sup>*\<^sup>* (pipe_start, Map.empty)
      (pipe_start, [0 \<mapsto> (buildStageContext (pipe_env flaky_env pipe_start) pipe_request, drop 0 PIPELINE_STAGES)])"
    unfolding drop_0 by (rule r_into_rtranclp)
qed

lemma pipe_context_simps:
  "buildStageContext (pipe_env ie g) req = buildStageContext (pipe_env flaky_env pipe_start) req"
  by (simp add: buildStageContext_def pipe_env_def)

lemma pipe_at_proxy: "\<exists>c. at_stage c 10 \<and> sx_claims c = Some sample_claims \<and> sx_trustScore c = Some (Fin 0)
    \<and> sx_requestId c = ''r1'' \<and> base_request (sx_req c) = base_request pipe_request"
proof -
  let ?a = "buildStageContext (pipe_env flaky_env pipe_start) pipe_request"
  let ?b = "?a\<lparr>sx_claims := Some sample_claims, sx_req := pipe_request\<lparr>user := Some sample_claims, gateway_validated := True\<rparr>\<rparr>"
  let ?c = "?b\<lparr>sx_trustScore := Some (Fin 0), sx_trustCtx := Some (trust_context ?b sample_claims), sx_trustOverride := True,
      sx_req := pipe_request\<lparr>user := Some sample_claims, gateway_validated := True, req_trustScore := Some (Fin 0)\<rparr>\<rparr>"
  let ?d = "?c\<lparr>sx_policyDecision := Some (ALLOW ''score_below_challenge_threshold'' (Fin 0) (user_subject (userId sample_claims)))\<rparr>"
  have nth: "PIPELINE_STAGES ! 0 = (''public_bypass'', public_bypass_stage)"
    "PIPELINE_STAGES ! 1 = (''honeypot_bypass'', honeypot_bypass_stage)" "PIPELINE_STAGES ! 2 = (''auth'', auth_stage)"
    "PIPELINE_STAGES ! 3 = (''revocation'', revocation_stage)" "PIPELINE_STAGES ! 4 = (''auth_only'', auth_only_stage)"
    "PIPELINE_STAGES ! 5 = (''trust_score'', trust_score_stage)" "PIPELINE_STAGES ! 6 = (''hashcash'', hashcash_stage)"
    "PIPELINE_STAGES ! 7 = (''policy'', policy_stage)" "PIPELINE_STAGES ! 8 = (''mfa_promotion'', mfa_promotion_stage)"
    "PIPELINE_STAGES ! 9 = (''audit_allow'', audit_allow_stage)"
    by (simp_all add: PIPELINE_STAGES_def)
  have path: "sx_reqPath ?a = ''/users//evil.test/x''" by (simp add: pipe_path)
  have deps: "dp_jose pipe_deps = sample_jose" "dp_auth pipe_deps = sample_auth_cfg" "dp_policy pipe_deps = default_policy"
    "dp_enforce pipe_deps = (\<lambda>_ _ _. Some True)" by (simp_all add: pipe_deps_def)
  have 1: "at_stage ?a 1"
    by (rule at_stage_next [OF pipe_at_start nth(1)]) (simp_all add: pass_bypasses path PUBLIC_PATHS_def del: context_simps)
  have 2: "at_stage ?a 2"
    by (rule at_stage_next [OF 1 nth(2)]) (simp_all add: pass_bypasses path HONEYPOT_PATHS_def del: context_simps)
  have 3: "at_stage ?b 3"
    by (rule at_stage_next [OF 2 nth(3)]) (simp_all add: pass_auth deps pipe_authenticate)
  have 4: "at_stage ?b 4"
    by (rule at_stage_next [OF 3 nth(4)]) (simp_all add: pass_revocation [of _ sample_claims], simp add: pipe_env_def isRevoked_def)
  have 5: "at_stage ?b 5"
    by (rule at_stage_next [OF 4 nth(5)])
      (simp_all add: pass_auth_only pipe_path isAuthOnlyPath_def AUTH_ONLY_EXACT_def AUTH_ONLY_PREFIXES_def)
  have 6: "at_stage ?c 6"
    by (rule at_stage_next [OF 5 nth(6)]) (simp_all add: pass_trust_score [of _ sample_claims] pipe_score pipe_override)
  have 7: "at_stage ?c 7"
    by (rule at_stage_next [OF 6 nth(7)])
      (simp_all add: pass_hashcash [of _ sample_claims "Fin 0"] pow_passes_def,
       simp add: pipe_deps_def default_hashcash_def nullish_def)
  have 8: "at_stage ?d 8"
    by (rule at_stage_next [OF 7 nth(8)]) (simp_all add: pass_policy deps pipe_decision)
  have 9: "at_stage ?d 9"
    by (rule at_stage_next [OF 8 nth(9)])
      (simp_all add: pass_mfa_promotion [of _ sample_claims] promoted_def)
  have 10: "at_stage ?d 10"
    by (rule at_stage_next [OF 9 nth(10)])
      (simp_all add: pass_audit_allow [of _ sample_claims] audit_confirmed_def,
       simp add: pipe_deps_def pipe_env_def default_audit_def flaky_env_def exI [of _ 2])
  have "sx_requestId ?a = ''r1''"
    by (simp add: buildStageContext_def pipe_env_def pipe_request_def sample_bearer_request_def sample_request_def
        header_string_def header_def nullish_def)
  then show ?thesis using 10 by (intro exI [of _ ?d]) simp
qed

lemma pipe_sends:
  assumes "sx_claims c = Some sample_claims" and "sx_trustScore c = Some (Fin 0)"
    and "base_request (sx_req c) = base_request pipe_request"
  shows "\<exists>r c' g' ob k. orchestrator_step pipe_deps (pipe_env flaky_env g) (''proxy'', proxy_stage) c g = (r, c', g')
    \<and> (sx_requestId c, ob, k) \<in> set (gw_outbox g')"
proof -
  have url: "originalUrl (base_request r) = originalUrl r" for r by (simp add: base_request_def)
  have "originalUrl (sx_req c) = originalUrl pipe_request"
    using url [of "sx_req c"] url [of pipe_request] assms(3) by simp
  then have "originalUrl (sx_req c) = Some ''/users//evil.test/x''" by (simp add: pipe_request_def)
  then have raw: "raw_url (sx_req c) = ''/users//evil.test/x''" by (simp add: raw_url_def nullish_def)
  have "\<exists>res ob k. forward sample_proxy_cfg sample_registry sample_net (sx_req c) sample_claims (Fin 0) = (res, Some (ob, k))
      \<and> ob_host ob = ''evil.test''"
    by (rule double_slash_core [where svc = "''users''" and rest = "''x''" and base = "''http://users:80''"])
      (simp_all add: raw sample_net_simps)
  then obtain res ob k where "forward sample_proxy_cfg sample_registry sample_net (sx_req c) sample_claims (Fin 0) = (res, Some (ob, k))"
    by blast
  then have "\<exists>r c' g'. proxy_stage pipe_deps (pipe_env flaky_env g) c g = (r, c', g') \<and> (sx_requestId c, ob, k) \<in> set (gw_outbox g')"
    using assms(1,2) by (cases res) (simp_all add: proxy_stage_def pipe_deps_def pipe_env_def)
  then show ?thesis
    by (auto simp: orchestrator_step_def split: stage_result.splits) blast+
qed

text \<open>
  C2. No unaudited upstream call, over every interleaving: starting from any state in which nothing has been sent, whatever
  requests arrive, however their stages and the endpoints interleave, and whatever the database, the network and the
  clocks do, every call that reached an upstream service has an ALLOW row in the audit trail with the same request
  identifier, user and method.
\<close>

theorem no_unaudited_upstream:
  assumes "(sys_step P)\<^sup>*\<^sup>* (g0, Map.empty) (g, ps)" and "gw_outbox g0 = []"
    and "(rid, ob, k) \<in> set (gw_outbox g)"
  shows "\<exists>l \<in> set (gw_audit g). ae_requestId (al_entry l) = Some rid \<and> ae_decision (al_entry l) = L_allow
    \<and> ae_action (al_entry l) = ob_method ob \<and> map_of (ob_headers ob) ''x-user-id'' = Some (ae_userId (al_entry l))"
  using reachable_audited [OF assms(1,2)] assms(3) by (fastforce simp: audited_def)

theorem no_unaudited_upstream_witness:
  "\<exists>g ps ob k. (sys_step pipe_deps)\<^sup>*\<^sup>* (pipe_start, Map.empty) (g, ps) \<and> (''r1'', ob, k) \<in> set (gw_outbox g)
    \<and> (\<exists>l \<in> set (gw_audit g). ae_requestId (al_entry l) = Some ''r1'' \<and> ae_decision (al_entry l) = L_allow)"
proof -
  obtain c where c: "at_stage c 10" "sx_claims c = Some sample_claims" "sx_trustScore c = Some (Fin 0)"
      "sx_requestId c = ''r1''" "base_request (sx_req c) = base_request pipe_request"
    using pipe_at_proxy by blast
  obtain g where reach: "(sys_step pipe_deps)\<^sup>*\<^sup>* (pipe_start, Map.empty) (g, [0 \<mapsto> (c, drop 10 PIPELINE_STAGES)])"
    using c(1) by (auto simp: at_stage_def)
  have d: "drop 10 PIPELINE_STAGES = (''proxy'', proxy_stage) # drop 11 PIPELINE_STAGES"
    by (simp add: PIPELINE_STAGES_def numeral_eq_Suc)
  obtain r c' g' ob k where s: "orchestrator_step pipe_deps (pipe_env flaky_env g) (''proxy'', proxy_stage) c g = (r, c', g')"
      and sent: "(''r1'', ob, k) \<in> set (gw_outbox g')"
    using pipe_sends [OF c(2,3,5)] c(4) by metis
  obtain g'' ps where "sys_step pipe_deps (g, [0 \<mapsto> (c, drop 10 PIPELINE_STAGES)]) (g'', ps)" "gw_outbox g'' = gw_outbox g'"
    using sys_step_exists [of "[0 \<mapsto> (c, drop 10 PIPELINE_STAGES)]" 0, OF _ s] d by (metis fun_upd_same)
  with reach sent have all: "(sys_step pipe_deps)\<^sup>*\<^sup>* (pipe_start, Map.empty) (g'', ps)" "(''r1'', ob, k) \<in> set (gw_outbox g'')"
    by (auto intro: rtranclp.rtrancl_into_rtrancl)
  moreover have "gw_outbox pipe_start = []" by (simp add: pipe_start_def)
  ultimately show ?thesis using no_unaudited_upstream by blast
qed

end
