(* ===== verification/Admin.thy ===== *)
theory Admin
  imports Pipeline_Admission
begin

text \<open>
  The endpoints of the gateway for administrators, \<open>src/src/policy/policy-admin.controller.ts\<close> and
  \<open>src/src/audit/audit.controller.ts\<close> with their request types, and the demonstration endpoint
  \<open>src/src/demo-mfa\<close>. A call goes through the global role guard, then the validation of its body or query,
  then the handler. Which handler a path selects is the router's business (\<open>Routes\<close>): the theorems here hold for
  whatever handler it selects. Casbin is the parameter \<open>Casbin\<close>.
\<close>

section \<open>Validation of bodies and queries\<close>

text \<open>\<open>whitelist\<close> with \<open>forbidNonWhitelisted\<close>: a field the type does not declare is refused.\<close>

definition only_fields :: "string list \<Rightarrow> (string \<times> 'a) list \<Rightarrow> bool" where
  "only_fields names fs \<longleftrightarrow> fst ` set fs \<subseteq> set names"

text \<open>\<open>@IsString() @IsNotEmpty() @MaxLength(n)\<close>\<close>

definition text_field :: "nat \<Rightarrow> json option \<Rightarrow> string option" where
  "text_field n v = (case v of Some (JStr s) \<Rightarrow> if s \<noteq> [] \<and> length s \<le> n then Some s else None | _ \<Rightarrow> None)"

definition PolicyRuleDto :: "json \<Rightarrow> rule option" where
  "PolicyRuleDto body =
     (case body of
        JObj fs \<Rightarrow>
          if \<not> only_fields [''sub'', ''obj'', ''act''] fs then None
          else (case (text_field 200 (map_of fs ''sub''), text_field 500 (map_of fs ''obj''), text_field 100 (map_of fs ''act'')) of
                  (Some sub, Some obj, Some act) \<Rightarrow> Some (sub, obj, act)
                | _ \<Rightarrow> None)
      | _ \<Rightarrow> None)"

definition level_of_name :: "string \<Rightarrow> ThreatLevel option" where
  "level_of_name s =
     (if s = ''Normal'' then Some Normal else if s = ''Elevated'' then Some Elevated
      else if s = ''Critical'' then Some Critical else None)"

definition EscalationLevelDto :: "json \<Rightarrow> ThreatLevel option" where
  "EscalationLevelDto body =
     (case body of
        JObj fs \<Rightarrow>
          if \<not> only_fields [''level''] fs then None
          else (case map_of fs ''level'' of Some (JStr s) \<Rightarrow> level_of_name s | _ \<Rightarrow> None)
      | _ \<Rightarrow> None)"

definition label_of_name :: "string \<Rightarrow> decision_label option" where
  "label_of_name s =
     (if s = ''allow'' then Some L_allow else if s = ''challenge'' then Some L_challenge
      else if s = ''deny'' then Some L_deny else None)"

text \<open>\<open>@Type(() => Number) @IsInt() @Min(lo) @Max(hi)\<close> on a query parameter.\<close>

definition int_param :: "fp \<Rightarrow> nat \<Rightarrow> nat option \<Rightarrow> nat \<Rightarrow> hval option \<Rightarrow> nat option" where
  "int_param f lo hi dflt v =
     (case v of
        None \<Rightarrow> Some dflt
      | Some (HArr _) \<Rightarrow> None
      | Some (HStr s) \<Rightarrow>
          (case js_number f s of
             Fin x \<Rightarrow>
               if x = of_int \<lfloor>x\<rfloor> \<and> of_nat lo \<le> x \<and> (case hi of None \<Rightarrow> True | Some h \<Rightarrow> x \<le> of_nat h)
               then Some (nat \<lfloor>x\<rfloor>) else None
           | _ \<Rightarrow> None))"

record AuditLogsQuery =
  aq_userId :: "string option"
  aq_decision :: "decision_label option"
  aq_limit :: nat
  aq_offset :: nat

definition AuditLogsQueryDto :: "fp \<Rightarrow> (string \<times> hval) list \<Rightarrow> AuditLogsQuery option" where
  "AuditLogsQueryDto f qs =
     (if \<not> only_fields [''userId'', ''decision'', ''limit'', ''offset''] qs then None
      else (case (map_of qs ''userId'', map_of qs ''decision'') of
              (Some (HArr _), _) \<Rightarrow> None
            | (_, Some (HArr _)) \<Rightarrow> None
            | (uid, dec) \<Rightarrow>
                (case (dec, int_param f 1 (Some 200) 50 (map_of qs ''limit''), int_param f 0 None 0 (map_of qs ''offset'')) of
                   (None, Some lm, Some off) \<Rightarrow>
                     Some \<lparr>aq_userId = (case uid of Some (HStr u) \<Rightarrow> Some u | _ \<Rightarrow> None), aq_decision = None,
                       aq_limit = lm, aq_offset = off\<rparr>
                 | (Some (HStr d), Some lm, Some off) \<Rightarrow>
                     (case label_of_name d of
                        None \<Rightarrow> None
                      | Some l \<Rightarrow> Some \<lparr>aq_userId = (case uid of Some (HStr u) \<Rightarrow> Some u | _ \<Rightarrow> None), aq_decision = Some l,
                          aq_limit = lm, aq_offset = off\<rparr>)
                 | _ \<Rightarrow> None)))"

section \<open>The controllers\<close>

record 'e Casbin =
  cb_getPolicy :: "'e \<Rightarrow> rule list"
  cb_addPolicy :: "'e \<Rightarrow> rule \<Rightarrow> bool \<times> 'e"
  cb_removePolicy :: "'e \<Rightarrow> rule \<Rightarrow> bool \<times> 'e"
  cb_savePolicy :: "'e \<Rightarrow> bool \<times> 'e"

record 'e AdminState =
  am_enforcer :: 'e
  am_threat :: Threat
  am_audit :: audit_logs

datatype admin_call =
    ListRules | AddRule json | RemoveRule json
  | GetEscalation | SetEscalation json | ClearEscalation
  | GetLogs "(string \<times> hval) list"

datatype admin_reply =
    Rules "rule list" | Added bool | Removed bool
  | Escalation Snapshot | LevelSet ThreatLevel | LevelCleared
  | Logs audit_logs nat

abbreviation bad_request :: gw_exn where
  "bad_request \<equiv> HttpException 400 ''Bad Request Exception''"

definition rule_reply :: "(bool \<Rightarrow> admin_reply) \<Rightarrow> (string + bool) \<times> 'e \<Rightarrow> 'e AdminState \<Rightarrow> (gw_exn + admin_reply) \<times> 'e AdminState" where
  "rule_reply reply res s =
     (case res of (Inl m, e) \<Rightarrow> (Inl (PlainError m), s\<lparr>am_enforcer := e\<rparr>) | (Inr b, e) \<Rightarrow> (Inr (reply b), s\<lparr>am_enforcer := e\<rparr>))"

definition getLogs :: "Deps \<Rightarrow> (string \<times> hval) list \<Rightarrow> audit_logs \<Rightarrow> gw_exn + admin_reply" where
  "getLogs P qs logs =
     (case AuditLogsQueryDto (dp_fp P) qs of
        None \<Rightarrow> Inl bad_request
      | Some q \<Rightarrow>
          (case queryLogs (aq_userId q) (aq_decision q) (Some (aq_limit q)) (Some (aq_offset q)) logs of
             (items, n) \<Rightarrow> Inr (Logs items n)))"

fun admin_handler ::
    "'e Casbin \<Rightarrow> Deps \<Rightarrow> ms \<Rightarrow> ms \<Rightarrow> admin_call \<Rightarrow> 'e AdminState \<Rightarrow> (gw_exn + admin_reply) \<times> 'e AdminState" where
  "admin_handler cb P now now' ListRules s = (Inr (Rules (cb_getPolicy cb (am_enforcer s))), s)"
| "admin_handler cb P now now' (AddRule body) s =
     (case PolicyRuleDto body of
        None \<Rightarrow> (Inl bad_request, s)
      | Some r \<Rightarrow> rule_reply Added (addRule (cb_addPolicy cb) (cb_savePolicy cb) r (am_enforcer s)) s)"
| "admin_handler cb P now now' (RemoveRule body) s =
     (case PolicyRuleDto body of
        None \<Rightarrow> (Inl bad_request, s)
      | Some r \<Rightarrow> rule_reply Removed (removeRule (cb_removePolicy cb) (cb_savePolicy cb) r (am_enforcer s)) s)"
| "admin_handler cb P now now' GetEscalation s =
     (case snapshot (dp_policy P) now now' (am_threat s) of (sn, t) \<Rightarrow> (Inr (Escalation sn), s\<lparr>am_threat := t\<rparr>))"
| "admin_handler cb P now now' (SetEscalation body) s =
     (case EscalationLevelDto body of
        None \<Rightarrow> (Inl bad_request, s)
      | Some l \<Rightarrow> (Inr (LevelSet l), s\<lparr>am_threat := setManualLevel l now (am_threat s)\<rparr>))"
| "admin_handler cb P now now' ClearEscalation s =
     (Inr LevelCleared, s\<lparr>am_threat := clearManualLevel (dp_policy P) now now' (am_threat s)\<rparr>)"
| "admin_handler cb P now now' (GetLogs qs) s = (getLogs P qs (am_audit s), s)"

text \<open>Both controllers carry \<open>@Roles('admin')\<close>; a guard that says no becomes a \<open>ForbiddenException\<close>.\<close>

definition admin_endpoint ::
    "'e Casbin \<Rightarrow> Deps \<Rightarrow> ms \<Rightarrow> ms \<Rightarrow> admin_call \<Rightarrow> Request \<Rightarrow> 'e AdminState \<Rightarrow> (gw_exn + admin_reply) \<times> 'e AdminState" where
  "admin_endpoint cb P now now' call req s =
     (if \<not> roles_guard (Some [''admin'']) req then (Inl (HttpException 403 ''Forbidden resource''), s)
      else admin_handler cb P now now' call s)"

text \<open>
  The demonstration endpoint is only registered in demo mode. Its guard has already let the gateway's own
  authentication stand, so the minted token belongs to the authenticated user.
\<close>

definition demo_mint_endpoint :: "Deps \<Rightarrow> mfa_env \<Rightarrow> Request \<Rightarrow> Mfa \<Rightarrow> (gw_exn + string \<times> ms) \<times> Mfa \<times> bus_event list" where
  "demo_mint_endpoint P env req st =
     (if \<not> demo_isActive (dp_demo_mode P) then (Inl (HttpException 404 ''Cannot POST /demo/mfa-token''), st, [])
      else (case jwt_guard (dp_jose P) (dp_auth P) (en_now env) False req of
              (Inl m, req', es) \<Rightarrow> (Inl (HttpException 401 (nullish m ''Unauthorized'')), st, es)
            | (Inr _, req', es) \<Rightarrow>
                (case user req' of
                   None \<Rightarrow> (Inl (PlainError ''user undefined''), st, es)
                 | Some u \<Rightarrow>
                     (case mintDemoMfaToken (dp_mfalib P) (dp_mfa P) env (userId u) (nullish (extractDeviceId req') [])
                             (extractIp req') st of
                        (None, st') \<Rightarrow> (Inl (PlainError ''mint failed''), st', es)
                      | (Some tok, st') \<Rightarrow> (Inr tok, st', es)))))"

section \<open>Lemmas\<close>

lemma text_field_Some: "text_field n v = Some s \<longleftrightarrow> v = Some (JStr s) \<and> s \<noteq> [] \<and> length s \<le> n"
  by (auto simp: text_field_def split: option.splits json.splits if_splits)

text \<open>The rule that reaches the enforcer has three non-empty fields of bounded length.\<close>

lemma PolicyRuleDto_Some:
  "PolicyRuleDto body = Some (sub, obj, act) \<Longrightarrow>
     sub \<noteq> [] \<and> length sub \<le> 200 \<and> obj \<noteq> [] \<and> length obj \<le> 500 \<and> act \<noteq> [] \<and> length act \<le> 100"
  by (auto simp: PolicyRuleDto_def text_field_Some split: json.splits if_splits option.splits)

lemma int_param_range:
  "int_param f lo hi d v = Some n \<Longrightarrow> lo \<le> d \<Longrightarrow> (\<And>h. hi = Some h \<Longrightarrow> d \<le> h) \<Longrightarrow>
     lo \<le> n \<and> (case hi of None \<Rightarrow> True | Some h \<Rightarrow> n \<le> h)"
  by (auto simp: int_param_def split: option.splits hval.splits jsnum.splits if_splits; linarith)

lemma page_size_bounded:
  assumes "AuditLogsQueryDto f qs = Some q"
  shows "1 \<le> aq_limit q \<and> aq_limit q \<le> 200"
proof -
  have "int_param f 1 (Some 200) 50 (map_of qs ''limit'') = Some (aq_limit q)"
    using assms by (auto simp: AuditLogsQueryDto_def split: if_splits option.splits hval.splits)
  from int_param_range [OF this] show ?thesis by simp
qed

text \<open>Refused or read-only calls change nothing an administrator could have changed.\<close>

lemma bad_request_keeps:
  "fst (admin_handler cb P now now' call s) = Inl bad_request \<Longrightarrow> snd (admin_handler cb P now now' call s) = s"
  by (cases call) (auto simp: rule_reply_def split: option.splits prod.splits sum.splits)

text \<open>
  When saving fails the call is answered with an error, yet the rule is already in the enforcer's memory and is
  enforced until the next start.
\<close>

lemma unsaved_rule_is_enforced:
  assumes "PolicyRuleDto body = Some r" and "cb_addPolicy cb (am_enforcer s) r = (True, e)" and "cb_savePolicy cb e = (False, e)"
  shows "admin_handler cb P now now' (AddRule body) s = (Inl (PlainError ''savePolicy returned false''), s\<lparr>am_enforcer := e\<rparr>)"
  using assms by (simp add: addRule_def rule_reply_def)

text \<open>A level set by an administrator is what the next read shows.\<close>

lemma set_then_get:
  assumes "EscalationLevelDto body = Some l" and "admin_handler cb P t0 t0' (SetEscalation body) s = (Inr rep, s')"
    and "admin_handler cb P t1 t1' GetEscalation s' = (Inr (Escalation sn), s'')"
  shows "sn_level sn = l \<and> sn_override sn = Some l"
proof -
  have s': "am_threat s' = setManualLevel l t0 (am_threat s)" using assms(1,2) by auto
  moreover have "manualOverride (setManualLevel l t0 t) = Some l" for t
    by (simp add: setManualLevel_def transitionTo_def Let_def)
  ultimately have o: "manualOverride (am_threat s') = Some l" by simp
  obtain t where "snapshot (dp_policy P) t1 t1' (am_threat s') = (sn, t)"
    using assms(3) by (auto split: prod.splits)
  with o show ?thesis
    by (auto simp: snapshot_def effectiveLevel_def Let_def currentChallengeThreshold_def currentDenyThreshold_def
        maybeCooldown_def split: prod.splits)
qed

text \<open>The request the router gets from the middleware carries a user only when the pipeline authenticated one.\<close>

abbreviation final_context :: "Deps \<Rightarrow> ReqEnv \<Rightarrow> (string \<times> stage) list \<Rightarrow> StageContext \<Rightarrow> StageContext" where
  "final_context P e sts c \<equiv> fst (snd (orchestrator_run P e sts c))"

lemma open_path_context:
  assumes "req_path req \<in> set PUBLIC_PATHS \<or> req_path req \<in> set HONEYPOT_PATHS"
  shows "final_context P e PIPELINE_STAGES (buildStageContext e req) = buildStageContext e req"
proof -
  let ?start = "buildStageContext e req"
  obtain rest where cons: "PIPELINE_STAGES = (''public_bypass'', public_bypass_stage) # (''honeypot_bypass'', honeypot_bypass_stage) # rest"
    by (simp add: PIPELINE_STAGES_def)
  show ?thesis
  proof (cases "req_path req \<in> set PUBLIC_PATHS")
    case True
    then have "pass P e (''public_bypass'', public_bypass_stage) ?start = None" by (simp add: pass_bypasses)
    then show ?thesis unfolding cons by (simp only: run_context(2), simp add: public_bypass_stage_def)
  next
    case False
    then have p1: "pass P e (''public_bypass'', public_bypass_stage) ?start = Some ?start"
      and p2: "pass P e (''honeypot_bypass'', honeypot_bypass_stage) ?start = None"
      using assms by (simp_all add: pass_bypasses)
    have "final_context P e PIPELINE_STAGES ?start = final_context P e ((''honeypot_bypass'', honeypot_bypass_stage) # rest) ?start"
      unfolding cons by (rule run_context(1) [OF p1])
    also have "\<dots> = ?start" unfolding run_context(2) [OF p2] by (simp add: honeypot_bypass_stage_def)
    finally show ?thesis .
  qed
qed

lemma own_path_context:
  assumes "authenticated P e req cl" and "isAuthOnlyPath (req_path req)"
  shows "final_context P e PIPELINE_STAGES (buildStageContext e req) = auth_only_context e req cl"
proof -
  have "passes P e (take 4 PIPELINE_STAGES) (buildStageContext e req) = Some (auth_only_context e req cl)"
    using assms(1) by (simp add: PIPELINE_STAGES_def pass_stages authenticated_def auth_only_context_def numeral_eq_Suc)
  from run_passes(2) [OF this, of "drop 4 PIPELINE_STAGES", unfolded append_take_drop_id]
  have "final_context P e PIPELINE_STAGES (buildStageContext e req) = final_context P e (drop 4 PIPELINE_STAGES) (auth_only_context e req cl)" .
  also have "drop 4 PIPELINE_STAGES = (''auth_only'', auth_only_stage) # drop 5 PIPELINE_STAGES"
    by (simp add: PIPELINE_STAGES_def numeral_eq_Suc)
  also have "final_context P e \<dots> (auth_only_context e req cl) =
      fst (snd (auth_only_stage P e (auth_only_context e req cl) (re_shared e ''auth_only'')))"
    using assms(2) by (simp add: run_context(2) pass_auth_only auth_only_context_def del: orchestrator_run.simps)
  also have "\<dots> = auth_only_context e req cl"
    by (auto simp: auth_only_stage_def split: option.splits prod.splits bool.splits)
  finally show ?thesis .
qed

lemma bypass_context:
  assumes "fst (orchestrator_run P e PIPELINE_STAGES (buildStageContext e req)) = Inr Bypass"
  shows "sx_req (final_context P e PIPELINE_STAGES (buildStageContext e req)) =
    (case authenticate (dp_jose P) (dp_auth P) req of
       AuthOk cl \<Rightarrow> if authenticated P e req cl \<and> isAuthOnlyPath (req_path req)
                  then req\<lparr>user := Some cl, gateway_validated := True\<rparr> else req
     | AuthInvalid r m \<Rightarrow> req)"
proof -
  from assms consider (open_path) "req_path req \<in> set PUBLIC_PATHS \<or> req_path req \<in> set HONEYPOT_PATHS"
    | (own_path) cl where "authenticated P e req cl" "isAuthOnlyPath (req_path req)"
    unfolding bypass_iff by blast
  then show ?thesis
  proof cases
    case open_path
    then have "\<not> authenticated P e req cl" for cl by (auto simp: authenticated_def)
    with open_path_context [OF open_path] show ?thesis by (simp split: AuthOutcome.split)
  next
    case own_path
    moreover from this(1) have "authenticate (dp_jose P) (dp_auth P) req = AuthOk cl" by (simp add: authenticated_def)
    ultimately show ?thesis using own_path_context [OF own_path] by (simp add: auth_only_context_def)
  qed
qed

lemma next_run:
  assumes "fst (gateway_use P e req) = Next" and "req_method req \<noteq> ''OPTIONS''"
  shows "fst (orchestrator_run P e PIPELINE_STAGES (buildStageContext e req)) = Inr Bypass"
    "fst (snd (gateway_use P e req)) = fst (snd (orchestrator_run P e PIPELINE_STAGES (buildStageContext e req)))"
proof -
  have n: "fst (handleTerminalError P e x c g) \<noteq> Next" for x c g
    by (auto simp: handleTerminalError_def split: gw_exn.splits)
  obtain r c steps where o: "orchestrator_run P e PIPELINE_STAGES (buildStageContext e req) = (r, c, steps)"
    by (metis prod_cases3)
  show "fst (orchestrator_run P e PIPELINE_STAGES (buildStageContext e req)) = Inr Bypass"
    using assms o n
    by (auto simp: gateway_use_def Let_def respond_def writeOutcome_def split: sum.splits StageOutcome.splits prod.splits)
      (metis fst_conv)+
  show "fst (snd (gateway_use P e req)) = fst (snd (orchestrator_run P e PIPELINE_STAGES (buildStageContext e req)))"
    using assms(2) o by (simp add: gateway_use_def Let_def split: prod.splits)
qed

section \<open>Properties\<close>

text \<open>
  C8. Who may administer the gateway, end to end: let a fresh request come through the middleware to the router.
  Whatever administration call the router then selects for it, the call is carried out exactly when the request is
  no preflight, goes to one of the gateway's own protected paths, and its bearer token authenticates, was not
  revoked when the revocation stage looked, and carries the role \<open>admin\<close>; otherwise it is answered 403 and neither the rules,
  nor the threat level, nor the log is touched or read.
\<close>

theorem admin_calls_exact:
  assumes "user req = None" and "fst (gateway_use P e req) = Next"
  shows "admin_endpoint cb P now now' call (sx_req (fst (snd (gateway_use P e req)))) s =
    (if req_method req \<noteq> ''OPTIONS'' \<and> isAuthOnlyPath (req_path req)
        \<and> (\<exists>cl. authenticated P e req cl \<and> ''admin'' \<in> set (roles cl))
     then admin_handler cb P now now' call s
     else (Inl (HttpException 403 ''Forbidden resource''), s))"
proof (cases "req_method req = ''OPTIONS''")
  case True
  then have "sx_req (fst (snd (gateway_use P e req))) = req" by (simp add: gateway_use_def)
  with True assms(1) show ?thesis by (simp add: admin_endpoint_def roles_guard_def)
next
  case False
  note r = next_run [OF assms(2) False]
  show ?thesis
    using assms(1) False unfolding r(2) bypass_context [OF r(1)]
    by (auto simp: admin_endpoint_def roles_guard_def authenticated_def split: AuthOutcome.splits)
qed

definition admin_deps :: Deps where
  "admin_deps = pipe_deps\<lparr>dp_jose := sample_jose\<lparr>jo_jwtVerify := (\<lambda>t k vo. Inr \<lparr>p_sub = ''root'', p_jti = ''t9'',
     p_exp = Some 2000000000, p_typ = JUndef, p_deviceId = JStr ''d1'', p_roles = JArr [JStr ''admin''], p_email = None,
     p_sessionId = None\<rparr>)\<rparr>\<rparr>"

definition admin_request :: Request where
  "admin_request = sample_bearer_request\<lparr>originalUrl := Some ''/policy/admin/escalation''\<rparr>"

definition admin_start :: "unit AdminState" where
  "admin_start = \<lparr>am_enforcer = (), am_threat = init_threat 0, am_audit = []\<rparr>"

definition no_casbin :: "unit Casbin" where
  "no_casbin = \<lparr>cb_getPolicy = (\<lambda>_. []), cb_addPolicy = (\<lambda>e _. (True, e)), cb_removePolicy = (\<lambda>e _. (False, e)), cb_savePolicy = (\<lambda>e. (True, e))\<rparr>"

lemma admin_sample:
  "user admin_request = None" "req_method admin_request = ''GET''" "req_path admin_request = ''/policy/admin/escalation''"
  "authenticate (dp_jose admin_deps) (dp_auth admin_deps) admin_request =
     AuthOk \<lparr>userId = ''root'', roles = [''admin''], jti = ''t9'', exp_at = Some 2000000000, email = None, sessionId = None, deviceId = ''d1''\<rparr>"
  by (simp_all add: admin_request_def sample_bearer_request_def sample_request_def admin_deps_def pipe_deps_def req_path_def raw_url_def
      authenticate_def header_def before_char_def validateToken_def sample_jose_def sample_auth_cfg_def extractClaims_def
      js_trim_def js_space_def List.map_filter_def nullish_def)

lemma admin_sample_authenticated:
  "authenticated admin_deps (pipe_env flaky_env pipe_start) admin_request
     \<lparr>userId = ''root'', roles = [''admin''], jti = ''t9'', exp_at = Some 2000000000, email = None, sessionId = None, deviceId = ''d1''\<rparr>"
  "isAuthOnlyPath (req_path admin_request)"
  using admin_sample by (simp_all add: authenticated_def PUBLIC_PATHS_def HONEYPOT_PATHS_def isRevoked_def pipe_env_def pipe_start_def
      isAuthOnlyPath_def AUTH_ONLY_PREFIXES_def)

lemma admin_sample_next: "fst (gateway_use admin_deps (pipe_env flaky_env pipe_start) admin_request) = Next"
proof -
  let ?e = "pipe_env flaky_env pipe_start" and ?cl = "\<lparr>userId = ''root'', roles = [''admin''], jti = ''t9'', exp_at = Some 2000000000,
    email = None, sessionId = None, deviceId = ''d1''\<rparr>"
  have "fst (recordWithTimeoutBestEffort (dp_audit admin_deps) (re_insert ?e ''auth_only'') 200
      (stage_entry (buildStageContext ?e admin_request) (userId ?cl) L_allow None None) (gw_audit (re_shared ?e ''auth_only''))) \<noteq> Threw"
    by (simp add: recordWithTimeoutBestEffort_def audit_log_def stage_entry_def writeBlocking_def admin_deps_def pipe_deps_def
        default_audit_def pipe_env_def pipe_start_def flaky_env_def repo_insert_def numeral_eq_Suc Let_def)
  then have "fst (orchestrator_run admin_deps ?e PIPELINE_STAGES (buildStageContext ?e admin_request)) = Inr Bypass"
    unfolding bypass_iff auth_only_bypasses [OF admin_sample_authenticated(2), symmetric]
    using admin_sample_authenticated by blast
  then show ?thesis using admin_sample
    by (cases "orchestrator_run admin_deps ?e PIPELINE_STAGES (buildStageContext ?e admin_request)")
      (simp add: gateway_use_def respond_def writeOutcome_def)
qed

theorem admin_calls_exact_witness:
  "admin_endpoint no_casbin admin_deps 5 5 (SetEscalation (JObj [(''level'', JStr ''Critical'')]))
     (sx_req (fst (snd (gateway_use admin_deps (pipe_env flaky_env pipe_start) admin_request)))) admin_start =
   (Inr (LevelSet Critical), admin_start\<lparr>am_threat := setManualLevel Critical 5 (init_threat 0)\<rparr>)"
proof -
  have "\<exists>cl. authenticated admin_deps (pipe_env flaky_env pipe_start) admin_request cl \<and> ''admin'' \<in> set (roles cl)"
    using admin_sample_authenticated(1) by fastforce
  then show ?thesis
    unfolding admin_calls_exact [OF admin_sample(1) admin_sample_next]
    using admin_sample admin_sample_authenticated(2) by (simp add: EscalationLevelDto_def only_fields_def level_of_name_def admin_start_def)
qed

end
