(* ===== verification/Server.thy ===== *)
theory Server
  imports Admin
begin

text \<open>
  The server around the pipeline: the order of the parts \<open>bootstrap\<close> of \<open>src/src/main.ts\<close> and \<open>src/src/app.module.ts\<close> register, and
  the two public endpoints, \<open>src/src/shared/health.controller.ts\<close> and \<open>src/src/metrics/metrics.controller.ts\<close>. Helmet,
  the CORS handler, the rate limiter, the body parser and the router are libraries and therefore parameters: headers put on every response, an
  answer to a preflight, an answer to a client over its limit, the parsed body or the exception for a body that is malformed or too
  large, and the controller's result. The body parser is the default one that \<open>NestFactory.create\<close> leaves enabled; the framework installs it when the server
  starts to listen, behind what \<open>bootstrap\<close> registers and ahead of the middlewares of the modules, and an exception of it
  goes to the global filter.
\<close>

section \<open>One request\<close>

record ServerEnv =
  se_helmet :: "(string \<times> string) list"
  se_cors :: "Request \<Rightarrow> HttpResponse option"
  se_limit :: "Request \<Rightarrow> HttpResponse option"
  se_body :: "Request \<Rightarrow> gw_exn + json"
  se_sha256 :: "string \<Rightarrow> string"
  se_random :: real
  se_router :: "Request \<Rightarrow> gw_exn + HttpResponse"
  se_filter_now :: ms

text \<open>
  \<open>AppModule.configure\<close>: the fingerprint middleware, then the gateway middleware, on every route. The result is the answer, the request as
  the router sees it, and the stages that ran.
\<close>

definition configure ::
    "ServerEnv \<Rightarrow> Deps \<Rightarrow> ReqEnv \<Rightarrow> Request \<Rightarrow> Answer \<times> Request \<times> (string \<times> Gateway) list" where
  "configure E P e req =
     (let j = ja4h_middleware (se_sha256 E) (se_random E) (re_now e ''ja4h'') req (gw_blacklist (re_shared e ''ja4h''))
      in case jr_response j of
           Some r \<Rightarrow> (Respond r, jr_request j, [])
         | None \<Rightarrow> (case gateway_use P e (jr_request j) of (a, c, steps, g) \<Rightarrow> (a, sx_req c, steps)))"

definition with_helmet :: "ServerEnv \<Rightarrow> HttpResponse \<Rightarrow> HttpResponse" where
  "with_helmet E r = r\<lparr>resp_headers := se_helmet E @ resp_headers r\<rparr>"

text \<open>The global filter for an exception of a controller or of the middleware; the response has not been started then.\<close>

definition filtered :: "ServerEnv \<Rightarrow> gw_exn \<Rightarrow> HttpResponse" where
  "filtered E x = the (http_exception_filter (se_filter_now E) False x)"

text \<open>A request through the whole server, in the order \<open>bootstrap\<close> registers the parts.\<close>

definition serve :: "ServerEnv \<Rightarrow> Deps \<Rightarrow> ReqEnv \<Rightarrow> Request \<Rightarrow> HttpResponse \<times> (string \<times> Gateway) list" where
  "serve E P e req =
     (let (r, steps) =
        (case se_cors E req of
           Some r \<Rightarrow> (r, [])
         | None \<Rightarrow>
        (case se_limit E req of
           Some r \<Rightarrow> (r, [])
         | None \<Rightarrow>
        (case se_body E req of
           Inl x \<Rightarrow> (filtered E x, [])
         | Inr body \<Rightarrow>
        (case configure E P e (req\<lparr>req_body := body\<rparr>) of
           (Respond r, _, steps) \<Rightarrow> (r, steps)
         | (Propagate x, _, steps) \<Rightarrow> (filtered E x, steps)
         | (Next, req', steps) \<Rightarrow>
             (case se_router E req' of Inl x \<Rightarrow> (filtered E x, steps) | Inr r \<Rightarrow> (r, steps))))))
      in (with_helmet E r, steps))"

section \<open>Health and metrics\<close>

definition health_check :: "ms \<Rightarrow> HttpResponse" where
  "health_check now = json_response 200 [(''status'', JStr ''ok''), (''timestamp'', JStr (iso_string now))]"

text \<open>
  The names the four registries hold. \<open>Registry.merge\<close> throws when two registries hold one name;
  otherwise it renders all of them, \<open>render\<close>.
\<close>

definition security_names :: "string list" where
  "security_names = [''zt_gateway_honeypot_triggers_total'']"

definition hashcash_names :: "string list" where
  "hashcash_names = [''zt_gateway_hashcash_total'', ''zt_gateway_hashcash_solve_seconds'']"

definition policy_names :: "string list" where
  "policy_names = [''zt_gateway_policy_decisions_total'', ''zt_gateway_policy_errors_total'', ''zt_gateway_threat_level'',
     ''zt_gateway_threat_transitions_total'']"

definition gateway_names :: "string list" where
  "gateway_names = [''zt_gateway_requests_total'', ''zt_gateway_token_revocations_total'', ''zt_gateway_ja4h_blacklist_size'',
     ''zt_gateway_fingerprint_drift_total'', ''zt_gateway_trust_provider_fault_total'', ''zt_gateway_stage_duration_seconds'',
     ''zt_gateway_audit_wal_duration_seconds'', ''zt_gateway_audit_failures_total'', ''zt_gateway_mfa_promotions_total'']"

definition getAggregatedMetrics :: "(string list \<Rightarrow> string) \<Rightarrow> string option" where
  "getAggregatedMetrics render =
     (let names = security_names @ hashcash_names @ policy_names @ gateway_names
      in if distinct names then Some (render names) else None)"

definition getMetrics :: "(string list \<Rightarrow> string) \<Rightarrow> gw_exn + HttpResponse" where
  "getMetrics render =
     (case getAggregatedMetrics render of
        None \<Rightarrow> Inl (PlainError ''A metric with the name has already been registered.'')
      | Some body \<Rightarrow> Inr \<lparr>resp_status = 200, resp_headers = [(''Content-Type'', ''text/plain; version=0.0.4; charset=utf-8'')],
          resp_body = JStr body\<rparr>)"

text \<open>A scrape never fails on a name used twice: no two metrics of the gateway share one.\<close>

lemma scrape_succeeds:
  "\<exists>body. getMetrics render = Inr \<lparr>resp_status = 200, resp_headers = [(''Content-Type'', ''text/plain; version=0.0.4; charset=utf-8'')],
     resp_body = JStr body\<rparr>"
proof -
  have "distinct (security_names @ hashcash_names @ policy_names @ gateway_names)"
    by (simp add: security_names_def hashcash_names_def policy_names_def gateway_names_def)
  then show ?thesis by (simp add: getMetrics_def getAggregatedMetrics_def)
qed

section \<open>Properties\<close>

lemma gateway_steps:
  "map fst (fst (snd (snd (gateway_use P e req)))) =
     (if req_method req = ''OPTIONS'' then [] else ran_stages P e PIPELINE_STAGES (buildStageContext e req))"
  by (simp add: gateway_use_def Let_def ran_stages_def split: prod.splits)

definition stamped :: "ServerEnv \<Rightarrow> Request \<Rightarrow> Request" where
  "stamped E req = req\<lparr>x_ja4h := Some (computeJa4h (se_sha256 E) req)\<rparr>"

definition blocked :: "ServerEnv \<Rightarrow> ReqEnv \<Rightarrow> Request \<Rightarrow> bool" where
  "blocked E e req \<longleftrightarrow> fst (isBlacklisted (re_now e ''ja4h'') (computeJa4h (se_sha256 E) req) (gw_blacklist (re_shared e ''ja4h'')))"

lemma configure_cases:
  "configure E P e req =
     (if blocked E e req
      then (Respond (json_response 403 [(''statusCode'', jint 403), (''message'', JStr ''Forbidden'')]), stamped E req, [])
      else (fst (gateway_use P e (stamped E req)), sx_req (fst (snd (gateway_use P e (stamped E req)))),
            fst (snd (snd (gateway_use P e (stamped E req))))))"
  by (simp add: configure_def Let_def ja4h_middleware_simps blocked_def stamped_def split: prod.splits)

text \<open>The fingerprint is computed from the request line and the headers, so it does not depend on the body.\<close>

lemma blocked_body [simp]: "blocked E e (req\<lparr>req_body := b\<rparr>) = blocked E e req"
  by (simp add: blocked_def computeJa4h_def ja4h_input_def header_string_def header_def)

lemma serve_steps:
  "map fst (snd (serve E P e req)) =
     (case se_body E req of
        Inl x \<Rightarrow> []
      | Inr b \<Rightarrow>
          if se_cors E req = None \<and> se_limit E req = None \<and> \<not> blocked E e req \<and> req_method req \<noteq> ''OPTIONS''
          then ran_stages P e PIPELINE_STAGES (buildStageContext e (stamped E (req\<lparr>req_body := b\<rparr>))) else [])"
proof (cases "se_body E req")
  case (Inl x)
  then show ?thesis by (auto simp: serve_def split: option.splits prod.splits)
next
  case (Inr b)
  let ?req = "req\<lparr>req_body := b\<rparr>"
  have "snd (serve E P e req) =
      (if se_cors E req = None \<and> se_limit E req = None then snd (snd (configure E P e ?req)) else [])"
    by (auto simp: serve_def Inr split: option.splits prod.splits Answer.splits sum.splits)
  moreover have "map fst (snd (snd (configure E P e ?req))) =
      (if blocked E e req \<or> req_method req = ''OPTIONS'' then []
       else ran_stages P e PIPELINE_STAGES (buildStageContext e (stamped E ?req)))"
    using gateway_steps [of P e "stamped E ?req"] by (auto simp: configure_cases stamped_def split: if_splits)
  ultimately show ?thesis by (auto simp: Inr split: if_splits)
qed

text \<open>
  C3. The whole way to an upstream, from the socket. A request is forwarded exactly when the CORS handler and the rate limiter let it
  through, the body parser accepts its body, the fingerprint the server itself computed is not on the blacklist, it is no preflight, its token
  authenticates, it passes every guard of the pipeline with that fingerprint and that body on it, and its ALLOW row is confirmed. Of the requests
  that the CORS handler and the rate limiter let through, one whose body is refused gets the answer of the global filter for the parser's
  exception, an HTTP exception with its own status, and one that is parsed but whose fingerprint is on the blacklist
  is answered 403 by the first middleware; for neither does a stage run, so nothing of it is authenticated, scored or audited. Every
  response carries the security headers.
\<close>

theorem served_upstream_iff:
  "(''proxy'' \<in> set (map fst (snd (serve E P e req))) \<longleftrightarrow>
      se_cors E req = None \<and> se_limit E req = None \<and> \<not> blocked E e req \<and> req_method req \<noteq> ''OPTIONS''
    \<and> (\<exists>b cl. se_body E req = Inr b
         \<and> authenticate (dp_jose P) (dp_auth P) (stamped E (req\<lparr>req_body := b\<rparr>)) = AuthOk cl
         \<and> admitted P e (stamped E (req\<lparr>req_body := b\<rparr>)) cl \<and> audit_confirmed P e))
   \<and> (\<forall>st m. se_cors E req = None \<and> se_limit E req = None \<and> se_body E req = Inl (HttpException st m) \<longrightarrow>
       resp_status (fst (serve E P e req)) = st \<and> snd (serve E P e req) = [])
   \<and> (\<forall>b. se_cors E req = None \<and> se_limit E req = None \<and> se_body E req = Inr b \<and> blocked E e req \<longrightarrow>
       resp_status (fst (serve E P e req)) = 403 \<and> snd (serve E P e req) = [])
   \<and> prefix (se_helmet E) (resp_headers (fst (serve E P e req)))"
proof (intro conjI allI impI)
  show "''proxy'' \<in> set (map fst (snd (serve E P e req))) \<longleftrightarrow>
      se_cors E req = None \<and> se_limit E req = None \<and> \<not> blocked E e req \<and> req_method req \<noteq> ''OPTIONS''
    \<and> (\<exists>b cl. se_body E req = Inr b
         \<and> authenticate (dp_jose P) (dp_auth P) (stamped E (req\<lparr>req_body := b\<rparr>)) = AuthOk cl
         \<and> admitted P e (stamped E (req\<lparr>req_body := b\<rparr>)) cl \<and> audit_confirmed P e)"
    unfolding serve_steps by (cases "se_body E req") (simp_all add: proxy_ran_iff)
  show "resp_status (fst (serve E P e req)) = st" "snd (serve E P e req) = []"
    if "se_cors E req = None \<and> se_limit E req = None \<and> se_body E req = Inl (HttpException st m)" for st m
    using that by (simp_all add: serve_def with_helmet_def filtered_def http_exception_filter_def json_response_def)
  show "resp_status (fst (serve E P e req)) = 403" "snd (serve E P e req) = []"
    if "se_cors E req = None \<and> se_limit E req = None \<and> se_body E req = Inr b \<and> blocked E e req" for b
    using that by (simp_all add: serve_def configure_cases with_helmet_def json_response_def)
  show "prefix (se_helmet E) (resp_headers (fst (serve E P e req)))"
    by (simp add: serve_def with_helmet_def split: prod.splits)
qed

text \<open>A client that fell into the trap a moment ago.\<close>

definition open_server :: ServerEnv where
  "open_server = \<lparr>se_helmet = [(''X-Content-Type-Options'', ''nosniff'')], se_cors = (\<lambda>_. None), se_limit = (\<lambda>_. None),
     se_body = (\<lambda>r. if req_body r = JOpaque then Inl (HttpException 400 ''Unexpected token'') else Inr (req_body r)), se_sha256 = (\<lambda>s. s),
     se_random = 1/2, se_router = (\<lambda>_. Inl (HttpException 404 ''Not Found'')), se_filter_now = 0\<rparr>"

definition trapped_env :: ReqEnv where
  "trapped_env = pipe_env flaky_env (pipe_start\<lparr>gw_blacklist := [(computeJa4h (\<lambda>s. s) pipe_request, \<lparr>expiresAt = 60000, terminal = True\<rparr>)]\<rparr>)"

theorem served_upstream_iff_witness:
  "resp_status (fst (serve open_server pipe_deps trapped_env pipe_request)) = 403
   \<and> snd (serve open_server pipe_deps trapped_env pipe_request) = []
   \<and> resp_status (fst (serve open_server pipe_deps trapped_env (pipe_request\<lparr>req_body := JOpaque\<rparr>))) = 400"
proof -
  have "blocked open_server trapped_env pipe_request"
    by (simp add: blocked_def open_server_def trapped_env_def pipe_env_def isBlacklisted_def)
  with served_upstream_iff [of open_server pipe_deps trapped_env pipe_request]
    served_upstream_iff [of open_server pipe_deps trapped_env "pipe_request\<lparr>req_body := JOpaque\<rparr>"]
  show ?thesis by (simp add: open_server_def pipe_request_def sample_bearer_request_def sample_request_def)
qed

end
