(* ===== verification/Own_Endpoints.thy ===== *)
theory Own_Endpoints
  imports Admin
begin

text \<open>
  The gateway's own endpoints as the framework calls them, \<open>src/src/mfa/mfa.controller.ts\<close> and \<open>src/src/auth/auth.controller.ts\<close> with the
  request types of \<open>mfa/dto\<close> and \<open>auth/dto\<close>: the global role guard, the token guard of the route, the validation of the body, then the
  handler. \<open>IsNumberString\<close> of the validation library is the parameter \<open>numeric\<close>. \<open>Inl\<close> is an exception left to the filter.
\<close>

section \<open>Request bodies\<close>

text \<open>\<open>@IsString() @IsNotEmpty()\<close>\<close>

definition name_field :: "json option \<Rightarrow> string option" where
  "name_field v = (case v of Some (JStr s) \<Rightarrow> if s \<noteq> [] then Some s else None | _ \<Rightarrow> None)"

text \<open>\<open>@IsString() @IsNotEmpty() @IsNumberString() @Length(6, 6)\<close>\<close>

definition code_field :: "(string \<Rightarrow> bool) \<Rightarrow> json option \<Rightarrow> string option" where
  "code_field numeric v = (case v of Some (JStr s) \<Rightarrow> if s \<noteq> [] \<and> numeric s \<and> length s = 6 then Some s else None | _ \<Rightarrow> None)"

definition VerifyMfaDto :: "(string \<Rightarrow> bool) \<Rightarrow> json \<Rightarrow> (string \<times> string) option" where
  "VerifyMfaDto numeric body =
     (case body of
        JObj fs \<Rightarrow>
          if \<not> only_fields [''challengeId'', ''totpCode''] fs then None
          else (case (name_field (map_of fs ''challengeId''), code_field numeric (map_of fs ''totpCode'')) of
                  (Some i, Some c) \<Rightarrow> Some (i, c) | _ \<Rightarrow> None)
      | _ \<Rightarrow> None)"

definition EnrollConfirmDto :: "(string \<Rightarrow> bool) \<Rightarrow> json \<Rightarrow> (string \<times> string) option" where
  "EnrollConfirmDto numeric body =
     (case body of
        JObj fs \<Rightarrow>
          if \<not> only_fields [''enrollmentId'', ''totpCode''] fs then None
          else (case (name_field (map_of fs ''enrollmentId''), code_field numeric (map_of fs ''totpCode'')) of
                  (Some i, Some c) \<Rightarrow> Some (i, c) | _ \<Rightarrow> None)
      | _ \<Rightarrow> None)"

text \<open>A type without fields: nothing may be sent; a missing body counts as an empty one.\<close>

fun InitiateMfaDto :: "json \<Rightarrow> bool" where
  "InitiateMfaDto JUndef = True"
| "InitiateMfaDto JNull = True"
| "InitiateMfaDto (JObj fs) = (fs = [])"
| "InitiateMfaDto (JArr xs) = (xs = [])"
| "InitiateMfaDto _ = False"

text \<open>\<open>@IsNumber()\<close> accepts every finite number.\<close>

definition RevokeTokenDto :: "json \<Rightarrow> (string \<times> real) option" where
  "RevokeTokenDto body =
     (case body of
        JObj fs \<Rightarrow>
          if \<not> only_fields [''jti'', ''exp''] fs then None
          else (case (name_field (map_of fs ''jti''), map_of fs ''exp'') of
                  (Some j, Some (JNum (Fin x))) \<Rightarrow> Some (j, x) | _ \<Rightarrow> None)
      | _ \<Rightarrow> None)"

section \<open>The calls\<close>

text \<open>Guards before the handler: the request goes on with the user the token guard put on it.\<close>

definition own_call ::
    "Deps \<Rightarrow> string list option \<Rightarrow> ms \<Rightarrow> (Request \<Rightarrow> 's \<Rightarrow> (gw_exn + 'r) \<times> 's \<times> bus_event list) \<Rightarrow> Request \<Rightarrow> 's \<Rightarrow>
      (gw_exn + 'r) \<times> 's \<times> bus_event list" where
  "own_call P required now handler req st =
     (if \<not> roles_guard required req then (Inl (HttpException 403 ''Forbidden resource''), st, [])
      else (case jwt_guard (dp_jose P) (dp_auth P) now False req of
              (Inl m, req', es) \<Rightarrow> (Inl (HttpException 401 (nullish m ''Unauthorized'')), st, es)
            | (Inr _, req', es) \<Rightarrow> (case handler req' st of (r, st', es') \<Rightarrow> (r, st', es @ es'))))"

text \<open>The handlers of the MFA controller read \<open>user.userId\<close>, which throws when there is no user.\<close>

definition for_user ::
    "(UserClaims \<Rightarrow> 's \<Rightarrow> HttpResponse \<times> 's \<times> bus_event list) \<Rightarrow> Request \<Rightarrow> 's \<Rightarrow> (gw_exn + HttpResponse) \<times> 's \<times> bus_event list" where
  "for_user h req st =
     (case user req of
        None \<Rightarrow> (Inl (PlainError ''Cannot read properties of undefined''), st, [])
      | Some u \<Rightarrow> (case h u st of (r, st', es) \<Rightarrow> (Inr r, st', es)))"

definition initiate_call :: "Deps \<Rightarrow> mfa_env \<Rightarrow> json \<Rightarrow> Request \<Rightarrow> Mfa \<Rightarrow> (gw_exn + HttpResponse) \<times> Mfa \<times> bus_event list" where
  "initiate_call P env body = own_call P None (en_now env)
     (\<lambda>req st. if \<not> InitiateMfaDto body then (Inl bad_request, st, []) else for_user (initiate (dp_mfa P) env req) req st)"

definition enroll_call :: "Deps \<Rightarrow> mfa_env \<Rightarrow> Request \<Rightarrow> Mfa \<Rightarrow> (gw_exn + HttpResponse) \<times> Mfa \<times> bus_event list" where
  "enroll_call P env = own_call P None (en_now env) (\<lambda>req. for_user (enroll_endpoint (dp_mfa P) env) req)"

definition verify_call ::
    "Deps \<Rightarrow> (string \<Rightarrow> bool) \<Rightarrow> mfa_env \<Rightarrow> json \<Rightarrow> Request \<Rightarrow> Mfa \<Rightarrow> (gw_exn + HttpResponse) \<times> Mfa \<times> bus_event list" where
  "verify_call P numeric env body = own_call P None (en_now env)
     (\<lambda>req st. case VerifyMfaDto numeric body of
        None \<Rightarrow> (Inl bad_request, st, [])
      | Some (i, c) \<Rightarrow> for_user (\<lambda>u. verify_endpoint (dp_mfalib P) (dp_mfa P) env req u i c) req st)"

definition confirm_call ::
    "Deps \<Rightarrow> (string \<Rightarrow> bool) \<Rightarrow> mfa_env \<Rightarrow> json \<Rightarrow> Request \<Rightarrow> Mfa \<Rightarrow> (gw_exn + HttpResponse) \<times> Mfa \<times> bus_event list" where
  "confirm_call P numeric env body = own_call P None (en_now env)
     (\<lambda>req st. case EnrollConfirmDto numeric body of
        None \<Rightarrow> (Inl bad_request, st, [])
      | Some (i, c) \<Rightarrow> for_user (\<lambda>u. confirm_endpoint (dp_mfalib P) (dp_mfa P) env req u i c) req st)"

definition delete_enrollment_call ::
    "Deps \<Rightarrow> mfa_env \<Rightarrow> string \<Rightarrow> Request \<Rightarrow> Mfa \<Rightarrow> (gw_exn + HttpResponse) \<times> Mfa \<times> bus_event list" where
  "delete_enrollment_call P env uid = own_call P (Some [''admin'']) (en_now env)
     (\<lambda>req st. case adminDeleteEnrollment env uid st of
        (Inl st', s, es) \<Rightarrow> (Inl (HttpException st' ''Internal Server Error''), s, es)
      | (Inr r, s, es) \<Rightarrow> (Inr r, s, es))"

section \<open>Lemmas\<close>

text \<open>A call is refused without any effect when a guard or the validation says no.\<close>

lemma own_call_refused:
  assumes "\<not> gateway_validated req" and "\<And>cl. authenticate (dp_jose P) (dp_auth P) req \<noteq> AuthOk cl"
  shows "fst (snd (own_call P required now h req st)) = st" "isl (fst (own_call P required now h req st))"
  using assms by (auto simp: own_call_def jwt_guard_def split: AuthOutcome.splits)

lemma malformed_body_keeps:
  "VerifyMfaDto numeric body = None \<Longrightarrow> fst (snd (verify_call P numeric env body req st)) = st"
  "EnrollConfirmDto numeric body = None \<Longrightarrow> fst (snd (confirm_call P numeric env body req st)) = st"
  "\<not> InitiateMfaDto body \<Longrightarrow> fst (snd (initiate_call P env body req st)) = st"
  by (auto simp: verify_call_def confirm_call_def initiate_call_def own_call_def split: prod.splits sum.splits)

text \<open>Only an administrator deletes an enrolment.\<close>

lemma delete_needs_admin:
  assumes "user req = None \<or> (\<exists>u. user req = Some u \<and> ''admin'' \<notin> set (roles u))"
  shows "delete_enrollment_call P env uid req st = (Inl (HttpException 403 ''Forbidden resource''), st, [])"
  using assms by (auto simp: delete_enrollment_call_def own_call_def roles_guard_def)

text \<open>
  The validation refuses no code an authenticator shows, when the library takes digits for a number: every code the service would accept has six digits.
\<close>

lemma shown_codes_pass:
  assumes "hotp hmac key c = Inr code" and "\<And>s. s \<noteq> [] \<Longrightarrow> list_all is_digit s \<Longrightarrow> numeric s" and "i \<noteq> []"
  shows "VerifyMfaDto numeric (JObj [(''challengeId'', JStr i), (''totpCode'', JStr code)]) = Some (i, code)"
    "EnrollConfirmDto numeric (JObj [(''enrollmentId'', JStr i), (''totpCode'', JStr code)]) = Some (i, code)"
proof -
  have "length code = 6" "list_all is_digit code" using hotp_six_digits [OF assms(1)] by simp_all
  moreover from this(1) have "code \<noteq> []" by auto
  ultimately show "VerifyMfaDto numeric (JObj [(''challengeId'', JStr i), (''totpCode'', JStr code)]) = Some (i, code)"
    "EnrollConfirmDto numeric (JObj [(''enrollmentId'', JStr i), (''totpCode'', JStr code)]) = Some (i, code)"
    using assms(2,3) by (simp_all add: VerifyMfaDto_def EnrollConfirmDto_def only_fields_def name_field_def code_field_def)
qed

text \<open>
  The expiry of a revocation is whatever number the body carries: with a time in the past the call reports success, and the token is not revoked, not
  even if it was before by the same user.
\<close>

lemma past_expiry_unrevokes:
  assumes "user req = Some u" and "x * 1000 \<le> now" and "\<And>e. map_of rv j = Some e \<Longrightarrow> rv_userId e = userId u"
  shows "\<exists>rv'. revoke_endpoint now j x req rv = (Inr ''Token revoked'', rv', [AUTH_TOKEN_REVOKED]) \<and> \<not> fst (isRevoked now j rv')"
  using assms by (auto simp: revoke_endpoint_def getEntry_def revoke_def isRevoked_def split: option.splits)

text \<open>
  Through the middleware: a fresh request that reaches the router on one of the gateway's own paths is handled for the user its token names, and the guard of the
  route does not authenticate it a second time.
\<close>

lemma own_call_through_gateway:
  assumes "user req = None" and "fst (gateway_use P e req) = Next" and "req_method req \<noteq> ''OPTIONS''" and "isAuthOnlyPath (req_path req)"
    and "req_path req \<notin> set PUBLIC_PATHS" and "req_path req \<notin> set HONEYPOT_PATHS"
  shows "\<exists>cl. authenticated P e req cl
    \<and> own_call P None now h (sx_req (fst (snd (gateway_use P e req)))) st = h (req\<lparr>user := Some cl, gateway_validated := True\<rparr>) st"
proof -
  note r = next_run [OF assms(2,3)]
  obtain cl where cl: "authenticated P e req cl" using r(1) assms(5,6) unfolding bypass_iff by blast
  then have "authenticate (dp_jose P) (dp_auth P) req = AuthOk cl" by (simp add: authenticated_def)
  then have "sx_req (fst (snd (gateway_use P e req))) = req\<lparr>user := Some cl, gateway_validated := True\<rparr>"
    using cl assms(4) unfolding r(2) bypass_context [OF r(1)] by simp
  then show ?thesis using cl by (auto simp: own_call_def roles_guard_def jwt_guard_def split: prod.splits)
qed

end
