(* ===== verification/Boot.thy ===== *)
theory Boot
  imports Config Honeypot Base64 Proxy Bopla Totp "HOL-Library.List_Lexorder" "HOL-Library.Char_ord"
begin

text \<open>
  From the environment to the configuration slices: the schema of \<open>src/src/config/config.module.ts\<close> (required variables,
  defaults, ranges) and the builders of \<open>src/src/config/slices\<close>. The validated configuration is the record
  \<open>ConfigService\<close>: the value the library returns for a variable at the type a builder asks for; that it
  fills in defaults and refuses values out of range is what \<open>with_defaults\<close> and \<open>schema_ok\<close> spell out.
  The variables whose schema is a plain number (the port, the rate limit, the trust and proof-of-work settings and
  the error percentage of the circuit breaker) may be fractions in the code; they are integers here, as in the slices.

  Then the steps of the start that can stop it: the migrations of \<open>src/src/main.ts\<close> and the registry of
  \<open>service-registry.service.ts\<close>; and the transaction wrapper of \<open>src/src/db/db.service.ts\<close>.
\<close>

record ConfigService =
  cs_str :: "string \<Rightarrow> string"
  cs_opt_str :: "string \<Rightarrow> string option"
  cs_int :: "string \<Rightarrow> int"
  cs_opt_int :: "string \<Rightarrow> int option"
  cs_num :: "string \<Rightarrow> real"

section \<open>The builders\<close>

definition buildPolicyConfig :: "ConfigService \<Rightarrow> PolicyConfig" where
  "buildPolicyConfig env = \<lparr>
     modelPath = cs_str env ''POLICY_MODEL_PATH'',
     csvPath = cs_str env ''POLICY_CSV_PATH'',
     challengeThreshold = cs_num env ''POLICY_CHALLENGE_THRESHOLD'',
     denyThreshold = cs_num env ''POLICY_DENY_THRESHOLD'',
     elevatedChallengeThreshold = cs_num env ''POLICY_ELEVATED_CHALLENGE_THRESHOLD'',
     elevatedDenyThreshold = cs_num env ''POLICY_ELEVATED_DENY_THRESHOLD'',
     criticalChallengeThreshold = cs_num env ''POLICY_CRITICAL_CHALLENGE_THRESHOLD'',
     criticalDenyThreshold = cs_num env ''POLICY_CRITICAL_DENY_THRESHOLD'',
     threatWindowMs = cs_int env ''THREAT_WINDOW_MS'',
     threatWindowMaxEvents = cs_int env ''THREAT_WINDOW_MAX_EVENTS'',
     threatElevatedDenies = cs_int env ''THREAT_ELEVATED_DENIES'',
     threatCriticalDenies = cs_int env ''THREAT_CRITICAL_DENIES'',
     threatElevatedInvalidTokens = cs_int env ''THREAT_ELEVATED_INVALID_TOKENS'',
     threatCriticalInvalidTokens = cs_int env ''THREAT_CRITICAL_INVALID_TOKENS'',
     threatElevatedHoneypot = cs_int env ''THREAT_ELEVATED_HONEYPOT'',
     threatCriticalHoneypot = cs_int env ''THREAT_CRITICAL_HONEYPOT'',
     threatElevatedMfaRateLimited = cs_int env ''THREAT_ELEVATED_MFA_RATE_LIMITED'',
     threatCriticalMfaRateLimited = cs_int env ''THREAT_CRITICAL_MFA_RATE_LIMITED'',
     threatCooldownMs = cs_int env ''THREAT_COOLDOWN_MS''\<rparr>"

definition buildMfaConfig :: "ConfigService \<Rightarrow> MfaConfig" where
  "buildMfaConfig env = \<lparr>
     mfa_jwtSecret = cs_str env ''MFA_JWT_SECRET'',
     totpEncryptionKey = cs_str env ''MFA_TOTP_ENCRYPTION_KEY'',
     challengeTtlMs = cs_int env ''MFA_CHALLENGE_TTL_MS'',
     tokenTtlMs = cs_int env ''MFA_TOKEN_TTL_MS'',
     mfa_rateLimitMax = cs_int env ''MFA_RATE_LIMIT_MAX'',
     mfa_rateLimitWindowMs = cs_int env ''MFA_RATE_LIMIT_WINDOW_MS'',
     issuerName = cs_str env ''MFA_ISSUER_NAME'',
     enrollPendingTtlMs = cs_int env ''MFA_ENROLL_PENDING_TTL_MS''\<rparr>"

definition buildTrustConfig :: "ConfigService \<Rightarrow> TrustConfig" where
  "buildTrustConfig env = \<lparr>
     knownThreshold = cs_int env ''TRUST_KNOWN_THRESHOLD'',
     decayHalfLifeMs = cs_int env ''TRUST_DECAY_HALFLIFE_MS'',
     anomalyWarmupN = cs_int env ''TRUST_ANOMALY_WARMUP_N'',
     frequencyWindowMs = cs_int env ''TRUST_FREQUENCY_WINDOW_MS'',
     frequencyNormalMax = cs_int env ''TRUST_FREQUENCY_NORMAL_MAX''\<rparr>"

definition buildHashcashConfig :: "ConfigService \<Rightarrow> HashcashConfig" where
  "buildHashcashConfig env = \<lparr>
     hmacSecret = cs_str env ''HASHCASH_HMAC_SECRET'',
     hc_challengeTtlMs = cs_int env ''HASHCASH_CHALLENGE_TTL_MS'',
     usedNonceCapacity = cs_int env ''HASHCASH_USED_NONCE_CAPACITY'',
     triggerThreshold = Some (cs_num env ''HASHCASH_TRIGGER_THRESHOLD''),
     difficultyMin = cs_int env ''HASHCASH_DIFFICULTY_MIN'',
     difficultyMax = cs_int env ''HASHCASH_DIFFICULTY_MAX''\<rparr>"

definition buildAuditConfig :: "ConfigService \<Rightarrow> AuditConfig" where
  "buildAuditConfig env = \<lparr>walBaseDelayMs = cs_int env ''AUDIT_WAL_BASE_DELAY_MS'',
     walMaxRetries = cs_int env ''AUDIT_WAL_MAX_RETRIES''\<rparr>"

definition buildAuthConfig :: "ConfigService \<Rightarrow> AuthConfig" where
  "buildAuthConfig env = \<lparr>
     jwtSecret = cs_str env ''JWT_SECRET'',
     jwtPublicKey = cs_opt_str env ''JWT_PUBLIC_KEY'',
     jwksUri = cs_opt_str env ''JWKS_URI'',
     jwtIssuer = cs_opt_str env ''JWT_ISSUER'',
     jwtAudience = cs_opt_str env ''JWT_AUDIENCE''\<rparr>"

definition buildProxyConfig :: "ConfigService \<Rightarrow> ProxyConfig" where
  "buildProxyConfig env = \<lparr>
     serviceRegistry = cs_str env ''PROXY_SERVICE_REGISTRY'',
     cbVolumeThreshold = cs_int env ''PROXY_CB_VOLUME_THRESHOLD'',
     cbErrorThreshold = cs_int env ''PROXY_CB_ERROR_THRESHOLD'',
     cbResetTimeout = cs_int env ''PROXY_CB_RESET_TIMEOUT'',
     maxRetries = cs_int env ''PROXY_MAX_RETRIES'',
     boplaPolicyPath = cs_str env ''BOPLA_POLICY_PATH''\<rparr>"

definition buildMtlsConfig :: "ConfigService \<Rightarrow> MtlsConfig" where
  "buildMtlsConfig env = \<lparr>
     caCertPath = cs_str env ''MTLS_CA_CERT_PATH'',
     clientCertPath = cs_str env ''MTLS_CLIENT_CERT_PATH'',
     clientKeyPath = cs_str env ''MTLS_CLIENT_KEY_PATH'',
     allowedSubjects = split_on CHR '','' (cs_str env ''MTLS_ALLOWED_SUBJECTS'')\<rparr>"

definition buildServerConfig :: "(string \<Rightarrow> json option) \<Rightarrow> ConfigService \<Rightarrow> ServerConfig" where
  "buildServerConfig parse env = \<lparr>
     sv_port = cs_int env ''PORT'',
     sv_nodeEnv = cs_str env ''NODE_ENV'',
     sv_corsOrigin = cs_str env ''CORS_ORIGIN'',
     sv_rateLimitWindowMs = cs_int env ''RATE_LIMIT_WINDOW_MS'',
     sv_rateLimitMax = cs_int env ''RATE_LIMIT_MAX'',
     sv_databaseUrl = cs_str env ''DATABASE_URL'',
     sv_blacklistTtlMs = cs_int env ''BLACKLIST_TTL_MS'',
     sv_honeypotRoutes = parseHoneypotRoutes parse (cs_opt_str env ''HONEYPOT_ROUTES''),
     sv_dbPoolMax = cs_opt_int env ''DB_POOL_MAX''\<rparr>"

section \<open>The schema\<close>

definition required_vars :: "string list" where
  "required_vars = [''MTLS_CA_CERT_PATH'', ''MTLS_CLIENT_CERT_PATH'', ''MTLS_CLIENT_KEY_PATH'', ''MTLS_ALLOWED_SUBJECTS'',
     ''JWT_SECRET'', ''DATABASE_URL'', ''HASHCASH_HMAC_SECRET'', ''MFA_JWT_SECRET'', ''MFA_TOTP_ENCRYPTION_KEY'',
     ''PROXY_SERVICE_REGISTRY'']"

definition string_defaults :: "(string \<times> string) list" where
  "string_defaults = [(''NODE_ENV'', ''development''), (''CORS_ORIGIN'', ''*''), (''HONEYPOT_ROUTES'', []),
     (''POLICY_MODEL_PATH'', ''policy/model.conf''), (''POLICY_CSV_PATH'', ''policy/policy.csv''),
     (''MFA_ISSUER_NAME'', ''ZT-Gateway''), (''BOPLA_POLICY_PATH'', ''policy/field-policy.json'')]"

definition int_defaults :: "(string \<times> int) list" where
  "int_defaults = [(''PORT'', 3000), (''RATE_LIMIT_WINDOW_MS'', 60000), (''RATE_LIMIT_MAX'', 100), (''BLACKLIST_TTL_MS'', 3600000),
     (''TRUST_KNOWN_THRESHOLD'', 3), (''TRUST_DECAY_HALFLIFE_MS'', 604800000), (''TRUST_ANOMALY_WARMUP_N'', 20),
     (''TRUST_FREQUENCY_WINDOW_MS'', 60000), (''TRUST_FREQUENCY_NORMAL_MAX'', 30),
     (''HASHCASH_CHALLENGE_TTL_MS'', 120000), (''HASHCASH_USED_NONCE_CAPACITY'', 10000),
     (''HASHCASH_DIFFICULTY_MIN'', 18), (''HASHCASH_DIFFICULTY_MAX'', 22),
     (''THREAT_WINDOW_MS'', 300000), (''THREAT_WINDOW_MAX_EVENTS'', 10000),
     (''THREAT_ELEVATED_DENIES'', 20), (''THREAT_CRITICAL_DENIES'', 50),
     (''THREAT_ELEVATED_INVALID_TOKENS'', 30), (''THREAT_CRITICAL_INVALID_TOKENS'', 80),
     (''THREAT_ELEVATED_HONEYPOT'', 5), (''THREAT_CRITICAL_HONEYPOT'', 15),
     (''THREAT_ELEVATED_MFA_RATE_LIMITED'', 5), (''THREAT_CRITICAL_MFA_RATE_LIMITED'', 15), (''THREAT_COOLDOWN_MS'', 600000),
     (''MFA_CHALLENGE_TTL_MS'', 300000), (''MFA_TOKEN_TTL_MS'', 600000), (''MFA_RATE_LIMIT_MAX'', 5),
     (''MFA_RATE_LIMIT_WINDOW_MS'', 60000), (''MFA_ENROLL_PENDING_TTL_MS'', 600000),
     (''PROXY_CB_VOLUME_THRESHOLD'', 5), (''PROXY_CB_ERROR_THRESHOLD'', 50), (''PROXY_CB_RESET_TIMEOUT'', 10000),
     (''PROXY_MAX_RETRIES'', 3), (''AUDIT_WAL_BASE_DELAY_MS'', 50), (''AUDIT_WAL_MAX_RETRIES'', 3)]"

definition num_defaults :: "(string \<times> real) list" where
  "num_defaults = [(''HASHCASH_TRIGGER_THRESHOLD'', 7/10), (''POLICY_CHALLENGE_THRESHOLD'', 1/2), (''POLICY_DENY_THRESHOLD'', 4/5),
     (''POLICY_ELEVATED_CHALLENGE_THRESHOLD'', 3/10), (''POLICY_ELEVATED_DENY_THRESHOLD'', 3/5),
     (''POLICY_CRITICAL_CHALLENGE_THRESHOLD'', 1/5), (''POLICY_CRITICAL_DENY_THRESHOLD'', 2/5)]"

text \<open>The lower and upper bounds of the numeric variables that have any.\<close>

definition int_ranges :: "(string \<times> int \<times> int option) list" where
  "int_ranges = [(''THREAT_WINDOW_MS'', 1000, None), (''THREAT_WINDOW_MAX_EVENTS'', 1, None),
     (''THREAT_ELEVATED_DENIES'', 1, None), (''THREAT_CRITICAL_DENIES'', 1, None),
     (''THREAT_ELEVATED_INVALID_TOKENS'', 1, None), (''THREAT_CRITICAL_INVALID_TOKENS'', 1, None),
     (''THREAT_ELEVATED_HONEYPOT'', 1, None), (''THREAT_CRITICAL_HONEYPOT'', 1, None),
     (''THREAT_ELEVATED_MFA_RATE_LIMITED'', 1, None), (''THREAT_CRITICAL_MFA_RATE_LIMITED'', 1, None),
     (''THREAT_COOLDOWN_MS'', 1000, None), (''MFA_CHALLENGE_TTL_MS'', 1, None), (''MFA_TOKEN_TTL_MS'', 1, None),
     (''MFA_RATE_LIMIT_MAX'', 1, None), (''MFA_RATE_LIMIT_WINDOW_MS'', 1, None), (''MFA_ENROLL_PENDING_TTL_MS'', 1, None),
     (''PROXY_CB_VOLUME_THRESHOLD'', 1, None), (''PROXY_CB_ERROR_THRESHOLD'', 1, Some 100),
     (''PROXY_CB_RESET_TIMEOUT'', 1000, None), (''PROXY_MAX_RETRIES'', 0, Some 10),
     (''AUDIT_WAL_BASE_DELAY_MS'', 1, None), (''AUDIT_WAL_MAX_RETRIES'', 1, Some 10)]"

definition num_ranges :: "string list" where
  "num_ranges = [''POLICY_CHALLENGE_THRESHOLD'', ''POLICY_DENY_THRESHOLD'', ''POLICY_ELEVATED_CHALLENGE_THRESHOLD'',
     ''POLICY_ELEVATED_DENY_THRESHOLD'', ''POLICY_CRITICAL_CHALLENGE_THRESHOLD'', ''POLICY_CRITICAL_DENY_THRESHOLD'']"

definition secret_vars :: "string list" where
  "secret_vars = [''JWT_SECRET'', ''HASHCASH_HMAC_SECRET'', ''MFA_JWT_SECRET'']"

text \<open>\<open>/^postgres(ql)?:\/\//i\<close>\<close>

definition postgres_url :: "string \<Rightarrow> bool" where
  "postgres_url s \<longleftrightarrow> prefix ''postgres://'' (to_lower s) \<or> prefix ''postgresql://'' (to_lower s)"

text \<open>The environment as written: values by name and type. Defaults fill what is missing.\<close>

record RawEnv =
  ev_strs :: "(string \<times> string) list"
  ev_ints :: "(string \<times> int) list"
  ev_nums :: "(string \<times> real) list"

definition env_str :: "RawEnv \<Rightarrow> string \<Rightarrow> string option" where
  "env_str raw n = (case map_of (ev_strs raw) n of Some v \<Rightarrow> Some v | None \<Rightarrow> map_of string_defaults n)"

definition with_defaults :: "RawEnv \<Rightarrow> ConfigService" where
  "with_defaults raw = \<lparr>
     cs_str = (\<lambda>n. nullish (env_str raw n) []),
     cs_opt_str = env_str raw,
     cs_int = (\<lambda>n. nullish (map_of (ev_ints raw) n) (nullish (map_of int_defaults n) 0)),
     cs_opt_int = map_of (ev_ints raw),
     cs_num = (\<lambda>n. nullish (map_of (ev_nums raw) n) (nullish (map_of num_defaults n) 0))\<rparr>"

text \<open>A string schema refuses the empty string unless it allows it, which only \<open>HONEYPOT_ROUTES\<close> does.\<close>

definition optional_vars :: "string list" where
  "optional_vars = [''JWT_PUBLIC_KEY'', ''JWKS_URI'', ''JWT_ISSUER'', ''JWT_AUDIENCE'']"

definition strings_ok :: "(string \<Rightarrow> bool) \<Rightarrow> RawEnv \<Rightarrow> bool" where
  "strings_ok uri_ok raw \<longleftrightarrow>
     list_all (\<lambda>n. map_of (ev_strs raw) n \<noteq> None) required_vars
   \<and> list_all (\<lambda>n. map_of (ev_strs raw) n \<noteq> Some [])
       (removeAll ''HONEYPOT_ROUTES'' (required_vars @ map fst string_defaults @ optional_vars))
   \<and> (case map_of (ev_strs raw) ''JWKS_URI'' of None \<Rightarrow> True | Some u \<Rightarrow> uri_ok u)"

definition ranges_ok :: "ConfigService \<Rightarrow> bool" where
  "ranges_ok env \<longleftrightarrow>
     list_all (\<lambda>(n, lo, hi). lo \<le> cs_int env n \<and> (case hi of None \<Rightarrow> True | Some h \<Rightarrow> cs_int env n \<le> h)) int_ranges
   \<and> list_all (\<lambda>n. unit_range (cs_num env n)) num_ranges
   \<and> list_all (\<lambda>n. 32 \<le> length (cs_str env n)) secret_vars
   \<and> cs_str env ''NODE_ENV'' \<in> {''development'', ''production'', ''test''}
   \<and> (case cs_opt_int env ''DB_POOL_MAX'' of None \<Rightarrow> True | Some n \<Rightarrow> 1 \<le> n \<and> n \<le> 200)
   \<and> postgres_url (cs_str env ''DATABASE_URL'')
   \<and> length (b64url_decode (cs_str env ''MFA_TOTP_ENCRYPTION_KEY'')) = 32"

text \<open>The custom validator reads the variables by name.\<close>

definition cross_ok :: "ConfigService \<Rightarrow> bool" where
  "cross_ok env \<longleftrightarrow>
     cs_num env ''POLICY_ELEVATED_CHALLENGE_THRESHOLD'' < cs_num env ''POLICY_CHALLENGE_THRESHOLD''
   \<and> cs_num env ''POLICY_CRITICAL_CHALLENGE_THRESHOLD'' < cs_num env ''POLICY_ELEVATED_CHALLENGE_THRESHOLD''
   \<and> cs_num env ''POLICY_ELEVATED_DENY_THRESHOLD'' < cs_num env ''POLICY_DENY_THRESHOLD''
   \<and> cs_num env ''POLICY_CRITICAL_DENY_THRESHOLD'' < cs_num env ''POLICY_ELEVATED_DENY_THRESHOLD''
   \<and> cs_int env ''THREAT_ELEVATED_DENIES'' < cs_int env ''THREAT_CRITICAL_DENIES''
   \<and> cs_int env ''THREAT_ELEVATED_INVALID_TOKENS'' < cs_int env ''THREAT_CRITICAL_INVALID_TOKENS''
   \<and> cs_int env ''THREAT_ELEVATED_HONEYPOT'' < cs_int env ''THREAT_CRITICAL_HONEYPOT''
   \<and> cs_int env ''THREAT_ELEVATED_MFA_RATE_LIMITED'' < cs_int env ''THREAT_CRITICAL_MFA_RATE_LIMITED''
   \<and> cs_int env ''MFA_CHALLENGE_TTL_MS'' < cs_int env ''MFA_TOKEN_TTL_MS''"

definition schema_ok :: "(string \<Rightarrow> bool) \<Rightarrow> RawEnv \<Rightarrow> bool" where
  "schema_ok uri_ok raw \<longleftrightarrow> strings_ok uri_ok raw \<and> ranges_ok (with_defaults raw) \<and> cross_ok (with_defaults raw)"

section \<open>Migrations\<close>

text \<open>
  Every start runs every file; nothing remembers which ran before. \<open>exec\<close> is the connection: a query returns
  whether it resolved. The client is closed on both ways out.
\<close>

fun run_files :: "(string \<Rightarrow> 'd \<Rightarrow> bool \<times> 'd) \<Rightarrow> string list \<Rightarrow> 'd \<Rightarrow> bool \<times> 'd" where
  "run_files exec [] d = (True, d)"
| "run_files exec (f # fs) d = (case exec f d of (True, d') \<Rightarrow> run_files exec fs d' | (False, d') \<Rightarrow> (False, d'))"

definition migration_files :: "string list \<Rightarrow> string list" where
  "migration_files dir = sort (filter (suffix ''.sql'') dir)"

definition runMigrations :: "(string \<Rightarrow> 'd \<Rightarrow> bool \<times> 'd) \<Rightarrow> string list \<Rightarrow> 'd \<Rightarrow> bool \<times> 'd" where
  "runMigrations exec dir d = run_files exec (migration_files dir) d"

section \<open>The service registry\<close>

fun object_entries :: "json \<Rightarrow> (string \<times> json) list option" where
  "object_entries (JObj fs) = Some fs"
| "object_entries (JArr xs) = Some (zip (map dec_string [0..<length xs]) xs)"
| "object_entries v = None"

text \<open>The constructor swallows what \<open>onModuleInit\<close> then reports.\<close>

definition registry_new :: "(string \<Rightarrow> json option) \<Rightarrow> ProxyConfig \<Rightarrow> (string \<times> json) list" where
  "registry_new parse cfg =
     (case parse (serviceRegistry cfg) of
        None \<Rightarrow> []
      | Some v \<Rightarrow> (case object_entries v of None \<Rightarrow> [] | Some es \<Rightarrow> es))"

definition registry_onModuleInit :: "(string \<Rightarrow> json option) \<Rightarrow> ProxyConfig \<Rightarrow> string option" where
  "registry_onModuleInit parse cfg =
     (case parse (serviceRegistry cfg) of
        None \<Rightarrow> Some ''PROXY_SERVICE_REGISTRY is not valid JSON''
      | Some v \<Rightarrow>
          (case object_entries v of
             None \<Rightarrow> Some ''PROXY_SERVICE_REGISTRY is empty''
           | Some es \<Rightarrow> if es = [] then Some ''PROXY_SERVICE_REGISTRY is empty'' else None))"

definition listServices :: "(string \<times> json) list \<Rightarrow> string list" where
  "listServices reg = map fst reg"

text \<open>One circuit breaker per service, created from the registry at start.\<close>

record BreakerOptions =
  br_volumeThreshold :: int
  br_errorThresholdPercentage :: int
  br_resetTimeout :: int
  br_name :: string

definition proxy_onModuleInit :: "ProxyConfig \<Rightarrow> (string \<times> json) list \<Rightarrow> (string, BreakerOptions) jsmap" where
  "proxy_onModuleInit cfg reg =
     fold (\<lambda>svc. AList.update svc \<lparr>br_volumeThreshold = cbVolumeThreshold cfg, br_errorThresholdPercentage = cbErrorThreshold cfg,
        br_resetTimeout = cbResetTimeout cfg, br_name = svc\<rparr>) (listServices reg) []"

section \<open>The field policy\<close>

text \<open>
  The file must be readable JSON; the count in the log line also needs a value that \<open>Object.keys\<close> accepts. The
  shape is not checked: \<open>field_policy_of\<close> says which values have the shape the rest of the code assumes.
\<close>

definition bopla_onModuleInit :: "(string \<Rightarrow> string option) \<Rightarrow> (string \<Rightarrow> json option) \<Rightarrow> ProxyConfig \<Rightarrow> string + json" where
  "bopla_onModuleInit readFile parse cfg =
     (case readFile (boplaPolicyPath cfg) of
        None \<Rightarrow> Inl ''BoPlaInterceptor: cannot read field policy''
      | Some raw \<Rightarrow>
          (case parse raw of
             None \<Rightarrow> Inl ''BoPlaInterceptor: field policy is not valid JSON''
           | Some v \<Rightarrow> if v \<in> {JNull, JUndef} then Inl ''Cannot convert undefined or null to object'' else Inr v))"

fun strings_of :: "json list \<Rightarrow> string list option" where
  "strings_of [] = Some []"
| "strings_of (JStr s # xs) = map_option ((#) s) (strings_of xs)"
| "strings_of (_ # xs) = None"

fun role_map_of :: "(string \<times> json) list \<Rightarrow> (string \<times> string list) list option" where
  "role_map_of [] = Some []"
| "role_map_of ((r, JArr xs) # fs) =
     (case (strings_of xs, role_map_of fs) of (Some ys, Some m) \<Rightarrow> Some ((r, ys) # m) | _ \<Rightarrow> None)"
| "role_map_of (_ # fs) = None"

fun patterns_of :: "(string \<times> json) list \<Rightarrow> FieldPolicy option" where
  "patterns_of [] = Some []"
| "patterns_of ((p, JObj fs) # ps) =
     (case (role_map_of fs, patterns_of ps) of (Some m, Some pol) \<Rightarrow> Some ((p, m) # pol) | _ \<Rightarrow> None)"
| "patterns_of (_ # ps) = None"

definition field_policy_of :: "json \<Rightarrow> FieldPolicy option" where
  "field_policy_of v = (case v of JObj ps \<Rightarrow> patterns_of ps | _ \<Rightarrow> None)"

section \<open>Transactions\<close>

text \<open>
  The commands a transaction sends over its client, in order; \<open>Work\<close> stands for everything the callback sends.
  \<open>ok\<close> tells which commands resolve and \<open>None\<close> is a rejection.
\<close>

datatype tx_command = Connect | Begin | Work | Commit | Rollback | Release

definition tx :: "(tx_command \<Rightarrow> bool) \<Rightarrow> 'r \<Rightarrow> 'r option \<times> tx_command list" where
  "tx ok result =
     (if \<not> ok Connect then (None, [Connect])
      else if \<not> ok Begin then (None, [Connect, Begin, Rollback, Release])
      else if \<not> ok Work then (None, [Connect, Begin, Work, Rollback, Release])
      else if \<not> ok Commit then (None, [Connect, Begin, Work, Commit, Rollback, Release])
      else (Some result, [Connect, Begin, Work, Commit, Release]))"

section \<open>Lemmas\<close>

text \<open>Every environment the schema accepts builds slices the rest of the development may rely on.\<close>

lemma schema_gives_valid_slices:
  assumes "schema_ok uri_ok raw"
  shows "config_valid (buildPolicyConfig (with_defaults raw)) (buildMfaConfig (with_defaults raw))"
    "1 \<le> walMaxRetries (buildAuditConfig (with_defaults raw)) \<and> walMaxRetries (buildAuditConfig (with_defaults raw)) \<le> 10"
    "0 \<le> maxRetries (buildProxyConfig (with_defaults raw)) \<and> maxRetries (buildProxyConfig (with_defaults raw)) \<le> 10"
    "1 \<le> mfa_rateLimitMax (buildMfaConfig (with_defaults raw))"
    "length (b64url_decode (totpEncryptionKey (buildMfaConfig (with_defaults raw)))) = 32"
    "32 \<le> length (jwtSecret (buildAuthConfig (with_defaults raw)))"
    "32 \<le> length (hmacSecret (buildHashcashConfig (with_defaults raw)))"
    "32 \<le> length (mfa_jwtSecret (buildMfaConfig (with_defaults raw)))"
    "serviceRegistry (buildProxyConfig (with_defaults raw)) \<noteq> []"
proof -
  let ?env = "with_defaults raw"
  have r: "ranges_ok ?env" and c: "cross_ok ?env" using assms by (simp_all add: schema_ok_def)
  have i: "list_all (\<lambda>(n, lo, hi). lo \<le> cs_int ?env n \<and> (case hi of None \<Rightarrow> True | Some h \<Rightarrow> cs_int ?env n \<le> h)) int_ranges"
    and n: "list_all (\<lambda>n. unit_range (cs_num ?env n)) num_ranges"
    and s: "list_all (\<lambda>n. 32 \<le> length (cs_str ?env n)) secret_vars"
    using r unfolding ranges_ok_def by blast+
  note i' = i [unfolded int_ranges_def, simplified] and n' = n [unfolded num_ranges_def, simplified]
  show "config_valid (buildPolicyConfig ?env) (buildMfaConfig ?env)"
    using c i' n' unfolding config_valid_def policy_ranges_def cross_field_check_None cross_ok_def
    by (simp add: buildPolicyConfig_def buildMfaConfig_def)
  show "1 \<le> walMaxRetries (buildAuditConfig ?env) \<and> walMaxRetries (buildAuditConfig ?env) \<le> 10"
    "0 \<le> maxRetries (buildProxyConfig ?env) \<and> maxRetries (buildProxyConfig ?env) \<le> 10"
    "1 \<le> mfa_rateLimitMax (buildMfaConfig ?env)"
    using i' by (simp_all add: buildAuditConfig_def buildProxyConfig_def buildMfaConfig_def)
  show "length (b64url_decode (totpEncryptionKey (buildMfaConfig ?env))) = 32"
    using r by (simp add: ranges_ok_def buildMfaConfig_def)
  show "32 \<le> length (jwtSecret (buildAuthConfig ?env))" "32 \<le> length (hmacSecret (buildHashcashConfig ?env))"
    "32 \<le> length (mfa_jwtSecret (buildMfaConfig ?env))"
    using s by (simp_all add: secret_vars_def buildAuthConfig_def buildHashcashConfig_def buildMfaConfig_def)
  show "serviceRegistry (buildProxyConfig ?env) \<noteq> []"
    using assms by (auto simp: schema_ok_def strings_ok_def required_vars_def buildProxyConfig_def with_defaults_def
        env_str_def nullish_def)
qed

text \<open>The defaults are the configuration the rest of the development calls by those names.\<close>

lemma defaults_are_defaults:
  assumes "ev_ints raw = []" and "ev_nums raw = []" and "\<forall>n \<in> fst ` set string_defaults. map_of (ev_strs raw) n = None"
  shows "buildPolicyConfig (with_defaults raw) = default_policy"
    "buildTrustConfig (with_defaults raw) = default_trust" "buildAuditConfig (with_defaults raw) = default_audit"
  using assms
  by (simp_all add: buildPolicyConfig_def default_policy_def buildTrustConfig_def default_trust_def buildAuditConfig_def
      default_audit_def with_defaults_def env_str_def int_defaults_def num_defaults_def string_defaults_def nullish_def)

text \<open>
  The migrations that ran are, in ascending order of their names, all \<open>.sql\<close> files, or those up to the first that
  failed; in the second case the start is aborted.
\<close>

lemma migration_files_sorted: "sorted (migration_files dir)" "set (migration_files dir) = {f \<in> set dir. suffix ''.sql'' f}"
  by (auto simp: migration_files_def)

definition recorded :: "(string \<Rightarrow> bool) \<Rightarrow> string \<Rightarrow> string list \<Rightarrow> bool \<times> string list" where
  "recorded ok f d = (ok f, d @ [f])"

lemma runMigrations_trace:
  assumes "runMigrations (recorded ok) dir [] = (b, ran_files)"
  shows "b \<longleftrightarrow> (\<forall>f \<in> set (migration_files dir). ok f)"
    "b \<Longrightarrow> ran_files = migration_files dir"
    "\<not> b \<Longrightarrow> \<exists>f rest. migration_files dir = ran_files @ rest \<and> ran_files = butlast ran_files @ [f] \<and> \<not> ok f
        \<and> (\<forall>g \<in> set (butlast ran_files). ok g)"
proof -
  have *: "(b' \<longleftrightarrow> (\<forall>f \<in> set fs. ok f)) \<and> (b' \<longrightarrow> d' = d @ fs)
      \<and> (\<not> b' \<longrightarrow> (\<exists>pre f rest. fs = pre @ f # rest \<and> d' = d @ pre @ [f] \<and> \<not> ok f \<and> (\<forall>g \<in> set pre. ok g)))"
    if "run_files (recorded ok) fs d = (b', d')" for fs d b' d'
    using that
  proof (induction fs arbitrary: d)
    case (Cons f fs)
    show ?case
    proof (cases "ok f")
      case True
      then have "recorded ok f d = (True, d @ [f])" by (simp add: recorded_def)
      with Cons.prems have "run_files (recorded ok) fs (d @ [f]) = (b', d')" by simp
      from Cons.IH [OF this] True show ?thesis by (auto simp: Cons_eq_append_conv)
    next
      case False
      with Cons.prems have "b' = False" "d' = d @ [f]" by (simp_all add: recorded_def)
      with False show ?thesis by (auto intro: exI [of _ "[]"])
    qed
  qed auto
  note r = * [OF assms [unfolded runMigrations_def]]
  then show "b \<longleftrightarrow> (\<forall>f \<in> set (migration_files dir). ok f)" "b \<Longrightarrow> ran_files = migration_files dir" by simp_all
  show "\<exists>f rest. migration_files dir = ran_files @ rest \<and> ran_files = butlast ran_files @ [f] \<and> \<not> ok f
        \<and> (\<forall>g \<in> set (butlast ran_files). ok g)" if "\<not> b"
    using r that by (auto simp: butlast_append)
qed

text \<open>A gateway that started has a service to forward to.\<close>

lemma registry_started:
  "registry_onModuleInit parse cfg = None \<longleftrightarrow> listServices (registry_new parse cfg) \<noteq> []"
  by (auto simp: registry_onModuleInit_def registry_new_def listServices_def split: option.splits)

text \<open>
  A transaction returns the callback's result exactly when everything up to the commit resolved; otherwise it rejects
  after sending a rollback. Once connected, the client is released as the last step, on every path.
\<close>

lemma tx_outcome:
  "fst (tx ok result) = Some result \<longleftrightarrow> ok Connect \<and> ok Begin \<and> ok Work \<and> ok Commit"
  "fst (tx ok result) = None \<Longrightarrow> ok Connect \<Longrightarrow> Rollback \<in> set (snd (tx ok result))"
  "ok Connect \<Longrightarrow> last (snd (tx ok result)) = Release \<and> count_list (snd (tx ok result)) Release = 1"
  by (auto simp: tx_def)

text \<open>Every registered service has a breaker, and a field policy of the assumed shape passes the start.\<close>

lemma breaker_per_service: "fst ` set (proxy_onModuleInit cfg reg) = fst ` set reg"
proof -
  have "fst ` set (fold (\<lambda>svc. AList.update svc (b svc)) xs m) = fst ` set m \<union> set xs" for xs and m :: "(string, BreakerOptions) jsmap" and b
    by (induction xs arbitrary: m) (auto simp: dom_update)
  then show ?thesis by (simp add: proxy_onModuleInit_def listServices_def)
qed

lemma shaped_policy_accepted:
  assumes "readFile (boplaPolicyPath cfg) = Some raw" and "parse raw = Some v" and "field_policy_of v = Some pol"
  shows "bopla_onModuleInit readFile parse cfg = Inr v"
  using assms by (auto simp: bopla_onModuleInit_def field_policy_of_def)

end
