(* ===== verification/Startup.thy ===== *)
theory Startup
  imports Boot Threat
begin

text \<open>
  The start of the gateway: \<open>bootstrap\<close> of \<open>src/src/main.ts\<close> with the configuration slices \<open>src/src/config/config.module.ts\<close> provides and
  the initialisation hooks of the modules. Creating the container validates the environment; the migrations run next; the hooks and the
  binding of the port happen inside \<open>listen\<close>. Any rejection ends the process with code 1.
\<close>

record Slices =
  sl_auth :: AuthConfig
  sl_mtls :: MtlsConfig
  sl_hashcash :: HashcashConfig
  sl_trust :: TrustConfig
  sl_policy :: PolicyConfig
  sl_mfa :: MfaConfig
  sl_proxy :: ProxyConfig
  sl_audit :: AuditConfig
  sl_server :: ServerConfig

definition sliceProviders :: "(string \<Rightarrow> json option) \<Rightarrow> ConfigService \<Rightarrow> Slices" where
  "sliceProviders parse env = \<lparr>sl_auth = buildAuthConfig env, sl_mtls = buildMtlsConfig env, sl_hashcash = buildHashcashConfig env,
     sl_trust = buildTrustConfig env, sl_policy = buildPolicyConfig env, sl_mfa = buildMfaConfig env, sl_proxy = buildProxyConfig env,
     sl_audit = buildAuditConfig env, sl_server = buildServerConfig parse env\<rparr>"

text \<open>
  What the process meets: the environment, the text of the policy files, the enforcer (whether Casbin can load model and rules), and
  whether the port is free.
\<close>

record BootEnv =
  be_raw :: RawEnv
  be_uri_ok :: "string \<Rightarrow> bool"
  be_parse :: "string \<Rightarrow> json option"
  be_readFile :: "string \<Rightarrow> string option"
  be_newEnforcer :: "string \<Rightarrow> string \<Rightarrow> bool"
  be_bound :: bool

abbreviation boot_slices :: "BootEnv \<Rightarrow> Slices" where
  "boot_slices B \<equiv> sliceProviders (be_parse B) (with_defaults (be_raw B))"

definition policy_onModuleInit :: "(string \<Rightarrow> string \<Rightarrow> bool) \<Rightarrow> PolicyConfig \<Rightarrow> bool" where
  "policy_onModuleInit newEnforcer cfg = newEnforcer (modelPath cfg) (csvPath cfg)"

definition init_hooks :: "BootEnv \<Rightarrow> bool list" where
  "init_hooks B =
     [policy_onModuleInit (be_newEnforcer B) (sl_policy (boot_slices B)),
      registry_onModuleInit (be_parse B) (sl_proxy (boot_slices B)) = None,
      \<not> isl (bopla_onModuleInit (be_readFile B) (be_parse B) (sl_proxy (boot_slices B))),
      shadow_onModuleInit HONEYPOT_PATHS = None]"

datatype boot_state = Listening | Exited nat

definition bootstrap :: "BootEnv \<Rightarrow> (string \<Rightarrow> 'd \<Rightarrow> bool \<times> 'd) \<Rightarrow> string list \<Rightarrow> 'd \<Rightarrow> boot_state \<times> 'd" where
  "bootstrap B exec dir d =
     (if \<not> schema_ok (be_uri_ok B) (be_raw B) then (Exited 1, d)
      else (case runMigrations exec dir d of
              (False, d) \<Rightarrow> (Exited 1, d)
            | (True, d) \<Rightarrow> if list_all (\<lambda>b. b) (init_hooks B) \<and> be_bound B then (Listening, d) else (Exited 1, d)))"

section \<open>Lemmas\<close>

lemma bootstrap_Listening:
  "bootstrap B exec dir d = (Listening, d') \<longleftrightarrow>
     schema_ok (be_uri_ok B) (be_raw B) \<and> runMigrations exec dir d = (True, d') \<and> list_all (\<lambda>b. b) (init_hooks B) \<and> be_bound B"
  by (auto simp: bootstrap_def split: prod.splits bool.splits)

text \<open>A start never ends in another way, and one that fails leaves what the migrations did.\<close>

lemma bootstrap_outcome: "fst (bootstrap B exec dir d) = Listening \<or> fst (bootstrap B exec dir d) = Exited 1"
  by (auto simp: bootstrap_def split: prod.splits bool.splits)

section \<open>Properties\<close>

text \<open>
  C10. A gateway that listens is fit for service: every migration ran, in the order of the file names, and succeeded; its thresholds are strictly
  tighter at every higher threat level; its audit writer makes at least one attempt; each of its three secrets (of the
  access tokens, of the proof-of-work nonces and of the MFA tokens) has at least 32 characters and its one-time-password key has
  256 bits; it has a service to forward to, with a circuit breaker for each; and the field policy was loaded.
\<close>

theorem listening_gateway_fit:
  assumes "bootstrap B (recorded ok) dir [] = (Listening, ran_files)"
  shows "ran_files = sort (filter (suffix ''.sql'') dir) \<and> (\<forall>f \<in> set ran_files. ok f)
    \<and> (\<forall>a b. a < b \<longrightarrow> challenge_at (sl_policy (boot_slices B)) b < challenge_at (sl_policy (boot_slices B)) a
         \<and> deny_at (sl_policy (boot_slices B)) b < deny_at (sl_policy (boot_slices B)) a)
    \<and> 1 \<le> walMaxRetries (sl_audit (boot_slices B)) \<and> 32 \<le> length (jwtSecret (sl_auth (boot_slices B)))
    \<and> 32 \<le> length (hmacSecret (sl_hashcash (boot_slices B))) \<and> 32 \<le> length (mfa_jwtSecret (sl_mfa (boot_slices B)))
    \<and> length (b64url_decode (totpEncryptionKey (sl_mfa (boot_slices B)))) = 32
    \<and> listServices (registry_new (be_parse B) (sl_proxy (boot_slices B))) \<noteq> []
    \<and> fst ` set (proxy_onModuleInit (sl_proxy (boot_slices B)) (registry_new (be_parse B) (sl_proxy (boot_slices B))))
        = set (listServices (registry_new (be_parse B) (sl_proxy (boot_slices B))))
    \<and> (\<exists>pol. bopla_onModuleInit (be_readFile B) (be_parse B) (sl_proxy (boot_slices B)) = Inr pol)"
proof -
  have s: "schema_ok (be_uri_ok B) (be_raw B)" and m: "runMigrations (recorded ok) dir [] = (True, ran_files)"
    and h: "list_all (\<lambda>b. b) (init_hooks B)"
    using assms by (simp_all add: bootstrap_Listening)
  note v = schema_gives_valid_slices [OF s]
  have files: "ran_files = sort (filter (suffix ''.sql'') dir)" "\<forall>f \<in> set ran_files. ok f"
    using runMigrations_trace(1,2) [OF m] by (simp_all add: migration_files_def)
  have hooks: "registry_onModuleInit (be_parse B) (sl_proxy (boot_slices B)) = None"
      "\<not> isl (bopla_onModuleInit (be_readFile B) (be_parse B) (sl_proxy (boot_slices B)))"
    using h by (simp_all add: init_hooks_def)
  have "\<exists>pol. bopla_onModuleInit (be_readFile B) (be_parse B) (sl_proxy (boot_slices B)) = Inr pol"
    using hooks(2) by (cases "bopla_onModuleInit (be_readFile B) (be_parse B) (sl_proxy (boot_slices B))") auto
  then show ?thesis
    using files hooks(1) v thresholds_tighten [OF v(1)] breaker_per_service
    by (simp add: registry_started sliceProviders_def) (simp add: listServices_def)
qed

text \<open>An environment that sets what is required and leaves the rest to the defaults.\<close>

definition long_secret :: string where
  "long_secret = ''0123456789abcdef0123456789abcdef''"

definition sample_raw :: RawEnv where
  "sample_raw = \<lparr>ev_strs = [(''MTLS_CA_CERT_PATH'', ''/ca''), (''MTLS_CLIENT_CERT_PATH'', ''/crt''), (''MTLS_CLIENT_KEY_PATH'', ''/key''),
     (''MTLS_ALLOWED_SUBJECTS'', ''users''), (''JWT_SECRET'', long_secret), (''DATABASE_URL'', ''postgres://db/zt''),
     (''HASHCASH_HMAC_SECRET'', long_secret), (''MFA_JWT_SECRET'', long_secret),
     (''MFA_TOTP_ENCRYPTION_KEY'', ''AAAAAAAAAAAAAAAAAAAAAAAAAAAAAAAAAAAAAAAAAAA''), (''PROXY_SERVICE_REGISTRY'', ''r'')],
     ev_ints = [], ev_nums = []\<rparr>"

definition sample_boot :: BootEnv where
  "sample_boot = \<lparr>be_raw = sample_raw, be_uri_ok = (\<lambda>_. True), be_parse = (\<lambda>_. Some (JObj [(''users'', JStr ''https://users:8443'')])),
     be_readFile = Some, be_newEnforcer = (\<lambda>_ _. True), be_bound = True\<rparr>"

lemma sample_schema: "schema_ok (\<lambda>_. True) sample_raw"
proof -
  have "length (b64url_decode ''AAAAAAAAAAAAAAAAAAAAAAAAAAAAAAAAAAAAAAAAAAA'') = 32" by code_simp
  moreover have "postgres_url ''postgres://db/zt''" by code_simp
  ultimately have "ranges_ok (with_defaults sample_raw)"
    by (simp add: ranges_ok_def with_defaults_def env_str_def sample_raw_def long_secret_def nullish_def int_ranges_def int_defaults_def
        num_ranges_def num_defaults_def secret_vars_def string_defaults_def unit_range_def)
  moreover have "strings_ok (\<lambda>_. True) sample_raw"
    by (simp add: strings_ok_def sample_raw_def long_secret_def required_vars_def string_defaults_def optional_vars_def)
  moreover have "cross_ok (with_defaults sample_raw)"
    by (simp add: cross_ok_def with_defaults_def sample_raw_def nullish_def int_defaults_def num_defaults_def)
  ultimately show ?thesis by (simp add: schema_ok_def)
qed

theorem listening_gateway_fit_witness:
  "bootstrap sample_boot (recorded (\<lambda>_. True)) [''002.sql'', ''readme'', ''001.sql''] [] = (Listening, [''001.sql'', ''002.sql''])
   \<and> deny_at (sl_policy (boot_slices sample_boot)) Critical < deny_at (sl_policy (boot_slices sample_boot)) Normal"
proof -
  let ?dir = "[''002.sql'', ''readme'', ''001.sql'']"
  have files: "migration_files ?dir = [''001.sql'', ''002.sql'']" by code_simp
  have run: "runMigrations (recorded (\<lambda>_. True)) ?dir [] = (True, [''001.sql'', ''002.sql''])"
    unfolding runMigrations_def files by (simp add: recorded_def)
  have "list_all (\<lambda>b. b) (init_hooks sample_boot)"
    by (simp add: init_hooks_def sample_boot_def policy_onModuleInit_def registry_onModuleInit_def bopla_onModuleInit_def
        shadow_onModuleInit_def HONEYPOT_PATHS_def)
  with run sample_schema have b: "bootstrap sample_boot (recorded (\<lambda>_. True)) ?dir [] = (Listening, [''001.sql'', ''002.sql''])"
    by (simp add: bootstrap_Listening sample_boot_def)
  have "(Normal :: ThreatLevel) < Critical" by (simp add: level_less_defs)
  with listening_gateway_fit [OF b] b show ?thesis by blast
qed

end
