(* ===== verification/Stage_Types.thy ===== *)
theory Stage_Types
  imports Pipeline_Admission
begin

text \<open>
  Type safety of the stage context. \<open>src/src/gateway/pipeline/stage-context.ts\<close> declares most fields optional, and every stage checks
  at run time for the ones it needs. The typing below gives each position of the pipeline the fields that are present
  when its stage is entered; the theorem is preservation and progress for it: the run-time checks never fire.
\<close>

section \<open>The typing\<close>

datatype ctx_field = Claims | TrustScore | TrustCtx | Decision | UpstreamStatus

fun present :: "StageContext \<Rightarrow> ctx_field \<Rightarrow> bool" where
  "present c Claims = (sx_claims c \<noteq> None)"
| "present c TrustScore = (sx_trustScore c \<noteq> None)"
| "present c TrustCtx = (sx_trustCtx c \<noteq> None)"
| "present c Decision = (sx_policyDecision c \<noteq> None)"
| "present c UpstreamStatus = (sx_upstreamStatus c \<noteq> None)"

text \<open>One entry per stage, in pipeline order.\<close>

definition stage_needs :: "ctx_field list list" where
  "stage_needs =
     [[], [], [], [Claims], [Claims], [Claims],
      [Claims, TrustScore, TrustCtx], [Claims, TrustScore, TrustCtx], [Claims, TrustScore, TrustCtx, Decision],
      [Claims, TrustScore, TrustCtx], [Claims, TrustScore, TrustCtx],
      [Claims, TrustScore, TrustCtx, UpstreamStatus], [Claims, TrustScore, TrustCtx, UpstreamStatus]]"

definition well_typed :: "nat \<Rightarrow> StageContext \<Rightarrow> bool" where
  "well_typed k c \<longleftrightarrow> k < length stage_needs \<and> list_all (present c) (stage_needs ! k)"

section \<open>Every stage keeps it\<close>

lemma well_typed_cases:
  "well_typed 0 = (\<lambda>_. True)" "well_typed 1 = (\<lambda>_. True)" "well_typed 2 = (\<lambda>_. True)"
  "well_typed 3 = has_claims" "well_typed 4 = has_claims" "well_typed 5 = has_claims"
  "well_typed 6 = has_score" "well_typed 7 = has_score" "well_typed 8 = has_decision"
  "well_typed 9 = has_score" "well_typed 10 = has_score" "well_typed 11 = has_status" "well_typed 12 = has_status"
  "well_typed 13 = (\<lambda>_. False)"
  by (auto simp: fun_eq_iff well_typed_def stage_needs_def has_claims_def has_score_def has_decision_def has_status_def numeral_eq_Suc)

lemma triple_settled: "stage_triple answered A f B \<Longrightarrow> stage_triple settled A f B"
  by (erule triple_mono) (rule answered_settled)

lemmas late_triples = triple_trust_score triple_hashcash triple_policy triple_mfa_promotion triple_audit_allow triple_proxy
  triple_bopla_strip triple_record

lemmas stage_triples = triple_bypasses triple_auth triple_revocation triple_auth_only late_triples [THEN triple_settled]

lemma stage_nths:
  "map snd PIPELINE_STAGES = [public_bypass_stage, honeypot_bypass_stage, auth_stage, revocation_stage, auth_only_stage, trust_score_stage,
     hashcash_stage, policy_stage, mfa_promotion_stage, audit_allow_stage, proxy_stage, bopla_strip_stage, record_trust_context_stage]"
  by (simp add: PIPELINE_STAGES_def)

lemma less_13: "k < 13 \<Longrightarrow> k \<in> {0, 1, 2, 3, 4, 5, 6, 7, 8, 9, 10, 11, 12 :: nat}"
  unfolding insert_iff empty_iff by presburger

lemma length_stages: "length PIPELINE_STAGES = 13"
  by (simp add: PIPELINE_STAGES_def)

lemma stages_typed:
  assumes "k < 13"
  shows "stage_triple settled (well_typed k) (map snd PIPELINE_STAGES ! k) (well_typed (Suc k))"
  using less_13 [OF assms] unfolding stage_nths
  by (elim insertE emptyE) (simp_all add: stage_triples well_typed_cases [simplified] numeral_2_eq_2 [symmetric])

lemma typed_pass:
  assumes "k < 13" and "well_typed k c" and "pass P e (PIPELINE_STAGES ! k) c = Some c'"
  shows "well_typed (Suc k) c'"
proof -
  have "map snd PIPELINE_STAGES ! k = snd (PIPELINE_STAGES ! k)" using assms(1) by (simp add: length_stages)
  with stages_typed [OF assms(1)] assms(2,3) show ?thesis
    unfolding stage_triple_def pass_def by (fastforce split: prod.splits stage_result.splits StageOutcome.splits)
qed

lemma typed_passes:
  assumes "k \<le> 13" and "passes P e (take k PIPELINE_STAGES) c = Some c'" and "well_typed 0 c"
  shows "well_typed k c'"
  using assms(1,2)
proof (induction k arbitrary: c')
  case (Suc k)
  then have "k < length PIPELINE_STAGES" by (simp add: PIPELINE_STAGES_def)
  then have "take (Suc k) PIPELINE_STAGES = take k PIPELINE_STAGES @ [PIPELINE_STAGES ! k]" by (rule take_Suc_conv_app_nth)
  then obtain c1 where "passes P e (take k PIPELINE_STAGES) c = Some c1" "pass P e (PIPELINE_STAGES ! k) c1 = Some c'"
    using Suc.prems(2) by (auto simp: passes_append split: option.splits)
  then show ?case using Suc.IH [of c1] typed_pass [of k c1 P e c'] Suc.prems(1) by simp
qed (use assms(3) in simp)

section \<open>Properties\<close>

text \<open>
  C6. Type safety of the pipeline. Preservation: a stage entered with the fields of its position that lets the request go on leaves the fields of the
  next position, whatever the shared state. Progress: a stage entered with its fields never stops on a missing one; what it
  throws comes from outside. In a run every stage is entered with its fields, and no run gets past the last stage.
\<close>

theorem stage_type_safety:
  "(k < 13 \<and> well_typed k c \<longrightarrow>
      (case snd (PIPELINE_STAGES ! k) P e c g of
         (Exn x, c', g') \<Rightarrow> settled (Inl x)
       | (Ret out, c', g') \<Rightarrow> out = Continue \<longrightarrow> well_typed (Suc k) c'))
   \<and> (j \<le> 13 \<and> passes P e (take j PIPELINE_STAGES) (buildStageContext e req) = Some c\<^sub>1 \<longrightarrow> well_typed j c\<^sub>1 \<and> j < 13)"
proof (intro conjI impI)
  assume *: "k < 13 \<and> well_typed k c"
  then have "map snd PIPELINE_STAGES ! k = snd (PIPELINE_STAGES ! k)" by (simp add: length_stages)
  with stages_typed [of k] * show "case snd (PIPELINE_STAGES ! k) P e c g of
      (Exn x, c', g') \<Rightarrow> settled (Inl x) | (Ret out, c', g') \<Rightarrow> out = Continue \<longrightarrow> well_typed (Suc k) c'"
    unfolding stage_triple_def by (fastforce split: prod.splits stage_result.splits if_splits)
next
  assume "j \<le> 13 \<and> passes P e (take j PIPELINE_STAGES) (buildStageContext e req) = Some c\<^sub>1"
  then have "well_typed j c\<^sub>1" using typed_passes [of j P e "buildStageContext e req"] by (simp add: well_typed_cases)
  then show "well_typed j c\<^sub>1" "j < 13" by (simp_all add: well_typed_def stage_needs_def)
qed

theorem stage_type_safety_witness:
  "well_typed 9 (admitted_context pipe_deps (pipe_env flaky_env pipe_start) pipe_request sample_claims)"
proof -
  let ?e = "pipe_env flaky_env pipe_start"
  have "gw_revocations pipe_start = []" "dp_jose pipe_deps = sample_jose" "dp_auth pipe_deps = sample_auth_cfg"
    by (simp_all add: pipe_start_def pipe_deps_def)
  then have "passes pipe_deps ?e (take 9 PIPELINE_STAGES) (buildStageContext ?e pipe_request)
      = Some (admitted_context pipe_deps ?e pipe_request sample_claims)"
    unfolding passes_to_audit by (simp add: pipe_authenticate pipe_admitted)
  then show ?thesis
    using stage_type_safety [of 0 undefined pipe_deps ?e undefined 9 pipe_request "admitted_context pipe_deps ?e pipe_request sample_claims"]
    by simp
qed

end
