(* ===== verification/Logging.thy ===== *)
theory Logging
  imports Pipeline
begin

text \<open>
  The narration of the pipeline under \<open>src/src/gateway/pipeline/logging\<close>: the decorator that \<open>gateway.module.ts\<close>
  puts around the stages, the detail builders and the formatter. The terminal colours are a parameter (a function of
  the style's name and the text), as are the glyphs, which do not fit into a \<^typ>\<open>char\<close>, and the decimal
  rendering of the score. The result that matters is \<open>logged_run_transparent\<close>: the decorated pipeline behaves as
  the plain one that \<open>Pipeline\<close> models.
\<close>

section \<open>The formatter\<close>

datatype StageStatus = S_pass | S_deny | S_chall | S_skip | S_promo

record LogEnv =
  lg_chalk :: "string \<Rightarrow> string \<Rightarrow> string"
  lg_glyph :: "StageStatus \<Rightarrow> char"
  lg_to_fixed2 :: "jsnum \<Rightarrow> string"
  lg_exhausted :: string
  lg_t0 :: "string \<Rightarrow> ms"
  lg_t1 :: "string \<Rightarrow> ms"

fun status_word :: "StageStatus \<Rightarrow> string" where
  "status_word S_pass = ''PASS ''"
| "status_word S_deny = ''DENY ''"
| "status_word S_chall = ''CHALL''"
| "status_word S_skip = ''SKIP ''"
| "status_word S_promo = ''PROMO''"

fun status_paint :: "StageStatus \<Rightarrow> string" where
  "status_paint S_pass = ''green''"
| "status_paint S_deny = ''red''"
| "status_paint S_chall = ''yellow''"
| "status_paint S_skip = ''dim''"
| "status_paint S_promo = ''green''"

definition padRight :: "string \<Rightarrow> nat \<Rightarrow> string" where
  "padRight s w = (if w \<le> length s then s else s @ replicate (w - length s) CHR '' '')"

definition padLeft :: "string \<Rightarrow> nat \<Rightarrow> string" where
  "padLeft s w = (if w \<le> length s then s else replicate (w - length s) CHR '' '' @ s)"

definition renderDetail :: "(string \<times> string) list \<Rightarrow> string" where
  "renderDetail detail = join_with '' '' (map (\<lambda>(k, v). k @ ''='' @ v) detail)"

definition trimEnd :: "string \<Rightarrow> string" where
  "trimEnd s = rev (dropWhile js_space (rev s))"

definition formatStageLine :: "LogEnv \<Rightarrow> string \<Rightarrow> string \<Rightarrow> StageStatus \<Rightarrow> ms \<Rightarrow> (string \<times> string) list \<Rightarrow> string" where
  "formatStageLine L reqId stageId status t detail =
     (let reqCol = lg_chalk L ''gray'' (padRight (take 8 reqId) 8);
          stageCol = lg_chalk L ''cyan'' (padRight stageId 14);
          statusCol = lg_chalk L (status_paint status) (padRight (lg_glyph L status # '' '' @ status_word status) 7);
          msCol = lg_chalk L ''gray'' (padLeft (dec_string (nat t) @ ''ms'') 6);
          detailCol = lg_chalk L ''dim'' (renderDetail detail)
      in trimEnd (reqCol @ ''  '' @ stageCol @ ''  '' @ statusCol @ ''  '' @ msCol @ ''  '' @ detailCol))"

section \<open>Detail builders\<close>

type_synonym StageDetailBuilder = "LogEnv \<Rightarrow> StageContext \<Rightarrow> StageOutcome \<Rightarrow> (string \<times> string) list"

definition short_circuit :: "StageOutcome \<Rightarrow> bool" where
  "short_circuit out = (case out of ShortCircuit _ _ _ _ \<Rightarrow> True | _ \<Rightarrow> False)"

fun decision_name :: "PolicyDecision \<Rightarrow> string" where
  "decision_name (ALLOW r s m) = ''ALLOW''"
| "decision_name (CHALLENGE r s m) = ''CHALLENGE''"
| "decision_name (DENY r s m) = ''DENY''"

fun matchedSubject :: "PolicyDecision \<Rightarrow> string option" where
  "matchedSubject (ALLOW r s m) = Some m"
| "matchedSubject (CHALLENGE r s m) = m"
| "matchedSubject (DENY r s m) = m"

definition auth_detail :: StageDetailBuilder where
  "auth_detail L c out =
     (case sx_claims c of
        None \<Rightarrow> []
      | Some cl \<Rightarrow> [(''user'', userId cl), (''roles'', ''['' @ join_with '','' (roles cl) @ '']'')])"

definition revocation_detail :: StageDetailBuilder where
  "revocation_detail L c out =
     (case truthy (map_option jti (sx_claims c)) of None \<Rightarrow> [] | Some j \<Rightarrow> [(''jti'', j)])"

definition trust_score_detail :: StageDetailBuilder where
  "trust_score_detail L c out =
     (case sx_trustScore c of
        None \<Rightarrow> []
      | Some x \<Rightarrow> (''score'', lg_to_fixed2 L x) # (if sx_trustOverride c then [(''override'', ''demo'')] else []))"

definition hashcash_detail :: StageDetailBuilder where
  "hashcash_detail L c out = (if short_circuit out then [(''challenge'', ''required'')] else [])"

definition policy_detail :: StageDetailBuilder where
  "policy_detail L c out =
     (case sx_policyDecision c of
        None \<Rightarrow> []
      | Some pd \<Rightarrow> (''decision'', decision_name pd) #
          (case truthy (matchedSubject pd) of None \<Rightarrow> [] | Some m \<Rightarrow> [(''subject'', m)]))"

definition mfa_promotion_detail :: StageDetailBuilder where
  "mfa_promotion_detail L c out =
     (if short_circuit out then [(''mfa'', ''required'')]
      else if map_option decision_name (sx_policyDecision c) = Some ''ALLOW'' then [(''mfa'', ''ok'')] else [])"

definition proxy_detail :: StageDetailBuilder where
  "proxy_detail L c out =
     (case sx_upstreamStatus c of None \<Rightarrow> [] | Some st \<Rightarrow> [(''upstream'', dec_string st)])"

definition bopla_strip_detail :: StageDetailBuilder where
  "bopla_strip_detail L c out =
     (case sx_boplaRemoved c of
        Some (f # fs) \<Rightarrow> [(''removed'', ''['' @ join_with '','' (f # fs) @ '']'')]
      | _ \<Rightarrow> if sx_strippedBody c \<noteq> JUndef then [(''stripped'', ''yes'')] else [])"

definition public_bypass_detail :: StageDetailBuilder where
  "public_bypass_detail L c out = (if out = Bypass then [(''public'', ''true'')] else [])"

definition honeypot_bypass_detail :: StageDetailBuilder where
  "honeypot_bypass_detail L c out = (if short_circuit out then [(''honeypot'', ''hit'')] else [])"

text \<open>The registry after \<open>registerDefaultDetailBuilders\<close>; \<open>register\<close> is \<open>Map.set\<close>.\<close>

definition default_builders :: "(string, StageDetailBuilder) jsmap" where
  "default_builders =
     [(''auth'', auth_detail), (''revocation'', revocation_detail), (''trust_score'', trust_score_detail),
      (''hashcash'', hashcash_detail), (''policy'', policy_detail), (''mfa_promotion'', mfa_promotion_detail),
      (''proxy'', proxy_detail), (''bopla_strip'', bopla_strip_detail), (''public_bypass'', public_bypass_detail),
      (''honeypot_bypass'', honeypot_bypass_detail), (''auth_only'', (\<lambda>L c out. []))]"

definition buildFor :: "(string, StageDetailBuilder) jsmap \<Rightarrow> LogEnv \<Rightarrow> string \<Rightarrow> StageContext \<Rightarrow> StageOutcome \<Rightarrow> (string \<times> string) list" where
  "buildFor builders L stageId c out = (case map_of builders stageId of None \<Rightarrow> [] | Some b \<Rightarrow> b L c out)"

section \<open>The decorator\<close>

definition flat_id :: "string \<Rightarrow> string" where
  "flat_id reqId = (let flat = take 8 (filter (\<lambda>c. c \<noteq> CHR ''-'') reqId) in flat @ replicate (8 - length flat) CHR ''?'')"

definition shortRequestId :: "string \<Rightarrow> string" where
  "shortRequestId reqId = (if reqId = [] then ''????????'' else flat_id reqId)"

definition classify :: "string \<Rightarrow> StageContext \<Rightarrow> StageOutcome \<Rightarrow> StageStatus" where
  "classify stageId c out =
     (case out of
        Bypass \<Rightarrow> S_skip
      | ShortCircuit st body hs challenge \<Rightarrow> if challenge then S_chall else if st = 403 then S_chall else S_deny
      | _ \<Rightarrow>
          if stageId = ''mfa_promotion'' \<and> map_option decision_name (sx_policyDecision c) = Some ''CHALLENGE''
          then S_promo else S_pass)"

fun exn_message :: "LogEnv \<Rightarrow> gw_exn \<Rightarrow> string" where
  "exn_message L AuditExhaustedException = lg_exhausted L"
| "exn_message L (HttpException st m) = m"
| "exn_message L (PlainError m) = m"

text \<open>A decorated stage also returns the lines it wrote.\<close>

type_synonym logged_stage =
  "Deps \<Rightarrow> ReqEnv \<Rightarrow> StageContext \<Rightarrow> Gateway \<Rightarrow> string list \<times> stage_result \<times> StageContext \<times> Gateway"

definition wrap :: "LogEnv \<Rightarrow> string \<times> stage \<Rightarrow> string \<times> logged_stage" where
  "wrap L st = (fst st, (\<lambda>P e c g.
     (case snd st P e c g of
        (Ret out, c, g) \<Rightarrow>
          ([formatStageLine L (shortRequestId (sx_requestId c)) (fst st) (classify (fst st) c out)
              (lg_t1 L (fst st) - lg_t0 L (fst st)) (buildFor default_builders L (fst st) c out)], Ret out, c, g)
      | (Exn x, c, g) \<Rightarrow>
          ([formatStageLine L (shortRequestId (sx_requestId c)) (fst st) S_deny
              (lg_t1 L (fst st) - lg_t0 L (fst st))
              [(''error'', if exn_message L x = [] then ''thrown'' else exn_message L x)]], Exn x, c, g))))"

definition SILENT_STAGE_IDS :: "string list" where
  "SILENT_STAGE_IDS = [''audit_allow'', ''record_trust_context'']"

definition plain :: "string \<times> stage \<Rightarrow> string \<times> logged_stage" where
  "plain st = (fst st, (\<lambda>P e c g. ([], snd st P e c g)))"

definition decorate :: "LogEnv \<Rightarrow> string \<times> stage \<Rightarrow> string \<times> logged_stage" where
  "decorate L st = (if fst st \<in> set SILENT_STAGE_IDS then plain st else wrap L st)"

definition wrapStages :: "LogEnv \<Rightarrow> (string \<times> stage) list \<Rightarrow> (string \<times> logged_stage) list" where
  "wrapStages L = map (decorate L)"

text \<open>The loop of the orchestrator over decorated stages.\<close>

definition run_logged :: "LogEnv \<Rightarrow> (string \<times> logged_stage) \<Rightarrow> Deps \<Rightarrow> ReqEnv \<Rightarrow> StageContext \<Rightarrow> Gateway \<Rightarrow>
    string list \<times> (gw_exn + StageOutcome) option \<times> StageContext \<times> Gateway" where
  "run_logged L st P e c g =
     (case snd st P e c g of
        (ls, r, c', g') \<Rightarrow> (ls, orchestrator_step P e (fst st, (\<lambda>_ _ _ _. (r, c', g'))) c g))"

fun logged_run ::
    "LogEnv \<Rightarrow> Deps \<Rightarrow> ReqEnv \<Rightarrow> (string \<times> logged_stage) list \<Rightarrow> StageContext \<Rightarrow>
      string list \<times> (gw_exn + StageOutcome) \<times> StageContext \<times> (string \<times> Gateway) list" where
  "logged_run L P e [] c = ([], Inr Continue, c, [])"
| "logged_run L P e (st # rest) c =
     (case run_logged L st P e c (re_shared e (fst st)) of
        (ls, Some r, c, g) \<Rightarrow> (ls, r, c, [(fst st, g)])
      | (ls, None, c, g) \<Rightarrow>
          (case logged_run L P e rest c of (ls', r, c, steps) \<Rightarrow> (ls @ ls', r, c, (fst st, g) # steps)))"

section \<open>Frames\<close>

definition openingFrame :: "LogEnv \<Rightarrow> string \<Rightarrow> Request \<Rightarrow> string \<Rightarrow> string \<Rightarrow> string" where
  "openingFrame L arrow req requestId reqPath =
     lg_chalk L ''gray'' (flat_id requestId) @ ''  '' @ lg_chalk L ''bold.blue'' arrow @ '' '' @
     lg_chalk L ''bold'' (req_method req) @ '' '' @ lg_chalk L ''cyan'' reqPath @ ''  '' @
     lg_chalk L ''gray'' (''ip='' @ extractIp req) @ '' '' @ lg_chalk L ''gray'' (''ua='' @ extractUserAgent req)"

definition int_string :: "int \<Rightarrow> string" where
  "int_string n = (if n < 0 then ''-'' @ dec_string (nat (- n)) else dec_string (nat n))"

definition closingFrame :: "LogEnv \<Rightarrow> string \<Rightarrow> string \<Rightarrow> nat \<Rightarrow> ms \<Rightarrow> string" where
  "closingFrame L arrow requestId status totalMs =
     lg_chalk L ''gray'' (flat_id requestId) @ ''  '' @ lg_chalk L ''bold.blue'' arrow @ '' '' @
     lg_chalk L (if 500 \<le> status then ''red'' else if 400 \<le> status then ''yellow'' else ''green'') (dec_string status) @
     ''  '' @ lg_chalk L ''gray'' (''total='' @ int_string totalMs @ ''ms'')"

section \<open>Lemmas\<close>

lemma shortRequestId_length [simp]: "length (shortRequestId s) = 8"
  by (simp add: shortRequestId_def flat_id_def Let_def)

lemma pad_length: "length (padRight s w) = max w (length s)" "length (padLeft s w) = max w (length s)"
  by (simp_all add: padRight_def padLeft_def)

text \<open>Decoration changes neither the result of a stage nor its effects.\<close>

lemma decorated_step:
  assumes "st' = plain st \<or> st' = wrap L st"
  shows "snd (run_logged L st' P e c g) = orchestrator_step P e st c g" "fst st' = fst st"
  using assms
  by (auto simp: run_logged_def wrap_def plain_def orchestrator_step_def split: prod.splits stage_result.splits)

lemma decorate_step:
  "snd (run_logged L (decorate L st) P e c g) = orchestrator_step P e st c g" "fst (decorate L st) = fst st"
  using decorated_step [of "decorate L st" st L] by (auto simp: decorate_def)

lemma logged_run_transparent:
  "snd (logged_run L P e (wrapStages L sts) c) = orchestrator_run P e sts c"
proof (induction sts arbitrary: c)
  case Nil
  show ?case by (simp add: wrapStages_def)
next
  case (Cons st sts)
  obtain ls o' c' g' where r: "run_logged L (decorate L st) P e c (re_shared e (fst st)) = (ls, o', c', g')"
    using prod_cases4 by blast
  then have "orchestrator_step P e st c (re_shared e (fst st)) = (o', c', g')"
    using decorate_step(1) [of L st P e c "re_shared e (fst st)"] by simp
  with r Cons.IH [of c'] show ?case
    by (auto simp: wrapStages_def decorate_step(2) split: option.splits prod.splits)
qed

text \<open>One line for every stage that ran and is not silent, in the order they ran.\<close>

lemma decorate_lines:
  "length (fst (run_logged L (decorate L st) P e c g)) = (if fst st \<in> set SILENT_STAGE_IDS then 0 else 1)"
  by (simp add: run_logged_def decorate_def wrap_def plain_def split: prod.splits stage_result.splits)

lemma logged_run_lines:
  "length (fst (logged_run L P e (wrapStages L sts) c)) =
     length (filter (\<lambda>x. fst x \<notin> set SILENT_STAGE_IDS) (snd (snd (orchestrator_run P e sts c))))"
proof (induction sts arbitrary: c)
  case Nil
  show ?case by (simp add: wrapStages_def)
next
  case (Cons st sts)
  obtain ls o' c' g' where r: "run_logged L (decorate L st) P e c (re_shared e (fst st)) = (ls, o', c', g')"
    using prod_cases4 by blast
  then have s: "orchestrator_step P e st c (re_shared e (fst st)) = (o', c', g')"
    and n: "length ls = (if fst st \<in> set SILENT_STAGE_IDS then 0 else 1)"
    using decorate_step(1) [of L st P e c "re_shared e (fst st)"] decorate_lines [of L st P e c "re_shared e (fst st)"]
    by simp_all
  show ?case using r s n Cons.IH [of c'] logged_run_transparent [of L P e sts c']
    by (auto simp: wrapStages_def decorate_step(2) split: option.splits prod.splits)
qed

text \<open>
  What the labels say. A lifted challenge is announced as such; but a policy denial is labelled as a challenge with
  the detail \<open>mfa=required\<close>, a real challenge as a denial, a request that was allowed outright carries \<open>mfa=ok\<close>, and
  the honeypot builder waits for an outcome its stage never returns.
\<close>

lemma lifted_challenge_is_promo:
  "sx_policyDecision c = Some (CHALLENGE r s m) \<Longrightarrow> classify ''mfa_promotion'' c Continue = S_promo"
  by (simp add: classify_def)

lemma denial_labelled_challenge:
  assumes "deny_client P e c cl d g = (Ret out, c', g')"
  shows "classify sid c' out = S_chall" "mfa_promotion_detail L c' out = [(''mfa'', ''required'')]"
  using assms by (auto simp: deny_client_def classify_def mfa_promotion_detail_def short_circuit_def
      split: prod.splits bool.splits)

lemma challenge_labelled_denial: "classify sid c (buildMfaChallengeOutcome ch rid) = S_deny"
  by (cases "(ch, rid)" rule: buildMfaChallengeOutcome.cases) (auto simp: classify_def)

lemma outright_allow_says_mfa_ok:
  "sx_policyDecision c = Some (ALLOW r s m) \<Longrightarrow> mfa_promotion_detail L c Continue = [(''mfa'', ''ok'')]"
  by (simp add: mfa_promotion_detail_def short_circuit_def)

lemma honeypot_detail_never_shown:
  "honeypot_bypass_stage P e c g = (Ret out, c', g') \<Longrightarrow> honeypot_bypass_detail L c' out = []"
  by (auto simp: honeypot_bypass_stage_def honeypot_bypass_detail_def short_circuit_def split: if_splits)

section \<open>Properties\<close>

text \<open>
  C13. Narrating the pipeline does not change it: a run of the decorated stages has the outcome, the context, the shared state and the
  stages of a run of the plain ones, for every list of stages and every request, and it prints one line for each stage that ran and is not
  silent, no more and no less.
\<close>

theorem narration_transparent:
  "snd (logged_run L P e (wrapStages L sts) c) = orchestrator_run P e sts c
   \<and> length (fst (logged_run L P e (wrapStages L sts) c)) =
       length (filter (\<lambda>x. fst x \<notin> set SILENT_STAGE_IDS) (snd (snd (orchestrator_run P e sts c))))"
  using logged_run_transparent logged_run_lines by blast

end
