(* ===== verification/Mtls.thy ===== *)
theory Mtls
  imports Config
begin

text \<open>
  The client certificates of the gateway: \<open>src/src/shared/mtls.service.ts\<close> and
  \<open>src/src/shared/cert-monitor.service.ts\<close>. A file system call may see another version of a file than the call
  before it, so every group of concurrent calls has its own view: what the i-th call of the group returns for a path,
  \<open>None\<close> being an error. The points where other code may run are the steps of \<open>cert_step\<close>: a caller whose
  stats are back, the shared load settling, a poll of the monitor, and the load of its \<open>reload()\<close> settling.
\<close>

section \<open>The certificate cache\<close>

datatype HttpsAgent = HttpsAgent (ag_ca: string) (ag_cert: string) (ag_key: string)

record CertCache =
  cc_ca :: string
  cc_cert :: string
  cc_key :: string
  cc_mtimes :: "int \<times> int \<times> int"
  cc_agent :: HttpsAgent

type_synonym 'a fs_view = "nat \<Rightarrow> string \<Rightarrow> 'a option"

definition all3 :: "MtlsConfig \<Rightarrow> 'a fs_view \<Rightarrow> ('a \<times> 'a \<times> 'a) option" where
  "all3 cfg v = (case (v 0 (caCertPath cfg), v 1 (clientCertPath cfg), v 2 (clientKeyPath cfg)) of
     (Some a, Some b, Some c) \<Rightarrow> Some (a, b, c) | _ \<Rightarrow> None)"

definition loadCertificates :: "MtlsConfig \<Rightarrow> string fs_view \<Rightarrow> int fs_view \<Rightarrow> CertCache option" where
  "loadCertificates cfg readFile stat =
     (case all3 cfg readFile of
        None \<Rightarrow> None
      | Some (ca, crt, key) \<Rightarrow>
          (case all3 cfg stat of
             None \<Rightarrow> None
           | Some mtimes \<Rightarrow> Some \<lparr>cc_ca = ca, cc_cert = crt, cc_key = key, cc_mtimes = mtimes,
               cc_agent = HttpsAgent ca crt key\<rparr>))"

definition mtimesChanged :: "CertCache option \<Rightarrow> int \<times> int \<times> int \<Rightarrow> bool" where
  "mtimesChanged cache stats =
     (case cache of
        None \<Rightarrow> True
      | Some c \<Rightarrow> (case (stats, cc_mtimes c) of ((a, b, k), (a', b', k')) \<Rightarrow> a \<noteq> a' \<or> b \<noteq> b' \<or> k \<noteq> k'))"

datatype agent_result = Agent HttpsAgent | Stat_Error | Load_Error | Type_Error

record Certs =
  certCache :: "CertCache option"
  reloadPromise :: bool
  waiting :: "nat list"
  answers :: "(nat \<times> agent_result) list"
  lastMtimes :: "string \<rightharpoonup> int"
  mon_checking :: bool
  mon_polling :: bool

text \<open>\<open>return this.certCache.agent\<close>, which throws when the cache is null.\<close>

definition cached_agent :: "CertCache option \<Rightarrow> agent_result" where
  "cached_agent cache = (case cache of None \<Rightarrow> Type_Error | Some c \<Rightarrow> Agent (cc_agent c))"

text \<open>
  \<open>getHttpsAgent\<close> from the moment its stats are back: it answers at once, or waits for the shared load, which the
  first such caller starts.
\<close>

definition getHttpsAgent :: "MtlsConfig \<Rightarrow> nat \<Rightarrow> int fs_view \<Rightarrow> Certs \<Rightarrow> Certs" where
  "getHttpsAgent cfg who stat s =
     (case all3 cfg stat of
        None \<Rightarrow> s\<lparr>answers := answers s @ [(who, Stat_Error)]\<rparr>
      | Some stats \<Rightarrow>
          if mtimesChanged (certCache s) stats
          then s\<lparr>reloadPromise := True, waiting := waiting s @ [who]\<rparr>
          else s\<lparr>answers := answers s @ [(who, cached_agent (certCache s))]\<rparr>)"

text \<open>The shared load settles; \<open>finally\<close> clears the promise and the waiting callers go on or are rejected.\<close>

definition load_settles :: "MtlsConfig \<Rightarrow> string fs_view \<Rightarrow> int fs_view \<Rightarrow> Certs \<Rightarrow> Certs" where
  "load_settles cfg readFile stat s =
     (case loadCertificates cfg readFile stat of
        None \<Rightarrow> s\<lparr>reloadPromise := False, waiting := [],
          answers := answers s @ map (\<lambda>who. (who, Load_Error)) (waiting s)\<rparr>
      | Some c \<Rightarrow> s\<lparr>certCache := Some c, reloadPromise := False, waiting := [],
          answers := answers s @ map (\<lambda>who. (who, cached_agent (Some c))) (waiting s)\<rparr>)"

definition getCertificates :: "Certs \<Rightarrow> string + string \<times> string \<times> string" where
  "getCertificates s =
     (case certCache s of
        None \<Rightarrow> Inl ''Certificates not loaded - call loadCertificates() first''
      | Some c \<Rightarrow> Inr (cc_ca c, cc_cert c, cc_key c))"

text \<open>\<open>reload()\<close> drops the cache and loads again, on a load of its own.\<close>

definition reload_starts :: "Certs \<Rightarrow> Certs" where
  "reload_starts s = s\<lparr>certCache := None\<rparr>"

definition reload_settles :: "MtlsConfig \<Rightarrow> string fs_view \<Rightarrow> int fs_view \<Rightarrow> Certs \<Rightarrow> Certs" where
  "reload_settles cfg readFile stat s =
     (case loadCertificates cfg readFile stat of None \<Rightarrow> s | Some c \<Rightarrow> s\<lparr>certCache := Some c\<rparr>)"

text \<open>\<open>/CN=([^\n,]+)/\<close>: the leftmost \<open>CN=\<close> that at least one other character follows.\<close>

fun match_CN :: "string \<Rightarrow> string option" where
  "match_CN [] = None"
| "match_CN (c # cs) =
     (let v = takeWhile (\<lambda>x. x \<noteq> CHR 0x0A \<and> x \<noteq> CHR '','') (drop 2 cs)
      in if take 3 (c # cs) = ''CN='' \<and> v \<noteq> [] then Some v else match_CN cs)"

definition validateServerCertCN :: "(string \<Rightarrow> string option) \<Rightarrow> MtlsConfig \<Rightarrow> string \<Rightarrow> bool" where
  "validateServerCertCN x509_subject cfg pem =
     (case x509_subject pem of
        None \<Rightarrow> False
      | Some subject \<Rightarrow>
          (case match_CN subject of None \<Rightarrow> False | Some cn \<Rightarrow> js_trim cn \<in> set (allowedSubjects cfg)))"

section \<open>The monitor\<close>

definition certPaths :: "MtlsConfig \<Rightarrow> string list" where
  "certPaths cfg = [caCertPath cfg, clientCertPath cfg, clientKeyPath cfg]"

text \<open>The two loops; the i-th stat is the i-th call of the view.\<close>

fun initMtimes :: "int fs_view \<Rightarrow> nat \<Rightarrow> string list \<Rightarrow> (string \<rightharpoonup> int) \<Rightarrow> (string \<rightharpoonup> int)" where
  "initMtimes stat i [] seen = seen"
| "initMtimes stat i (p # ps) seen =
     initMtimes stat (Suc i) ps (seen(p \<mapsto> (case stat i p of Some m \<Rightarrow> m | None \<Rightarrow> 0)))"

fun check_loop :: "int fs_view \<Rightarrow> nat \<Rightarrow> string list \<Rightarrow> (string \<rightharpoonup> int) \<Rightarrow> bool \<Rightarrow> (string \<rightharpoonup> int) \<times> bool" where
  "check_loop stat i [] seen changed = (seen, changed)"
| "check_loop stat i (p # ps) seen changed =
     (case stat i p of
        None \<Rightarrow> check_loop stat (Suc i) ps seen changed
      | Some m \<Rightarrow>
          if Some m \<noteq> seen p then check_loop stat (Suc i) ps (seen(p \<mapsto> m)) True
          else check_loop stat (Suc i) ps seen changed)"

definition monitor_init :: "MtlsConfig \<Rightarrow> int fs_view \<Rightarrow> Certs" where
  "monitor_init cfg stat = \<lparr>certCache = None, reloadPromise = False, waiting = [], answers = [],
     lastMtimes = initMtimes stat 0 (certPaths cfg) Map.empty, mon_checking = False, mon_polling = True\<rparr>"

text \<open>A poll up to its \<open>await reload()\<close>, and the end of that reload with the \<open>finally\<close> of \<open>checkFiles\<close>.\<close>

definition checkFiles :: "MtlsConfig \<Rightarrow> int fs_view \<Rightarrow> Certs \<Rightarrow> Certs" where
  "checkFiles cfg stat s =
     (if mon_checking s then s
      else let (seen, changed) = check_loop stat 0 (certPaths cfg) (lastMtimes s) False;
               s' = s\<lparr>lastMtimes := seen\<rparr>
           in if changed then (reload_starts s')\<lparr>mon_checking := True\<rparr> else s')"

definition check_settles :: "MtlsConfig \<Rightarrow> string fs_view \<Rightarrow> int fs_view \<Rightarrow> Certs \<Rightarrow> Certs" where
  "check_settles cfg readFile stat s = (reload_settles cfg readFile stat s)\<lparr>mon_checking := False\<rparr>"

text \<open>\<open>onModuleDestroy\<close> clears the timer; a poll that is under way still ends.\<close>

definition monitor_destroy :: "Certs \<Rightarrow> Certs" where
  "monitor_destroy s = s\<lparr>mon_polling := False\<rparr>"

section \<open>Interleavings\<close>

text \<open>\<open>steady\<close> says which pairs of views a load may have; every load is allowed with \<open>\<lambda>_ _. True\<close>.\<close>

inductive cert_step :: "MtlsConfig \<Rightarrow> (string fs_view \<Rightarrow> int fs_view \<Rightarrow> bool) \<Rightarrow> Certs \<Rightarrow> Certs \<Rightarrow> bool"
  for cfg :: MtlsConfig and steady :: "string fs_view \<Rightarrow> int fs_view \<Rightarrow> bool" where
  caller: "cert_step cfg steady s (getHttpsAgent cfg who stat s)"
| load: "reloadPromise s \<Longrightarrow> steady rd stat \<Longrightarrow> cert_step cfg steady s (load_settles cfg rd stat s)"
| poll: "mon_polling s \<Longrightarrow> cert_step cfg steady s (checkFiles cfg stat s)"
| settle: "mon_checking s \<Longrightarrow> steady rd stat \<Longrightarrow> cert_step cfg steady s (check_settles cfg rd stat s)"
| destroy: "cert_step cfg steady s (monitor_destroy s)"

inductive cert_reachable :: "MtlsConfig \<Rightarrow> (string fs_view \<Rightarrow> int fs_view \<Rightarrow> bool) \<Rightarrow> Certs \<Rightarrow> bool"
  for cfg :: MtlsConfig and steady :: "string fs_view \<Rightarrow> int fs_view \<Rightarrow> bool" where
  start: "cert_reachable cfg steady (monitor_init cfg stat)"
| step: "cert_reachable cfg steady s \<Longrightarrow> cert_step cfg steady s s' \<Longrightarrow> cert_reachable cfg steady s'"

section \<open>Lemmas\<close>

lemma all3_Some: "all3 cfg v = Some (a, b, c) \<longleftrightarrow>
    v 0 (caCertPath cfg) = Some a \<and> v 1 (clientCertPath cfg) = Some b \<and> v 2 (clientKeyPath cfg) = Some c"
  by (auto simp: all3_def split: option.splits)

lemma loadCertificates_Some:
  "loadCertificates cfg rd stat = Some c \<longleftrightarrow>
     (\<exists>m. all3 cfg rd = Some (cc_ca c, cc_cert c, cc_key c) \<and> all3 cfg stat = Some m
        \<and> cc_mtimes c = m \<and> cc_agent c = HttpsAgent (cc_ca c) (cc_cert c) (cc_key c))"
  by (cases c) (auto simp: loadCertificates_def split: option.splits)

lemma mtimes_unchanged: "\<not> mtimesChanged cache m \<longleftrightarrow> (\<exists>c. cache = Some c \<and> cc_mtimes c = m)"
  by (auto simp: mtimesChanged_def split: option.splits prod.splits)

text \<open>
  The invariant: the agent of the cache holds the cached files, whoever waits waits for a load in flight, and no
  caller ever met a null cache.
\<close>

definition cert_inv :: "Certs \<Rightarrow> bool" where
  "cert_inv s \<longleftrightarrow>
     (case certCache s of None \<Rightarrow> True | Some c \<Rightarrow> cc_agent c = HttpsAgent (cc_ca c) (cc_cert c) (cc_key c))
   \<and> (waiting s \<noteq> [] \<longrightarrow> reloadPromise s)
   \<and> Type_Error \<notin> snd ` set (answers s)"

lemma cached_agent_Some [simp]: "cached_agent (Some c) = Agent (cc_agent c)"
  by (simp add: cached_agent_def)

lemma getHttpsAgent_inv: "cert_inv s \<Longrightarrow> cert_inv (getHttpsAgent cfg who stat s)"
  using mtimes_unchanged [of "certCache s"]
  by (auto simp: cert_inv_def getHttpsAgent_def split: option.splits)

lemma load_settles_inv: "cert_inv s \<Longrightarrow> cert_inv (load_settles cfg rd stat s)"
  by (auto simp: cert_inv_def load_settles_def loadCertificates_Some split: option.splits)

lemma checkFiles_inv: "cert_inv s \<Longrightarrow> cert_inv (checkFiles cfg stat s)"
  by (auto simp: cert_inv_def checkFiles_def reload_starts_def Let_def split: prod.splits)

lemma check_settles_inv: "cert_inv s \<Longrightarrow> cert_inv (check_settles cfg rd stat s)"
  by (auto simp: cert_inv_def check_settles_def reload_settles_def loadCertificates_Some split: option.splits)

lemma monitor_destroy_inv: "cert_inv s \<Longrightarrow> cert_inv (monitor_destroy s)"
  by (simp add: cert_inv_def monitor_destroy_def)

lemma cert_reachable_inv: "cert_reachable cfg steady s \<Longrightarrow> cert_inv s"
proof (induction rule: cert_reachable.induct)
  case (start stat)
  show ?case by (simp add: cert_inv_def monitor_init_def)
next
  case (step s s')
  from step.hyps(2) step.IH show ?case
    by cases (simp_all add: getHttpsAgent_inv load_settles_inv checkFiles_inv check_settles_inv monitor_destroy_inv)
qed

text \<open>
  Freshness. Let \<open>content p m\<close> be the content of the file p while its modification time is m. When no file is
  replaced between the read and the stat of one load, a caller that is answered at once gets an agent with exactly
  the files its own stats saw.
\<close>

definition steady_load :: "MtlsConfig \<Rightarrow> (string \<Rightarrow> int \<Rightarrow> string) \<Rightarrow> string fs_view \<Rightarrow> int fs_view \<Rightarrow> bool" where
  "steady_load cfg content rd stat \<longleftrightarrow>
     (\<forall>a b c x y z. all3 cfg rd = Some (a, b, c) \<and> all3 cfg stat = Some (x, y, z) \<longrightarrow>
        a = content (caCertPath cfg) x \<and> b = content (clientCertPath cfg) y \<and> c = content (clientKeyPath cfg) z)"

definition agent_of :: "MtlsConfig \<Rightarrow> (string \<Rightarrow> int \<Rightarrow> string) \<Rightarrow> int \<times> int \<times> int \<Rightarrow> HttpsAgent" where
  "agent_of cfg content m = (case m of (x, y, z) \<Rightarrow>
     HttpsAgent (content (caCertPath cfg) x) (content (clientCertPath cfg) y) (content (clientKeyPath cfg) z))"

definition from_files :: "MtlsConfig \<Rightarrow> (string \<Rightarrow> int \<Rightarrow> string) \<Rightarrow> HttpsAgent \<Rightarrow> bool" where
  "from_files cfg content a \<longleftrightarrow> (\<exists>m. a = agent_of cfg content m)"

lemma from_files_agent_of [simp]: "from_files cfg content (agent_of cfg content m)"
  unfolding from_files_def by blast

definition cache_fresh :: "MtlsConfig \<Rightarrow> (string \<Rightarrow> int \<Rightarrow> string) \<Rightarrow> Certs \<Rightarrow> bool" where
  "cache_fresh cfg content s \<longleftrightarrow>
     (case certCache s of None \<Rightarrow> True | Some c \<Rightarrow> cc_agent c = agent_of cfg content (cc_mtimes c))
   \<and> (\<forall>who a. (who, Agent a) \<in> set (answers s) \<longrightarrow> from_files cfg content a)"

lemma steady_load_fresh:
  assumes "loadCertificates cfg rd stat = Some c" and "steady_load cfg content rd stat"
  shows "cc_agent c = agent_of cfg content (cc_mtimes c)"
  using assms by (cases "cc_mtimes c") (auto simp: loadCertificates_Some steady_load_def agent_of_def)

lemma cert_reachable_fresh: "cert_reachable cfg (steady_load cfg content) s \<Longrightarrow> cache_fresh cfg content s"
proof (induction rule: cert_reachable.induct)
  case (start stat)
  show ?case by (simp add: cache_fresh_def monitor_init_def)
next
  case (step s s')
  from step.hyps(2) step.IH show ?case
  proof cases
    case (load rd stat)
    then show ?thesis using step.IH steady_load_fresh
      by (auto simp: cache_fresh_def load_settles_def split: option.splits)
  next
    case (settle rd stat)
    then show ?thesis using step.IH steady_load_fresh
      by (auto simp: cache_fresh_def check_settles_def reload_settles_def split: option.splits)
  next
    case (caller who stat)
    then show ?thesis using step.IH mtimes_unchanged [of "certCache s"]
      by (auto simp: cache_fresh_def getHttpsAgent_def split: option.splits)
  qed (auto simp: cache_fresh_def checkFiles_def reload_starts_def monitor_destroy_def Let_def split: option.splits prod.splits)
qed

lemma immediate_agent_is_current:
  assumes "cert_reachable cfg (steady_load cfg content) s" and "all3 cfg stat = Some m"
    and "\<not> mtimesChanged (certCache s) m"
  shows "getHttpsAgent cfg who stat s = s\<lparr>answers := answers s @ [(who, Agent (agent_of cfg content m))]\<rparr>"
proof -
  obtain c where c: "certCache s = Some c" "cc_mtimes c = m" using assms(3) by (auto simp: mtimes_unchanged)
  with cert_reachable_fresh [OF assms(1)] have "cc_agent c = agent_of cfg content m" by (simp add: cache_fresh_def)
  with c assms(2,3) show ?thesis by (simp add: getHttpsAgent_def)
qed

text \<open>
  Liveness of the shared load: when it settles nobody waits any more, and everybody who waited has an answer.
\<close>

lemma load_settles_answers:
  "waiting (load_settles cfg rd stat s) = []"
  "set (waiting s) \<subseteq> fst ` set (answers (load_settles cfg rd stat s))"
  by (auto simp: load_settles_def image_Un image_image split: option.splits)

text \<open>
  The read comes before the stat: when the file is replaced between the two, the old content is cached under the new
  modification time, and every later caller is answered with it until the file changes again.
\<close>

lemma answered_from_cache:
  assumes "certCache s = Some c" and "all3 cfg stat = Some (cc_mtimes c)"
  shows "getHttpsAgent cfg who stat s = s\<lparr>answers := answers s @ [(who, Agent (cc_agent c))]\<rparr>"
proof -
  have "\<not> mtimesChanged (certCache s) (cc_mtimes c)" using assms(1) by (simp add: mtimes_unchanged)
  with assms show ?thesis by (simp add: getHttpsAgent_def)
qed

lemma torn_load_stays:
  assumes "loadCertificates cfg rd stat = Some c" and "all3 cfg later = all3 cfg stat"
    and "s' = load_settles cfg rd stat s"
  shows "getHttpsAgent cfg who later s' = s'\<lparr>answers := answers s' @ [(who, Agent (cc_agent c))]\<rparr>"
    "all3 cfg rd = Some (ag_ca (cc_agent c), ag_cert (cc_agent c), ag_key (cc_agent c))"
proof -
  have "certCache s' = Some c" using assms(1,3) by (simp add: load_settles_def)
  moreover have "all3 cfg later = Some (cc_mtimes c)" using assms(1,2) by (auto simp: loadCertificates_Some)
  ultimately show "getHttpsAgent cfg who later s' = s'\<lparr>answers := answers s' @ [(who, Agent (cc_agent c))]\<rparr>"
    by (rule answered_from_cache)
  show "all3 cfg rd = Some (ag_ca (cc_agent c), ag_cert (cc_agent c), ag_key (cc_agent c))"
    using assms(1) by (auto simp: loadCertificates_Some)
qed

subsection \<open>The monitor\<close>

lemma check_loop_seen:
  "check_loop stat i ps seen ch = (seen', ch') \<Longrightarrow> p \<notin> set ps \<Longrightarrow> seen' p = seen p"
  by (induction stat i ps seen ch rule: check_loop.induct) (auto split: option.splits if_splits)

lemma check_loop_sticky: "check_loop stat i ps seen True = (seen', ch') \<Longrightarrow> ch'"
  by (induction ps arbitrary: i seen) (auto split: option.splits if_splits)

lemma check_loop_unchanged:
  "check_loop stat i ps seen False = (seen', ch') \<Longrightarrow>
     \<not> ch' \<longleftrightarrow> (\<forall>k < length ps. stat (i + k) (ps ! k) \<in> {None, seen (ps ! k)})"
proof (induction ps arbitrary: i)
  case (Cons p ps)
  have shift: "(\<forall>k < length (p # ps). stat (i + k) ((p # ps) ! k) \<in> {None, seen ((p # ps) ! k)}) \<longleftrightarrow>
      stat i p \<in> {None, seen p} \<and> (\<forall>k < length ps. stat (Suc i + k) (ps ! k) \<in> {None, seen (ps ! k)})"
    by (simp only: length_Cons All_less_Suc2) simp
  show ?case
  proof (cases "stat i p \<in> {None, seen p}")
    case True
    with Cons.prems have "check_loop stat (Suc i) ps seen False = (seen', ch')" by (auto split: option.splits if_splits)
    with Cons.IH [of "Suc i"] True shift show ?thesis by simp
  next
    case False
    with Cons.prems have "ch'" by (auto split: option.splits if_splits dest: check_loop_sticky)
    with False shift show ?thesis by simp
  qed
qed simp

text \<open>A poll reloads exactly when no poll is running and a file it can stat has another time than at the last poll.\<close>

lemma poll_reloads_iff:
  assumes "\<not> mon_checking s"
  shows "mon_checking (checkFiles cfg stat s) \<longleftrightarrow>
    (\<exists>k < 3. stat k (certPaths cfg ! k) \<notin> {None, lastMtimes s (certPaths cfg ! k)})"
proof -
  obtain seen ch where l: "check_loop stat 0 (certPaths cfg) (lastMtimes s) False = (seen, ch)" by force
  have "length (certPaths cfg) = 3" by (simp add: certPaths_def)
  with check_loop_unchanged [OF l] have "ch \<longleftrightarrow>
      (\<exists>k < 3. stat k (certPaths cfg ! k) \<notin> {None, lastMtimes s (certPaths cfg ! k)})" by auto
  with l assms show ?thesis by (simp add: checkFiles_def reload_starts_def Let_def)
qed

lemma poll_while_checking: "mon_checking s \<Longrightarrow> checkFiles cfg stat s = s"
  by (simp add: checkFiles_def)

text \<open>Once the reload of a poll succeeded the service has a cache; when it failed, the next caller loads again.\<close>

lemma settled_poll:
  "loadCertificates cfg rd stat = Some c \<Longrightarrow> certCache (check_settles cfg rd stat s) = Some c"
  "loadCertificates cfg rd stat = None \<Longrightarrow> certCache s = None \<Longrightarrow> all3 cfg later = Some m \<Longrightarrow>
     reloadPromise (getHttpsAgent cfg who later (check_settles cfg rd stat s))"
  by (simp_all add: check_settles_def reload_settles_def getHttpsAgent_def mtimesChanged_def)

text \<open>After the shutdown no poll starts: the modification times the monitor remembers stay as they are.\<close>

lemma destroyed_stays:
  assumes "cert_step cfg steady s s'" and "\<not> mon_polling s"
  shows "\<not> mon_polling s' \<and> lastMtimes s' = lastMtimes s"
  using assms by cases (auto simp: getHttpsAgent_def load_settles_def check_settles_def reload_settles_def monitor_destroy_def split: option.splits)

text \<open>
  The subject check looks for \<open>CN=\<close> anywhere in the subject: another attribute that comes first and contains it is
  taken for the common name.
\<close>

lemma subject_check_unanchored:
  "validateServerCertCN (\<lambda>_. Some (''O=xCN=svc'' @ CHR 0x0A # ''CN=evil'')) cfg pem \<longleftrightarrow> ''svc'' \<in> set (allowedSubjects cfg)"
  by (simp add: validateServerCertCN_def js_trim_def js_space_def)

section \<open>Properties\<close>

text \<open>
  C32. The client certificates, over every interleaving of callers, shared loads and monitor polls in which no file is
  replaced between the read and the stat of one load: no caller meets an empty cache, whoever waits waits for a load in
  flight, every agent that was handed out consists of file contents that were on disk under some modification times, and
  a caller whose own stats agree with the cache gets at once the agent of exactly the versions it saw.
\<close>

theorem agents_match_files:
  assumes "cert_reachable cfg (steady_load cfg content) s"
  shows "Type_Error \<notin> snd ` set (answers s) \<and> (waiting s \<noteq> [] \<longrightarrow> reloadPromise s)
    \<and> (\<forall>who a. (who, Agent a) \<in> set (answers s) \<longrightarrow> from_files cfg content a)
    \<and> (\<forall>who stat m. all3 cfg stat = Some m \<and> \<not> mtimesChanged (certCache s) m \<longrightarrow>
         getHttpsAgent cfg who stat s = s\<lparr>answers := answers s @ [(who, Agent (agent_of cfg content m))]\<rparr>)"
  using cert_reachable_inv [OF assms] cert_reachable_fresh [OF assms] immediate_agent_is_current [OF assms]
  by (auto simp: cert_inv_def cache_fresh_def)

definition sample_mtls :: MtlsConfig where
  "sample_mtls = \<lparr>caCertPath = ''ca'', clientCertPath = ''crt'', clientKeyPath = ''key'', allowedSubjects = [''svc'']\<rparr>"

definition warm_certs :: Certs where
  "warm_certs = load_settles sample_mtls (\<lambda>_ p. Some (''v1 of '' @ p)) (\<lambda>_ _. Some 10)
     (getHttpsAgent sample_mtls 0 (\<lambda>_ _. Some 10) (monitor_init sample_mtls (\<lambda>_ _. Some 10)))"

theorem agents_match_files_witness:
  "answers warm_certs = [(0, Agent (HttpsAgent ''v1 of ca'' ''v1 of crt'' ''v1 of key''))]
   \<and> getHttpsAgent sample_mtls 1 (\<lambda>_ _. Some 10) warm_certs =
       warm_certs\<lparr>answers := answers warm_certs @ [(1, Agent (HttpsAgent ''v1 of ca'' ''v1 of crt'' ''v1 of key''))]\<rparr>"
proof -
  let ?content = "\<lambda>p (m :: int). ''v1 of '' @ p" and ?stat = "\<lambda>_ _. Some (10 :: int)"
  let ?s = "getHttpsAgent sample_mtls 0 ?stat (monitor_init sample_mtls ?stat)"
  have steady: "steady_load sample_mtls ?content (\<lambda>_ p. Some (''v1 of '' @ p)) ?stat"
    by (simp add: steady_load_def all3_def)
  have "cert_reachable sample_mtls (steady_load sample_mtls ?content) ?s"
    by (rule cert_reachable.step [OF cert_reachable.start cert_step.caller])
  moreover have "reloadPromise ?s" by (simp add: getHttpsAgent_def all3_def mtimesChanged_def monitor_init_def)
  ultimately have r: "cert_reachable sample_mtls (steady_load sample_mtls ?content) warm_certs"
    unfolding warm_certs_def using cert_reachable.step cert_step.load steady by metis
  have w: "answers warm_certs = [(0, Agent (HttpsAgent ''v1 of ca'' ''v1 of crt'' ''v1 of key''))]"
    "\<not> mtimesChanged (certCache warm_certs) (10, 10, 10)" "all3 sample_mtls ?stat = Some (10, 10, 10)"
    by (simp_all add: warm_certs_def load_settles_def loadCertificates_def all3_def getHttpsAgent_def mtimesChanged_def
        monitor_init_def sample_mtls_def)
  with agents_match_files [OF r] have "getHttpsAgent sample_mtls 1 ?stat warm_certs =
      warm_certs\<lparr>answers := answers warm_certs @ [(1, Agent (agent_of sample_mtls ?content (10, 10, 10)))]\<rparr>" by blast
  with w(1) show ?thesis by (simp add: agent_of_def sample_mtls_def)
qed

end
