(* ===== verification/Locking.thy ===== *)
theory Locking
  imports Prelude
begin

text \<open>
  Locks, as the advisory locks and row locks of the database and the mutex of the policy service behave: a lock has at most
  one holder, taking it waits until it is free, and only its holder gives it back. Threads are numbered; a thread is the
  point it has reached in its code, and \<open>holds\<close> says which lock it holds at that point: none before it
  starts and none when it is finished. The locale is the protocol;
  the theories with the concurrent code interpret it on their phases.
\<close>

type_synonym 'k locks = "'k \<rightharpoonup> nat"

locale lock_protocol =
  fixes holds :: "nat \<Rightarrow> 't \<Rightarrow> 'k option" and idle :: 't and finished :: "'t \<Rightarrow> bool"
  assumes idle_free: "holds i idle = None" and finished_free: "finished t \<Longrightarrow> holds i t = None"
begin

definition coherent :: "'k locks \<Rightarrow> (nat \<Rightarrow> 't) \<Rightarrow> bool" where
  "coherent L T \<longleftrightarrow> (\<forall>i k. holds i (T i) = Some k \<longleftrightarrow> L k = Some i)"

lemma coherent_start: "coherent Map.empty (\<lambda>_. idle)"
  by (simp add: coherent_def idle_free)

lemma coherent_exclusive: "coherent L T \<Longrightarrow> holds i (T i) = Some k \<Longrightarrow> holds j (T j) = Some k \<Longrightarrow> i = j"
  by (metis coherent_def option.inject)

lemma coherent_free: "coherent L T \<Longrightarrow> L k = None \<Longrightarrow> holds j (T j) \<noteq> Some k"
  by (auto simp: coherent_def)

lemma coherent_holder: "coherent L T \<Longrightarrow> L k = Some i \<longleftrightarrow> holds i (T i) = Some k"
  by (auto simp: coherent_def)

lemma coherent_take:
  assumes "coherent L T" and "L k = None" and "holds i (T i) = None" and "holds i t = Some k"
  shows "coherent (L(k \<mapsto> i)) (T(i := t))"
  using assms coherent_free [OF assms(1,2)] unfolding coherent_def [of "L(k \<mapsto> i)"]
  by (auto simp: coherent_holder [OF assms(1)])

lemma coherent_drop:
  assumes "coherent L T" and "holds i (T i) = Some k" and "holds i t = None"
  shows "coherent (L(k := None)) (T(i := t))"
  using assms coherent_exclusive [OF assms(1)] unfolding coherent_def [of "L(k := None)"]
  by (auto simp: coherent_holder [OF assms(1)])

lemma coherent_silent: "coherent L T \<Longrightarrow> holds i t = holds i (T i) \<Longrightarrow> coherent L (T(i := t))"
  by (auto simp: coherent_def)

end

text \<open>Giving back whatever a thread holds, as the end of a transaction does.\<close>

definition drop_lock :: "'k option \<Rightarrow> 'k locks \<Rightarrow> 'k locks" where
  "drop_lock h L = (case h of None \<Rightarrow> L | Some k \<Rightarrow> L(k := None))"

context lock_protocol
begin

lemma coherent_finish:
  "coherent L T \<Longrightarrow> finished t \<Longrightarrow> coherent (drop_lock (holds i (T i)) L) (T(i := t))"
  using finished_free by (auto simp: drop_lock_def intro: coherent_drop coherent_silent split: option.splits)

end

end
