(* ===== verification/Challenge_Tx.thy ===== *)
theory Challenge_Tx
  imports Mfa_Histories Locking
begin

text \<open>
  Concurrent challenges: \<open>insertChallengeIfUnderLimit\<close> of \<open>src/src/mfa/repositories/mfa-challenge.repository.ts\<close> as the database
  runs it, many transactions at once at the isolation level READ COMMITTED. A transaction fixes its
  \<open>NOW()\<close> when it begins, waits for the advisory lock of the user, counts and inserts in one statement that sees the rows
  committed when the statement starts, and publishes its row with the commit, which also gives back the lock. It may fail or be
  cancelled at any point. \<open>Mfa\<close> treats the call as one step; here that is proved.
\<close>

record ChallengeCall =
  cq_id :: string
  cq_user :: string
  cq_expires :: ms

datatype chal_phase =
    CIdle
  | CBegun ms
  | CLocked ms
  | CInserted ms bool
  | CFinished "bool option"

record ChallengeSys =
  cs_rows :: "Challenge list"
  cs_locks :: "int locks"
  cs_phase :: "nat \<Rightarrow> chal_phase"

text \<open>The row of a call whose transaction began at \<open>now\<close>; \<open>created_at\<close> defaults to \<open>NOW()\<close>.\<close>

definition call_row :: "ChallengeCall \<Rightarrow> ms \<Rightarrow> Challenge" where
  "call_row q now = \<lparr>ch_id = cq_id q, ch_user = cq_user q, ch_created = now, ch_expires = cq_expires q\<rparr>"

text \<open>The lock a transaction holds; \<open>key\<close> is \<open>hashtext\<close> of the user of the call.\<close>

fun chal_holds :: "(nat \<Rightarrow> int) \<Rightarrow> nat \<Rightarrow> chal_phase \<Rightarrow> int option" where
  "chal_holds key i (CLocked now) = Some (key i)"
| "chal_holds key i (CInserted now b) = Some (key i)"
| "chal_holds key i _ = None"

definition under_limit :: "int \<Rightarrow> int \<Rightarrow> ChallengeCall \<Rightarrow> ms \<Rightarrow> Challenge list \<Rightarrow> bool" where
  "under_limit window mx q now rows \<longleftrightarrow> int (recent now window (cq_user q) rows) < mx"

inductive chal_step ::
    "int \<Rightarrow> int \<Rightarrow> (nat \<Rightarrow> int) \<Rightarrow> (nat \<Rightarrow> ChallengeCall) \<Rightarrow> ChallengeSys \<Rightarrow> ChallengeSys \<Rightarrow> bool"
  for window mx :: int and key :: "nat \<Rightarrow> int" and call :: "nat \<Rightarrow> ChallengeCall" where
  begin_tx: "cs_phase s i = CIdle \<Longrightarrow>
    chal_step window mx key call s (s\<lparr>cs_phase := (cs_phase s)(i := CBegun now)\<rparr>)"
| lock: "cs_phase s i = CBegun now \<Longrightarrow> cs_locks s (key i) = None \<Longrightarrow>
    chal_step window mx key call s
      (s\<lparr>cs_locks := (cs_locks s)(key i \<mapsto> i), cs_phase := (cs_phase s)(i := CLocked now)\<rparr>)"
| insert: "cs_phase s i = CLocked now \<Longrightarrow>
    chal_step window mx key call s
      (s\<lparr>cs_phase := (cs_phase s)(i := CInserted now (under_limit window mx (call i) now (cs_rows s)))\<rparr>)"
| commit: "cs_phase s i = CInserted now b \<Longrightarrow> b \<longrightarrow> cq_id (call i) \<notin> ch_id ` set (cs_rows s) \<Longrightarrow>
    chal_step window mx key call s
      (s\<lparr>cs_rows := (if b then cs_rows s @ [call_row (call i) now] else cs_rows s),
         cs_locks := drop_lock (chal_holds key i (cs_phase s i)) (cs_locks s),
         cs_phase := (cs_phase s)(i := CFinished (Some b))\<rparr>)"
| rollback: "cs_phase s i \<noteq> CIdle \<Longrightarrow> \<forall>r. cs_phase s i \<noteq> CFinished r \<Longrightarrow>
    chal_step window mx key call s
      (s\<lparr>cs_locks := drop_lock (chal_holds key i (cs_phase s i)) (cs_locks s),
         cs_phase := (cs_phase s)(i := CFinished None)\<rparr>)"

definition chal_start :: ChallengeSys where
  "chal_start = \<lparr>cs_rows = [], cs_locks = Map.empty, cs_phase = (\<lambda>_. CIdle)\<rparr>"

inductive chal_reachable ::
    "int \<Rightarrow> int \<Rightarrow> (nat \<Rightarrow> int) \<Rightarrow> (nat \<Rightarrow> ChallengeCall) \<Rightarrow> ChallengeSys \<Rightarrow> bool"
  for window mx :: int and key :: "nat \<Rightarrow> int" and call :: "nat \<Rightarrow> ChallengeCall" where
  start: "chal_reachable window mx key call chal_start"
| step: "chal_reachable window mx key call s \<Longrightarrow> chal_step window mx key call s s' \<Longrightarrow>
    chal_reachable window mx key call s'"

section \<open>The invariant\<close>

fun chal_finished :: "chal_phase \<Rightarrow> bool" where
  "chal_finished (CFinished r) = True"
| "chal_finished _ = False"

interpretation advisory: lock_protocol "chal_holds key" CIdle chal_finished for key
  by unfold_locales (auto elim: chal_finished.elims)

text \<open>
  A transaction that has counted still counts the same: nobody else with its lock, hence nobody with its user, committed since.
\<close>

definition chal_inv :: "int \<Rightarrow> int \<Rightarrow> (nat \<Rightarrow> int) \<Rightarrow> (nat \<Rightarrow> ChallengeCall) \<Rightarrow> ChallengeSys \<Rightarrow> bool" where
  "chal_inv window mx key call s \<longleftrightarrow>
     advisory.coherent key (cs_locks s) (cs_phase s)
   \<and> (\<forall>i now b. cs_phase s i = CInserted now b \<longrightarrow> b = under_limit window mx (call i) now (cs_rows s))
   \<and> (\<forall>t uid. int (in_window window t uid (cs_rows s)) \<le> max 0 mx)"

lemma under_limit_other:
  "cq_user q \<noteq> ch_user row \<Longrightarrow> under_limit window mx q now (rows @ [row]) = under_limit window mx q now rows"
  by (simp add: under_limit_def recent_def)

lemma chal_inv_start: "chal_inv window mx key call chal_start"
  by (simp add: chal_inv_def chal_start_def advisory.coherent_start in_window_def)

lemma chal_inv_commit:
  assumes key: "\<And>i j. cq_user (call i) = cq_user (call j) \<Longrightarrow> key i = key j"
    and inv: "chal_inv window mx key call s" and i: "cs_phase s i = CInserted now b"
  shows "chal_inv window mx key call
    (s\<lparr>cs_rows := (if b then cs_rows s @ [call_row (call i) now] else cs_rows s),
       cs_locks := drop_lock (chal_holds key i (cs_phase s i)) (cs_locks s),
       cs_phase := (cs_phase s)(i := CFinished (Some b))\<rparr>)"
proof -
  have coh: "advisory.coherent key (cs_locks s) (cs_phase s)" using inv by (simp add: chal_inv_def)
  have b: "b = under_limit window mx (call i) now (cs_rows s)" using inv i by (simp add: chal_inv_def)
  have other: "cq_user (call j) \<noteq> cq_user (call i)" if "j \<noteq> i" "cs_phase s j = CInserted now' b'" for j now' b'
    using advisory.coherent_exclusive [OF coh, of j "key i" i] key [of j i] i that by auto
  have "advisory.coherent key (drop_lock (chal_holds key i (cs_phase s i)) (cs_locks s)) ((cs_phase s)(i := CFinished (Some b)))"
    by (rule advisory.coherent_finish [OF coh]) simp
  moreover have "b' = under_limit window mx (call j) now' (if b then cs_rows s @ [call_row (call i) now] else cs_rows s)"
    if "j \<noteq> i" "cs_phase s j = CInserted now' b'" for j now' b'
    using inv that other [OF that] by (simp add: chal_inv_def under_limit_other call_row_def)
  moreover have "int (in_window window t uid (if b then cs_rows s @ [call_row (call i) now] else cs_rows s)) \<le> max 0 mx" for t uid
    using inv b in_window_snoc [of window t uid "cs_rows s" mx "call_row (call i) now"]
    by (auto simp: chal_inv_def under_limit_def call_row_def)
  ultimately show ?thesis by (auto simp: chal_inv_def split: if_splits)
qed

lemma chal_inv_reachable:
  assumes key: "\<And>i j. cq_user (call i) = cq_user (call j) \<Longrightarrow> key i = key j" and "chal_reachable window mx key call s"
  shows "chal_inv window mx key call s"
  using assms(2)
proof (induction rule: chal_reachable.induct)
  case start
  show ?case by (rule chal_inv_start)
next
  case (step s s')
  from step.hyps(2) show ?case
  proof cases
    case (commit i now b)
    then show ?thesis using chal_inv_commit [OF key step.IH commit(2)] by simp
  next
    case (begin_tx i now)
    then show ?thesis using step.IH by (auto simp: chal_inv_def intro: advisory.coherent_silent split: if_splits)
  next
    case (lock i now)
    then show ?thesis using step.IH by (auto simp: chal_inv_def intro: advisory.coherent_take split: if_splits)
  next
    case (insert i now)
    then show ?thesis using step.IH by (auto simp: chal_inv_def intro: advisory.coherent_silent split: if_splits)
  next
    case (rollback i)
    then show ?thesis using step.IH by (auto simp: chal_inv_def intro: advisory.coherent_finish split: if_splits)
  qed
qed

text \<open>At the commit the call does what the atomic operation of \<open>Mfa\<close> does to the committed table.\<close>

lemma commit_is_atomic:
  assumes "chal_inv window mx key call s" and "cs_phase s i = CInserted now b" and "b \<longrightarrow> cq_id (call i) \<notin> ch_id ` set (cs_rows s)"
    and "mf_challenges st = cs_rows s" and "en_now env = now" and "\<not> en_fault env InsertChallenge"
  shows "insertChallengeIfUnderLimit env (cq_id (call i)) (cq_user (call i)) (cq_expires (call i)) window mx st =
    (Some b, st\<lparr>mf_challenges := (if b then cs_rows s @ [call_row (call i) now] else cs_rows s)\<rparr>)"
  using assms by (auto simp: insertChallengeIfUnderLimit_def chal_inv_def under_limit_def call_row_def)

lemmas chal_moves = chal_reachable.step [OF _ chal_step.begin_tx] chal_reachable.step [OF _ chal_step.lock]
  chal_reachable.step [OF _ chal_step.insert] chal_reachable.step [OF _ chal_step.commit]

text \<open>
  Without a common lock, here with one key per call, two transactions count before either commits, and the limit is exceeded:
  the lock is what the comment of the code says it is.
\<close>

definition two_calls :: "nat \<Rightarrow> ChallengeCall" where
  "two_calls i = \<lparr>cq_id = (if i = 0 then ''a'' else ''b''), cq_user = ''alice'', cq_expires = 100\<rparr>"

lemma unlocked_calls_exceed:
  "\<exists>s. chal_reachable 60 1 int two_calls s \<and> in_window 60 10 ''alice'' (cs_rows s) = 2"
proof -
  let ?R = "chal_reachable 60 1 int two_calls"
  obtain s where "?R s" "cs_phase s 0 = CInserted 5 True" "cs_phase s 1 = CInserted 5 True" "cs_rows s = []"
  proof
    let ?c = "chal_start\<lparr>cs_phase := (cs_phase chal_start)(0 := CBegun 5)\<rparr>"
    let ?d = "?c\<lparr>cs_phase := (cs_phase ?c)(1 := CBegun 5)\<rparr>"
    let ?e = "?d\<lparr>cs_locks := (cs_locks ?d)(0 \<mapsto> 0), cs_phase := (cs_phase ?d)(0 := CLocked 5)\<rparr>"
    let ?f = "?e\<lparr>cs_locks := (cs_locks ?e)(1 \<mapsto> 1), cs_phase := (cs_phase ?e)(1 := CLocked 5)\<rparr>"
    let ?g = "?f\<lparr>cs_phase := (cs_phase ?f)(0 := CInserted 5 True)\<rparr>"
    let ?h = "?g\<lparr>cs_phase := (cs_phase ?g)(1 := CInserted 5 True)\<rparr>"
    have "?R ?d" by (intro chal_moves(1) chal_reachable.start) (simp_all add: chal_start_def)
    then have "?R ?e" using chal_moves(2) [of 60 1 int two_calls ?d 0 5] by (simp add: chal_start_def)
    then have "?R ?f" using chal_moves(2) [of 60 1 int two_calls ?e 1 5] by (simp add: chal_start_def)
    then have "?R ?g" using chal_moves(3) [of 60 1 int two_calls ?f 0 5] by (simp add: chal_start_def under_limit_def recent_def)
    then show "?R ?h" using chal_moves(3) [of 60 1 int two_calls ?g 1 5] by (simp add: chal_start_def under_limit_def recent_def)
  qed (simp_all add: chal_start_def)
  note s = this
  let ?s = "s\<lparr>cs_rows := [call_row (two_calls 0) 5], cs_locks := drop_lock (Some 0) (cs_locks s), cs_phase := (cs_phase s)(0 := CFinished (Some True))\<rparr>"
  have "?R ?s" using chal_moves(4) [OF s(1,2)] s by simp
  from chal_moves(4) [OF this, of 1 5 True] s
  have "?R (?s\<lparr>cs_rows := cs_rows ?s @ [call_row (two_calls 1) 5], cs_locks := drop_lock (Some 1) (cs_locks ?s),
      cs_phase := (cs_phase ?s)(1 := CFinished (Some True))\<rparr>)"
    by (simp add: call_row_def two_calls_def)
  then show ?thesis by (intro exI conjI, assumption) (simp add: in_window_def call_row_def two_calls_def)
qed

section \<open>Properties\<close>

text \<open>
  C37. The rate limit under concurrency: let any number of challenge transactions run at once, in any interleaving, with any
  of them failing at any point, and let each take the advisory lock of its user's hash, whatever the hash function. Then no
  window of the configured length ever contains more committed challenges of a user than the maximum, and a transaction
  that is about to commit does exactly what the atomic operation would do on the table as it is at that moment.
\<close>

theorem concurrent_rate_bounded:
  assumes "chal_reachable window mx (\<lambda>i. hashtext (cq_user (call i))) call s"
  shows "int (in_window window t uid (cs_rows s)) \<le> max 0 mx
    \<and> (\<forall>i now b env st. cs_phase s i = CInserted now b \<and> (b \<longrightarrow> cq_id (call i) \<notin> ch_id ` set (cs_rows s))
         \<and> mf_challenges st = cs_rows s \<and> en_now env = now \<and> \<not> en_fault env InsertChallenge \<longrightarrow>
         insertChallengeIfUnderLimit env (cq_id (call i)) (cq_user (call i)) (cq_expires (call i)) window mx st =
           (Some b, st\<lparr>mf_challenges := (if b then cs_rows s @ [call_row (call i) now] else cs_rows s)\<rparr>))"
proof -
  have inv: "chal_inv window mx (\<lambda>i. hashtext (cq_user (call i))) call s"
    by (rule chal_inv_reachable [OF _ assms]) simp
  then have "int (in_window window t uid (cs_rows s)) \<le> max 0 mx" by (simp add: chal_inv_def)
  with commit_is_atomic [OF inv] show ?thesis by blast
qed

text \<open>Two calls of one user with a limit of one: the second waits, counts the first, and is refused.\<close>

lemma locked_calls:
  obtains s where "chal_reachable 60 1 (\<lambda>i. 7) two_calls s" "cs_rows s = [call_row (two_calls 0) 5]" "cs_phase s 1 = CInserted 5 False"
proof -
  let ?R = "chal_reachable 60 1 (\<lambda>i. 7) two_calls"
  let ?c = "chal_start\<lparr>cs_phase := (cs_phase chal_start)(0 := CBegun 5)\<rparr>"
  let ?d = "?c\<lparr>cs_phase := (cs_phase ?c)(1 := CBegun 5)\<rparr>"
  let ?e = "?d\<lparr>cs_locks := (cs_locks ?d)(7 \<mapsto> 0), cs_phase := (cs_phase ?d)(0 := CLocked 5)\<rparr>"
  let ?f = "?e\<lparr>cs_phase := (cs_phase ?e)(0 := CInserted 5 True)\<rparr>"
  let ?g = "?f\<lparr>cs_rows := [call_row (two_calls 0) 5], cs_locks := drop_lock (Some 7) (cs_locks ?f),
    cs_phase := (cs_phase ?f)(0 := CFinished (Some True))\<rparr>"
  let ?h = "?g\<lparr>cs_locks := (cs_locks ?g)(7 \<mapsto> 1), cs_phase := (cs_phase ?g)(1 := CLocked 5)\<rparr>"
  let ?k = "?h\<lparr>cs_phase := (cs_phase ?h)(1 := CInserted 5 False)\<rparr>"
  have "?R ?d" by (intro chal_moves(1) chal_reachable.start) (simp_all add: chal_start_def)
  then have "?R ?e" using chal_moves(2) [of 60 1 "\<lambda>i. 7" two_calls ?d 0 5] by (simp add: chal_start_def)
  then have "?R ?f" using chal_moves(3) [of 60 1 "\<lambda>i. 7" two_calls ?e 0 5] by (simp add: chal_start_def under_limit_def recent_def)
  then have "?R ?g" using chal_moves(4) [of 60 1 "\<lambda>i. 7" two_calls ?f 0 5 True] by (simp add: chal_start_def)
  then have "?R ?h" using chal_moves(2) [of 60 1 "\<lambda>i. 7" two_calls ?g 1 5] by (simp add: chal_start_def drop_lock_def)
  then have "?R ?k" using chal_moves(3) [of 60 1 "\<lambda>i. 7" two_calls ?h 1 5]
    by (simp add: chal_start_def under_limit_def recent_def call_row_def two_calls_def)
  then show thesis by (rule that) simp_all
qed

theorem concurrent_rate_bounded_witness:
  "\<exists>s. chal_reachable 60 1 (\<lambda>i. 7) two_calls s \<and> int (in_window 60 10 ''alice'' (cs_rows s)) \<le> 1
     \<and> insertChallengeIfUnderLimit (env_at 5 ''b'') ''b'' ''alice'' 100 60 1 (empty_mfa\<lparr>mf_challenges := cs_rows s\<rparr>) =
         (Some False, empty_mfa\<lparr>mf_challenges := cs_rows s\<rparr>)"
proof -
  obtain s where s: "chal_reachable 60 1 (\<lambda>i. 7) two_calls s" "cs_rows s = [call_row (two_calls 0) 5]" "cs_phase s 1 = CInserted 5 False"
    by (rule locked_calls)
  have w: "chal_reachable 60 1 (\<lambda>i. (\<lambda>_. 7) (cq_user (two_calls i))) two_calls s" using s(1) by simp
  note w = concurrent_rate_bounded [OF w, of 10 "''alice''"]
  have "int (in_window 60 10 ''alice'' (cs_rows s)) \<le> 1" using w by simp
  moreover have a: "insertChallengeIfUnderLimit env (cq_id (two_calls 1)) (cq_user (two_calls 1)) (cq_expires (two_calls 1)) 60 1 st =
        (Some False, st\<lparr>mf_challenges := cs_rows s\<rparr>)"
    if "mf_challenges st = cs_rows s" "en_now env = 5" "\<not> en_fault env InsertChallenge" for env st
    using conjunct2 [OF w, rule_format, of 1 5 False st env] that s(3) by simp
  moreover have "en_now (env_at 5 ''b'') = 5" "\<not> en_fault (env_at 5 ''b'') InsertChallenge" by (simp_all add: env_at_def)
  ultimately show ?thesis using s(1) a [of "empty_mfa\<lparr>mf_challenges := cs_rows s\<rparr>" "env_at 5 ''b''"]
    by (auto simp: two_calls_def)
qed

end
