(* ===== verification/Telemetry_Tx.thy ===== *)
theory Telemetry_Tx
  imports Telemetry Locking
begin

text \<open>
  Concurrent recordings: \<open>recordAllowOutcome\<close> of \<open>src/src/trust-score/trust-telemetry.repository.ts\<close> as the database runs
  it, many transactions at once at the isolation level READ COMMITTED. \<open>SELECT ... FOR UPDATE\<close> waits for the lock of the
  row it finds and then reads its latest committed version; when there is no row it locks nothing. The
  \<open>INSERT ... ON CONFLICT DO UPDATE\<close> waits for whoever holds the key and then inserts, or overwrites what is there by the \<open>SET\<close>
  clause. Both writes become visible with the commit. A transaction may fail or be cancelled at any point.
\<close>

record RecordCall =
  rq_ctx :: TrustContext
  rq_score :: jsnum
  rq_now :: ms
  rq_dbnow :: ms

datatype rec_phase =
    RIdle
  | RBegun
  | RRead "TrustSignalRow option"
  | RWritten "TrustSignalRow option"
  | RFinished bool

record RecordSys =
  rs_db :: TrustDb
  rs_locks :: "identity locks"
  rs_phase :: "nat \<Rightarrow> rec_phase"

definition call_ts :: "RecordCall \<Rightarrow> ms" where
  "call_ts q = (case tc_requestTimestamp (rq_ctx q) of None \<Rightarrow> rq_now q | Some t \<Rightarrow> t)"

text \<open>The values of the insert, computed from what the select returned.\<close>

definition excluded :: "fp \<Rightarrow> RecordCall \<Rightarrow> TrustSignalRow option \<Rightarrow> TrustSignalRow" where
  "excluded f q found =
     (case found of
        None \<Rightarrow> first_row (rq_ctx q) (call_ts q)
      | Some r \<Rightarrow> (next_row f (rq_ctx q) (call_ts q) r)\<lparr>tr_ja4h := null_if_empty (tc_ja4h (rq_ctx q))\<rparr>)"

text \<open>The \<open>SET\<close> clause: \<open>ex\<close> is \<open>EXCLUDED\<close>, \<open>r\<close> the stored row.\<close>

definition conflict_row :: "TrustSignalRow \<Rightarrow> TrustSignalRow \<Rightarrow> TrustSignalRow" where
  "conflict_row ex r = r\<lparr>tr_ja4h := (case tr_ja4h ex of None \<Rightarrow> tr_ja4h r | Some j \<Rightarrow> Some j),
     tr_first_seen_at := min (tr_first_seen_at r) (tr_first_seen_at ex), tr_last_seen_at := tr_last_seen_at ex,
     tr_allow_count := tr_allow_count ex, tr_hour_histogram := tr_hour_histogram ex, tr_rate_ema := tr_rate_ema ex,
     tr_rate_ema_var := tr_rate_ema_var ex, tr_anomaly_observations := tr_anomaly_observations ex\<rparr>"

definition put_row :: "TrustContext \<Rightarrow> TrustSignalRow \<Rightarrow> TrustDb \<Rightarrow> TrustDb" where
  "put_row c ex db =
     (case row_of c db of
        None \<Rightarrow> db\<lparr>trust_signals := trust_signals db @ [ex]\<rparr>
      | Some r \<Rightarrow> db\<lparr>trust_signals := map (\<lambda>x. if row_key x = ctx_key c then conflict_row ex r else x) (trust_signals db)\<rparr>)"

definition committed :: "fp \<Rightarrow> RecordCall \<Rightarrow> TrustSignalRow option \<Rightarrow> TrustDb \<Rightarrow> TrustDb" where
  "committed f q found db = put_row (rq_ctx q) (excluded f q found) (insertActivityRow (rq_ctx q) (rq_score q) (rq_dbnow q) db)"

fun rec_holds :: "(nat \<Rightarrow> RecordCall) \<Rightarrow> nat \<Rightarrow> rec_phase \<Rightarrow> identity option" where
  "rec_holds call i (RRead (Some r)) = Some (ctx_key (rq_ctx (call i)))"
| "rec_holds call i (RWritten found) = Some (ctx_key (rq_ctx (call i)))"
| "rec_holds call i _ = None"

fun rec_finished :: "rec_phase \<Rightarrow> bool" where
  "rec_finished (RFinished b) = True"
| "rec_finished _ = False"

inductive rec_step :: "fp \<Rightarrow> (nat \<Rightarrow> RecordCall) \<Rightarrow> RecordSys \<Rightarrow> RecordSys \<Rightarrow> bool"
  for f :: fp and call :: "nat \<Rightarrow> RecordCall" where
  begin_tx: "rs_phase s i = RIdle \<Longrightarrow> rec_step f call s (s\<lparr>rs_phase := (rs_phase s)(i := RBegun)\<rparr>)"
| select_row: "rs_phase s i = RBegun \<Longrightarrow> row_of (rq_ctx (call i)) (rs_db s) = Some r \<Longrightarrow>
    rs_locks s (ctx_key (rq_ctx (call i))) = None \<Longrightarrow>
    rec_step f call s (s\<lparr>rs_locks := (rs_locks s)(ctx_key (rq_ctx (call i)) \<mapsto> i), rs_phase := (rs_phase s)(i := RRead (Some r))\<rparr>)"
| select_none: "rs_phase s i = RBegun \<Longrightarrow> row_of (rq_ctx (call i)) (rs_db s) = None \<Longrightarrow>
    rec_step f call s (s\<lparr>rs_phase := (rs_phase s)(i := RRead None)\<rparr>)"
| upsert_held: "rs_phase s i = RRead (Some r) \<Longrightarrow>
    rec_step f call s (s\<lparr>rs_phase := (rs_phase s)(i := RWritten (Some r))\<rparr>)"
| upsert_lock: "rs_phase s i = RRead None \<Longrightarrow> rs_locks s (ctx_key (rq_ctx (call i))) = None \<Longrightarrow>
    rec_step f call s (s\<lparr>rs_locks := (rs_locks s)(ctx_key (rq_ctx (call i)) \<mapsto> i), rs_phase := (rs_phase s)(i := RWritten None)\<rparr>)"
| commit: "rs_phase s i = RWritten found \<Longrightarrow>
    rec_step f call s (s\<lparr>rs_db := committed f (call i) found (rs_db s),
      rs_locks := drop_lock (rec_holds call i (rs_phase s i)) (rs_locks s), rs_phase := (rs_phase s)(i := RFinished True)\<rparr>)"
| rollback: "rs_phase s i \<noteq> RIdle \<Longrightarrow> \<not> rec_finished (rs_phase s i) \<Longrightarrow>
    rec_step f call s (s\<lparr>rs_locks := drop_lock (rec_holds call i (rs_phase s i)) (rs_locks s),
      rs_phase := (rs_phase s)(i := RFinished False)\<rparr>)"

definition rec_start :: RecordSys where
  "rec_start = \<lparr>rs_db = empty_db, rs_locks = Map.empty, rs_phase = (\<lambda>_. RIdle)\<rparr>"

inductive rec_reachable :: "fp \<Rightarrow> (nat \<Rightarrow> RecordCall) \<Rightarrow> RecordSys \<Rightarrow> bool" for f :: fp and call :: "nat \<Rightarrow> RecordCall" where
  start: "rec_reachable f call rec_start"
| step: "rec_reachable f call s \<Longrightarrow> rec_step f call s s' \<Longrightarrow> rec_reachable f call s'"

section \<open>The upsert\<close>

interpretation row_lock: lock_protocol "rec_holds call" RIdle rec_finished for call
  by unfold_locales (auto elim: rec_finished.elims)

lemma row_of_key: "row_of c db = Some r \<Longrightarrow> r \<in> set (trust_signals db) \<and> row_key r = ctx_key c"
  using getSignalRow_key by (auto simp: ctx_key_def)

lemma row_of_insertActivityRow [simp]: "row_of c (insertActivityRow c' score t db) = row_of c db"
  by (simp add: row_of_def)

text \<open>Over the row the select read, the clause writes the row \<open>Telemetry\<close> computes.\<close>

lemma conflict_excluded: "conflict_row (excluded f q (Some r)) r = next_row f (rq_ctx q) (call_ts q) r"
  by (simp add: conflict_row_def excluded_def next_row_def Let_def)

lemma row_key_excluded:
  "(\<And>r. found = Some r \<Longrightarrow> row_key r = ctx_key (rq_ctx q)) \<Longrightarrow> row_key (excluded f q found) = ctx_key (rq_ctx q)"
proof (cases found)
  case (Some r)
  moreover have "row_key (x\<lparr>tr_ja4h := j\<rparr>) = row_key x" for x j by (simp add: row_key_def)
  moreover assume "\<And>r. found = Some r \<Longrightarrow> row_key r = ctx_key (rq_ctx q)"
  ultimately show ?thesis by (simp add: excluded_def)
qed (simp add: excluded_def)

lemma row_key_conflict_row [simp]: "row_key (conflict_row ex r) = row_key r"
  by (simp add: conflict_row_def row_key_def)

lemma commit_is_record:
  assumes "found = row_of (rq_ctx q) db"
  shows "recordAllowOutcome f False (rq_now q) (rq_dbnow q) (rq_ctx q) (rq_score q) db = Some (committed f q found db)"
proof -
  have "recordAllowOutcome f False (rq_now q) (rq_dbnow q) (rq_ctx q) (rq_score q) db =
      Some (upsertSignalRow f (rq_ctx q) (call_ts q) (insertActivityRow (rq_ctx q) (rq_score q) (rq_dbnow q) db))"
    by (simp add: recordAllowOutcome_def call_ts_def Let_def)
  also have "\<dots> = Some (committed f q found db)"
  proof (cases "row_of (rq_ctx q) db")
    case None
    then show ?thesis using assms by (simp add: committed_def put_row_def upsertSignalRow_def excluded_def)
  next
    case (Some r)
    then show ?thesis using assms by (simp add: committed_def put_row_def upsertSignalRow_def conflict_excluded)
  qed
  finally show ?thesis .
qed

text \<open>A first recording that finds the row of another one overwrites its counters with those of a first recording.\<close>

lemma row_ok_reset: "row_ok (conflict_row (excluded f q None) r)"
  using row_ok_first_row by (auto simp: row_ok_def conflict_row_def excluded_def)

section \<open>The invariant\<close>

text \<open>
  What concurrency leaves of the invariant of \<open>Telemetry\<close>: keys are unique, rows are well-formed, and the totals never
  exceed the number of recorded activities; they may fall behind it.
\<close>

definition telemetry_bounded :: "TrustDb \<Rightarrow> bool" where
  "telemetry_bounded db \<longleftrightarrow> distinct (map row_key (trust_signals db)) \<and> (\<forall>r \<in> set (trust_signals db). row_ok r)
     \<and> (\<forall>u ip. sumAllowsForUserIp u ip db \<le> activity_count u ip db)"

lemma telemetry_bounded_record:
  assumes "telemetry_bounded db" and "recordAllowOutcome f fails now dbnow c score db = Some db'"
  shows "telemetry_bounded db'"
proof -
  let ?db = "insertActivityRow c score dbnow db"
  obtain ts where "db' = upsertSignalRow f c ts ?db"
    using assms(2) by (auto simp: recordAllowOutcome_def Let_def split: if_splits)
  moreover have "distinct (map row_key (trust_signals ?db))" "\<forall>r \<in> set (trust_signals ?db). row_ok r"
    using assms(1) by (auto simp: telemetry_bounded_def)
  ultimately show ?thesis using assms(1) upsert_rows_ok [of ?db f c ts]
    by (simp add: telemetry_bounded_def sumAllows_upsert activity_count_insert)
qed

lemma activity_count_committed:
  "activity_count u ip (committed f q found db) =
     activity_count u ip db + (if tc_userId (rq_ctx q) = u \<and> tc_ip (rq_ctx q) = ip then 1 else 0)"
proof -
  have "trust_activity (put_row c ex db') = trust_activity db'" for c ex db' by (simp add: put_row_def split: option.split)
  then have "activity_count u ip (put_row c ex db') = activity_count u ip db'" for c ex db' by (simp add: activity_count_def)
  then show ?thesis by (simp add: committed_def activity_count_insert)
qed

lemma telemetry_bounded_reset:
  assumes "telemetry_bounded db" and r: "row_of (rq_ctx q) db = Some r"
  shows "telemetry_bounded (committed f q None db)"
proof -
  let ?c = "rq_ctx q" and ?new = "conflict_row (excluded f q None) r"
  have key: "r \<in> set (trust_signals db)" "row_key r = ctx_key ?c" using row_of_key [OF r] by auto
  have sig: "trust_signals (committed f q None db) = map (\<lambda>x. if row_key x = ctx_key ?c then ?new else x) (trust_signals db)"
    using r by (simp add: committed_def put_row_def)
  have "map row_key (trust_signals (committed f q None db)) = map row_key (trust_signals db)" using key sig by simp
  moreover have "\<forall>x \<in> set (trust_signals (committed f q None db)). row_ok x"
    using assms(1) sig row_ok_reset by (auto simp: telemetry_bounded_def)
  moreover have "sumAllowsForUserIp u ip (committed f q None db) \<le> activity_count u ip (committed f q None db)" for u ip
  proof -
    let ?g = "\<lambda>x. if tr_user_id x = u \<and> tr_ip x = ip then tr_allow_count x else 0"
    have "sumAllowsForUserIp u ip (committed f q None db) = sumAllowsForUserIp u ip db - ?g r + ?g ?new"
      unfolding sumAllows_alt sig using sum_replace_one [of row_key "trust_signals db" r "ctx_key ?c" ?g ?new] key assms(1)
      by (simp add: telemetry_bounded_def)
    also have "?g ?new \<le> ?g r"
      using assms(1) key(1) by (auto simp: telemetry_bounded_def row_ok_def conflict_row_def excluded_def first_row_def)
    then have "sumAllowsForUserIp u ip db - ?g r + ?g ?new \<le> activity_count u ip db"
      using assms(1) by (simp add: telemetry_bounded_def) (smt (verit))
    also have "\<dots> \<le> activity_count u ip (committed f q None db)"
      by (simp add: activity_count_committed)
    finally show ?thesis .
  qed
  ultimately show ?thesis using assms(1) by (simp add: telemetry_bounded_def)
qed

definition rec_inv :: "(nat \<Rightarrow> RecordCall) \<Rightarrow> RecordSys \<Rightarrow> bool" where
  "rec_inv call s \<longleftrightarrow> row_lock.coherent call (rs_locks s) (rs_phase s)
   \<and> (\<forall>i r. rs_phase s i \<in> {RRead (Some r), RWritten (Some r)} \<longrightarrow> row_of (rq_ctx (call i)) (rs_db s) = Some r)
   \<and> telemetry_bounded (rs_db s)"

text \<open>A commit leaves the rows of other identities alone.\<close>

lemma row_of_put_other:
  assumes "ctx_key c' \<noteq> ctx_key c" and "row_key ex = ctx_key c"
  shows "row_of c' (put_row c ex db) = row_of c' db"
proof (cases "row_of c db")
  case None
  then show ?thesis using assms by (simp add: put_row_def row_of_def find_append split: option.split)
next
  case (Some r)
  then show ?thesis using assms row_of_key [OF Some] find_map_other [of "ctx_key c'" "ctx_key c" row_key "conflict_row ex r"]
    by (simp add: put_row_def row_of_def)
qed

lemma row_of_committed_other:
  assumes "ctx_key c' \<noteq> ctx_key (rq_ctx q)" and "\<And>r. found = Some r \<Longrightarrow> row_key r = ctx_key (rq_ctx q)"
  shows "row_of c' (committed f q found db) = row_of c' db"
proof -
  have "row_key (excluded f q found) = ctx_key (rq_ctx q)" using assms(2) by (rule row_key_excluded)
  with assms(1) show ?thesis by (simp add: committed_def row_of_put_other)
qed

lemma rec_inv_commit:
  assumes inv: "rec_inv call s" and i: "rs_phase s i = RWritten found"
  shows "rec_inv call (s\<lparr>rs_db := committed f (call i) found (rs_db s),
      rs_locks := drop_lock (rec_holds call i (rs_phase s i)) (rs_locks s), rs_phase := (rs_phase s)(i := RFinished True)\<rparr>)"
proof -
  have coh: "row_lock.coherent call (rs_locks s) (rs_phase s)" and tb: "telemetry_bounded (rs_db s)"
    and rows: "\<And>j r. rs_phase s j \<in> {RRead (Some r), RWritten (Some r)} \<Longrightarrow> row_of (rq_ctx (call j)) (rs_db s) = Some r"
    using inv by (auto simp: rec_inv_def)
  have found: "row_of (rq_ctx (call i)) (rs_db s) = Some r" if "found = Some r" for r using rows [of i r] i that by simp
  have other: "ctx_key (rq_ctx (call j)) \<noteq> ctx_key (rq_ctx (call i))"
    if "j \<noteq> i" "rs_phase s j \<in> {RRead (Some r), RWritten (Some r)}" for j r
    using row_lock.coherent_exclusive [OF coh, of j "ctx_key (rq_ctx (call i))" i] i that by auto
  have "telemetry_bounded (committed f (call i) found (rs_db s))"
  proof (cases "found = row_of (rq_ctx (call i)) (rs_db s)")
    case True
    from telemetry_bounded_record [OF tb commit_is_record [OF this]] show ?thesis .
  next
    case False
    with found have "found = None" by (cases found) auto
    moreover with False obtain r where "row_of (rq_ctx (call i)) (rs_db s) = Some r" by fastforce
    ultimately show ?thesis using telemetry_bounded_reset [OF tb] by simp
  qed
  moreover have "row_of (rq_ctx (call j)) (committed f (call i) found (rs_db s)) = Some r"
    if "j \<noteq> i" "rs_phase s j \<in> {RRead (Some r), RWritten (Some r)}" for j r
    using row_of_committed_other [OF other [OF that], of found f "rs_db s"] rows [OF that(2)] found row_of_key by metis
  moreover have "row_lock.coherent call (drop_lock (rec_holds call i (rs_phase s i)) (rs_locks s)) ((rs_phase s)(i := RFinished True))"
    by (rule row_lock.coherent_finish [OF coh]) simp
  ultimately show ?thesis by (auto simp: rec_inv_def split: if_splits)
qed

lemma rec_inv_reachable: "rec_reachable f call s \<Longrightarrow> rec_inv call s"
proof (induction rule: rec_reachable.induct)
  case start
  show ?case using telemetry_ok_empty
    by (auto simp: rec_inv_def rec_start_def row_lock.coherent_start telemetry_bounded_def telemetry_ok_def)
next
  case (step s s')
  from step.hyps(2) show ?case
  proof cases
    case (commit i found)
    then show ?thesis using rec_inv_commit [OF step.IH commit(2)] by simp
  next
    case (begin_tx i)
    then show ?thesis using step.IH by (auto simp: rec_inv_def intro: row_lock.coherent_silent split: if_splits)
  next
    case (select_row i r)
    then show ?thesis using step.IH by (auto simp: rec_inv_def intro: row_lock.coherent_take split: if_splits)
  next
    case (select_none i)
    then show ?thesis using step.IH by (auto simp: rec_inv_def intro: row_lock.coherent_silent split: if_splits)
  next
    case (upsert_held i r)
    then show ?thesis using step.IH by (auto simp: rec_inv_def intro: row_lock.coherent_silent split: if_splits)
  next
    case (upsert_lock i)
    then show ?thesis using step.IH by (auto simp: rec_inv_def intro: row_lock.coherent_take split: if_splits)
  next
    case (rollback i)
    then show ?thesis using step.IH by (auto simp: rec_inv_def intro: row_lock.coherent_finish split: if_splits)
  qed
qed

section \<open>Two first recordings at once\<close>

definition same_client :: "nat \<Rightarrow> RecordCall" where
  "same_client i = \<lparr>rq_ctx = \<lparr>tc_userId = ''alice'', tc_deviceId = ''d1'', tc_ip = ''10.0.0.9'', tc_ja4h = [], tc_requestTimestamp = None\<rparr>,
     rq_score = Fin 0, rq_now = 1000 * int i, rq_dbnow = 1000 * int i\<rparr>"

lemmas rec_moves = rec_reachable.step [OF _ rec_step.begin_tx] rec_reachable.step [OF _ rec_step.select_none]
  rec_reachable.step [OF _ rec_step.upsert_lock] rec_reachable.step [OF _ rec_step.commit]

lemma both_miss:
  obtains s where "rec_reachable f same_client s" "rs_db s = empty_db" "rs_locks s = Map.empty"
    "rs_phase s 0 = RRead None" "rs_phase s 1 = RRead None"
proof -
  let ?R = "rec_reachable f same_client"
  let ?c = "rec_start\<lparr>rs_phase := (rs_phase rec_start)(0 := RBegun)\<rparr>"
  let ?d = "?c\<lparr>rs_phase := (rs_phase ?c)(1 := RBegun)\<rparr>"
  let ?e = "?d\<lparr>rs_phase := (rs_phase ?d)(0 := RRead None)\<rparr>"
  let ?g = "?e\<lparr>rs_phase := (rs_phase ?e)(1 := RRead None)\<rparr>"
  have none: "row_of c empty_db = None" for c by (simp add: row_of_def empty_db_def)
  have "?R ?d" by (intro rec_moves(1) rec_reachable.start) (simp_all add: rec_start_def)
  then have "?R ?e" using rec_moves(2) [of f same_client ?d 0] none by (simp add: rec_start_def)
  then have "?R ?g" using rec_moves(2) [of f same_client ?e 1] none by (simp add: rec_start_def)
  then show thesis by (rule that) (simp_all add: rec_start_def)
qed

text \<open>
  The recorded activity and the counter drift apart: after both commits there are two activities and a total of one.
\<close>

lemma first_recordings_lost:
  "\<exists>s. rec_reachable f same_client s \<and> rs_phase s 0 = RFinished True \<and> rs_phase s 1 = RFinished True
     \<and> activity_count ''alice'' ''10.0.0.9'' (rs_db s) = 2 \<and> sumAllowsForUserIp ''alice'' ''10.0.0.9'' (rs_db s) = 1"
proof -
  let ?R = "rec_reachable f same_client" and ?k = "ctx_key (rq_ctx (same_client 0))"
  obtain s where s: "?R s" "rs_db s = empty_db" "rs_locks s = Map.empty" "rs_phase s 0 = RRead None" "rs_phase s 1 = RRead None"
    by (rule both_miss)
  have k: "ctx_key (rq_ctx (same_client (Suc 0))) = ?k" by (simp add: same_client_def)
  let ?a = "s\<lparr>rs_locks := (rs_locks s)(?k \<mapsto> 0), rs_phase := (rs_phase s)(0 := RWritten None)\<rparr>"
  let ?b = "?a\<lparr>rs_db := committed f (same_client 0) None (rs_db ?a), rs_locks := drop_lock (Some ?k) (rs_locks ?a),
    rs_phase := (rs_phase ?a)(0 := RFinished True)\<rparr>"
  let ?c = "?b\<lparr>rs_locks := (rs_locks ?b)(?k \<mapsto> 1), rs_phase := (rs_phase ?b)(1 := RWritten None)\<rparr>"
  let ?d = "?c\<lparr>rs_db := committed f (same_client 1) None (rs_db ?c), rs_locks := drop_lock (Some ?k) (rs_locks ?c),
    rs_phase := (rs_phase ?c)(1 := RFinished True)\<rparr>"
  have "?R ?a" using rec_moves(3) [of f same_client s 0] s by simp
  then have "?R ?b" using rec_moves(4) [of f same_client ?a 0 None] s by simp
  then have "?R ?c" using rec_moves(3) [of f same_client ?b 1] s by (simp add: k drop_lock_def)
  then have "?R ?d" using rec_moves(4) [of f same_client ?c 1 None] s by (simp add: k)
  moreover have "activity_count ''alice'' ''10.0.0.9'' (rs_db ?d) = 2"
  proof -
    have "activity_count ''alice'' ''10.0.0.9'' empty_db = 0" by (simp add: activity_count_def empty_db_def)
    then show ?thesis using s(2) by (simp add: activity_count_committed same_client_def)
  qed
  moreover have "sumAllowsForUserIp ''alice'' ''10.0.0.9'' (rs_db ?d) = 1"
    using s(2) by (simp add: committed_def put_row_def getSignalRow_def excluded_def first_row_def conflict_row_def same_client_def
        sumAllowsForUserIp_def empty_db_def insertActivityRow_def row_key_def ctx_key_def)
  ultimately show ?thesis using s by (intro exI [of _ ?d]) simp
qed

section \<open>Properties\<close>

text \<open>
  C18. Telemetry under concurrency: let any number of recordings run at once, in any interleaving, with any of them failing at
  any point. Then identities stay unique, every row counts the same number of requests in its total, its histogram and its
  observations, and the total of a user at an address never exceeds the number of recorded activities. A
  transaction about to commit does exactly what the atomic operation would do on the tables at that moment, unless its
  select found no row and another transaction has created it since.
\<close>

theorem telemetry_concurrent:
  assumes "rec_reachable f call s"
  shows "telemetry_bounded (rs_db s)
    \<and> (\<forall>i found. rs_phase s i = RWritten found \<and> (found = None \<longrightarrow> row_of (rq_ctx (call i)) (rs_db s) = None) \<longrightarrow>
         recordAllowOutcome f False (rq_now (call i)) (rq_dbnow (call i)) (rq_ctx (call i)) (rq_score (call i)) (rs_db s) =
           Some (committed f (call i) found (rs_db s)))"
proof (intro conjI allI impI)
  have inv: "rec_inv call s" by (rule rec_inv_reachable [OF assms])
  then show "telemetry_bounded (rs_db s)" by (simp add: rec_inv_def)
  fix i found assume *: "rs_phase s i = RWritten found \<and> (found = None \<longrightarrow> row_of (rq_ctx (call i)) (rs_db s) = None)"
  then have "found = row_of (rq_ctx (call i)) (rs_db s)" using inv by (cases found) (auto simp: rec_inv_def)
  then show "recordAllowOutcome f False (rq_now (call i)) (rq_dbnow (call i)) (rq_ctx (call i)) (rq_score (call i)) (rs_db s) =
      Some (committed f (call i) found (rs_db s))"
    by (rule commit_is_record)
qed

theorem telemetry_concurrent_witness:
  "\<exists>s. rec_reachable exact_fp same_client s \<and> telemetry_bounded (rs_db s)
     \<and> recordAllowOutcome exact_fp False 0 0 (rq_ctx (same_client 0)) (Fin 0) (rs_db s) =
         Some (committed exact_fp (same_client 0) None (rs_db s))"
proof -
  obtain s where s: "rec_reachable exact_fp same_client s" "rs_db s = empty_db" "rs_locks s = Map.empty" "rs_phase s 0 = RRead None"
    by (rule both_miss)
  let ?a = "s\<lparr>rs_locks := (rs_locks s)(ctx_key (rq_ctx (same_client 0)) \<mapsto> 0), rs_phase := (rs_phase s)(0 := RWritten None)\<rparr>"
  have a: "rec_reachable exact_fp same_client ?a" using rec_moves(3) [of exact_fp same_client s 0] s by simp
  have "row_of (rq_ctx (same_client 0)) (rs_db ?a) = None" using s(2) by (simp add: row_of_def empty_db_def)
  then have "telemetry_bounded (rs_db ?a)
    \<and> recordAllowOutcome exact_fp False (rq_now (same_client 0)) (rq_dbnow (same_client 0)) (rq_ctx (same_client 0))
        (rq_score (same_client 0)) (rs_db ?a) = Some (committed exact_fp (same_client 0) None (rs_db ?a))"
    using conjunct1 [OF telemetry_concurrent [OF a]] conjunct2 [OF telemetry_concurrent [OF a], rule_format, of 0 None] by simp
  moreover have "rq_now (same_client 0) = 0" "rq_dbnow (same_client 0) = 0" "rq_score (same_client 0) = Fin 0"
    by (simp_all add: same_client_def)
  ultimately show ?thesis using a by (intro exI [of _ ?a]) simp
qed

end
