(* ===== verification/Trust_Bounds.thy ===== *)
theory Trust_Bounds
  imports TrustScore Telemetry_Tx
begin

text \<open>
  The trust score over the tables that concurrent recordings really produce: the numeric columns of \<open>trust_signals\<close> stay finite means and non-negative
  variances under every interleaving of \<open>Telemetry_Tx\<close>, so what \<open>TrustScore\<close> assumes of the rows it reads holds of every state
  of the database, and the score is a number of the unit interval.
\<close>

definition rows_num_ok :: "TrustDb \<Rightarrow> bool" where
  "rows_num_ok db \<longleftrightarrow> (\<forall>r \<in> set (trust_signals db). row_num_ok r)"

lemma rows_num_ok_upsert:
  assumes "fp_ok f" and "rows_num_ok db" and "\<forall>r \<in> set (trust_signals db). row_ok r"
  shows "rows_num_ok (upsertSignalRow f c ts db)"
proof (cases "row_of c db")
  case None
  then show ?thesis using assms(2) by (auto simp: rows_num_ok_def upsertSignalRow_def row_num_ok_first_row)
next
  case (Some r)
  then have "r \<in> set (trust_signals db)" using row_of_key by blast
  then have "row_num_ok (next_row f c ts r)"
    using assms by (intro next_row_num(1)) (auto simp: rows_num_ok_def row_ok_def)
  then show ?thesis using Some assms(2) by (auto simp: rows_num_ok_def upsertSignalRow_def)
qed

text \<open>The overwriting by a transaction whose select had found no row starts the statistics again.\<close>

lemma row_num_ok_reset: "row_num_ok (conflict_row (excluded f q None) r)"
  using row_num_ok_first_row by (simp add: row_num_ok_def conflict_row_def excluded_def)

lemma rows_num_ok_committed:
  assumes "fp_ok f" and "rows_num_ok db" and "telemetry_bounded db" and "found = row_of (rq_ctx q) db \<or> found = None"
  shows "rows_num_ok (committed f q found db)"
proof (cases "found = row_of (rq_ctx q) db")
  case True
  let ?db = "insertActivityRow (rq_ctx q) (rq_score q) (rq_dbnow q) db"
  have "committed f q found db = upsertSignalRow f (rq_ctx q) (call_ts q) ?db"
    using commit_is_record [OF True, of f] by (simp add: recordAllowOutcome_def call_ts_def Let_def)
  moreover have "rows_num_ok ?db" "\<forall>r \<in> set (trust_signals ?db). row_ok r"
    using assms(2,3) by (simp_all add: rows_num_ok_def telemetry_bounded_def)
  ultimately show ?thesis using rows_num_ok_upsert [OF assms(1)] by simp
next
  case False
  then obtain r where "row_of (rq_ctx q) db = Some r" "found = None" using assms(4) by fastforce
  then show ?thesis using assms(2) row_num_ok_reset by (auto simp: rows_num_ok_def committed_def put_row_def)
qed

lemma reachable_rows_num:
  assumes "fp_ok f" and "rec_reachable f call s"
  shows "rows_num_ok (rs_db s)"
  using assms(2)
proof induction
  case start
  show ?case by (simp add: rec_start_def rows_num_ok_def empty_db_def)
next
  case (step s s')
  have inv: "rec_inv call s" by (rule rec_inv_reachable [OF step.hyps(1)])
  from step.hyps(2) show ?case
  proof cases
    case (commit i found)
    have "found = row_of (rq_ctx (call i)) (rs_db s) \<or> found = None" "telemetry_bounded (rs_db s)"
      using inv commit(2) by (cases found; auto simp: rec_inv_def)+
    then show ?thesis using rows_num_ok_committed [OF assms(1) step.IH] commit(1) by simp
  qed (use step.IH in simp_all)
qed

section \<open>Properties\<close>

text \<open>
  C20. The score is a number in the unit interval. Rounding is assumed to have the properties of \<open>fp_ok\<close>, and the configured half-life to be positive, which the schema
  does not enforce. Each query of an evaluation may fail or may see any state of the tables that concurrent recordings, from empty tables, can reach, a different one for
  each query; whatever they return, and however far the clocks of the tasks are apart, no combination of signals and faults gives
  \<open>NaN\<close> or leaves the interval.
\<close>

theorem score_in_unit_interval:
  assumes "fp_ok f" and "0 < decayHalfLifeMs cfg" and "\<forall>t db. reads t = Some db \<longrightarrow> (\<exists>s. rec_reachable f call s \<and> db = rs_db s)"
  shows "\<exists>r. fst (evaluateScore f cfg reads clk now c bl) = Fin r \<and> 0 \<le> r \<and> r \<le> 1"
proof (rule score_bounded [OF assms(1,2)])
  have "rows_num_ok db" if "reads t = Some db" for t db using assms(3) reachable_rows_num [OF assms(1)] that by blast
  then show "reads_ok reads c" unfolding reads_ok_def rows_num_ok_def using row_of_key by blast
qed

text \<open>One query fails, one meets empty tables, and one meets the tables after a recording.\<close>

theorem score_in_unit_interval_witness:
  "\<exists>s r. rec_reachable exact_fp same_client s \<and> trust_signals (rs_db s) \<noteq> []
     \<and> fst (evaluateScore exact_fp default_trust ((\<lambda>_. Some (rs_db s))(DriftRead := None, DecayRead := Some empty_db)) (\<lambda>_. 9) 9
         (rq_ctx (same_client 0)) []) = Fin r \<and> 0 \<le> r \<and> r \<le> 1"
proof -
  obtain s where s: "rec_reachable exact_fp same_client s" "rs_phase s 0 = RFinished True" "sumAllowsForUserIp ''alice'' ''10.0.0.9'' (rs_db s) = 1"
    using first_recordings_lost by blast
  have ne: "trust_signals (rs_db s) \<noteq> []" using s(3) by (auto simp: sumAllowsForUserIp_def)
  let ?reads = "(\<lambda>_. Some (rs_db s))(DriftRead := None, DecayRead := Some empty_db)"
  have "rec_reachable exact_fp same_client rec_start" "rs_db rec_start = empty_db"
    by (rule rec_reachable.start) (simp add: rec_start_def)
  with s(1) have reads: "\<forall>t db. ?reads t = Some db \<longrightarrow> (\<exists>s. rec_reachable exact_fp same_client s \<and> db = rs_db s)" by auto
  have "0 < decayHalfLifeMs default_trust" by (simp add: default_trust_def)
  from score_in_unit_interval [OF fp_ok_exact this reads, of "\<lambda>_. 9" 9 "rq_ctx (same_client 0)" "[]"] s(1) ne
  show ?thesis by blast
qed

end
