(* ===== verification/Rule_Mutex.thy ===== *)
theory Rule_Mutex
  imports Policy Locking
begin

text \<open>
  Concurrent rule administration: \<open>addRule\<close> and \<open>removeRule\<close> of \<open>src/src/policy/policy-evaluator.service.ts\<close> as the event
  loop runs them. Each call enters the writer mutex, changes the enforcer's memory, and when that reported a change turns
  the memory into text and writes the file; other calls may run between these points. \<open>edit\<close> is Casbin's
  \<open>addPolicy\<close> and \<open>removePolicy\<close>, \<open>csv\<close> the text its adapter writes. A write that fails may leave anything in the file.
\<close>

datatype rule_op = AddOp rule | RemoveOp rule

datatype 'f rule_phase =
    MIdle
  | MInside
  | MChanged bool
  | MSaving 'f
  | MFinished "string + bool"

record ('m, 'f) RuleSys =
  mu_memory :: 'm
  mu_file :: 'f
  mu_clean :: bool
  mu_order :: "rule_op list"
  mu_locks :: "nat locks"
  mu_phase :: "nat \<Rightarrow> 'f rule_phase"

text \<open>
  The order lists the calls as they changed the memory, and \<open>clean\<close> says that no save has failed since the last that
  succeeded; both only serve the statements. The mutex of the service is one lock for all calls.
\<close>

fun rule_holds :: "(nat \<Rightarrow> nat) \<Rightarrow> nat \<Rightarrow> 'f rule_phase \<Rightarrow> nat option" where
  "rule_holds key i MIdle = None"
| "rule_holds key i (MFinished r) = None"
| "rule_holds key i p = Some (key i)"

fun rule_finished :: "'f rule_phase \<Rightarrow> bool" where
  "rule_finished (MFinished r) = True"
| "rule_finished p = False"

definition finish :: "(nat \<Rightarrow> nat) \<Rightarrow> nat \<Rightarrow> string + bool \<Rightarrow> ('m, 'f) RuleSys \<Rightarrow> ('m, 'f) RuleSys" where
  "finish key i r s = s\<lparr>mu_locks := drop_lock (rule_holds key i (mu_phase s i)) (mu_locks s),
     mu_phase := (mu_phase s)(i := MFinished r)\<rparr>"

inductive rule_step ::
    "(rule_op \<Rightarrow> 'm \<Rightarrow> bool \<times> 'm) \<Rightarrow> ('m \<Rightarrow> 'f) \<Rightarrow> (nat \<Rightarrow> nat) \<Rightarrow> (nat \<Rightarrow> rule_op) \<Rightarrow> ('m, 'f) RuleSys \<Rightarrow> ('m, 'f) RuleSys \<Rightarrow> bool"
  for edit :: "rule_op \<Rightarrow> 'm \<Rightarrow> bool \<times> 'm" and csv :: "'m \<Rightarrow> 'f" and key :: "nat \<Rightarrow> nat" and call :: "nat \<Rightarrow> rule_op" where
  enter: "mu_phase s i = MIdle \<Longrightarrow> mu_locks s (key i) = None \<Longrightarrow>
    rule_step edit csv key call s (s\<lparr>mu_locks := (mu_locks s)(key i \<mapsto> i), mu_phase := (mu_phase s)(i := MInside)\<rparr>)"
| change: "mu_phase s i = MInside \<Longrightarrow> edit (call i) (mu_memory s) = (b, m) \<Longrightarrow>
    rule_step edit csv key call s
      (s\<lparr>mu_memory := m, mu_order := mu_order s @ [call i], mu_phase := (mu_phase s)(i := MChanged b)\<rparr>)"
| nothing: "mu_phase s i = MChanged False \<Longrightarrow> rule_step edit csv key call s (finish key i (Inr False) s)"
| render: "mu_phase s i = MChanged True \<Longrightarrow>
    rule_step edit csv key call s (s\<lparr>mu_phase := (mu_phase s)(i := MSaving (csv (mu_memory s)))\<rparr>)"
| saved: "mu_phase s i = MSaving t \<Longrightarrow>
    rule_step edit csv key call s (finish key i (Inr True) (s\<lparr>mu_file := t, mu_clean := True\<rparr>))"
| failed: "mu_phase s i = MSaving t \<Longrightarrow>
    rule_step edit csv key call s (finish key i (Inl ''savePolicy returned false'') (s\<lparr>mu_file := t', mu_clean := False\<rparr>))"

definition rule_start :: "('m \<Rightarrow> 'f) \<Rightarrow> 'm \<Rightarrow> ('m, 'f) RuleSys" where
  "rule_start csv m = \<lparr>mu_memory = m, mu_file = csv m, mu_clean = True, mu_order = [], mu_locks = Map.empty, mu_phase = (\<lambda>_. MIdle)\<rparr>"

inductive rule_reachable ::
    "(rule_op \<Rightarrow> 'm \<Rightarrow> bool \<times> 'm) \<Rightarrow> ('m \<Rightarrow> 'f) \<Rightarrow> (nat \<Rightarrow> nat) \<Rightarrow> (nat \<Rightarrow> rule_op) \<Rightarrow> 'm \<Rightarrow> ('m, 'f) RuleSys \<Rightarrow> bool"
  for edit :: "rule_op \<Rightarrow> 'm \<Rightarrow> bool \<times> 'm" and csv :: "'m \<Rightarrow> 'f" and key :: "nat \<Rightarrow> nat" and call :: "nat \<Rightarrow> rule_op"
    and m\<^sub>0 :: 'm where
  start: "rule_reachable edit csv key call m\<^sub>0 (rule_start csv m\<^sub>0)"
| step: "rule_reachable edit csv key call m\<^sub>0 s \<Longrightarrow> rule_step edit csv key call s s' \<Longrightarrow>
    rule_reachable edit csv key call m\<^sub>0 s'"

section \<open>The invariant\<close>

interpretation writer: lock_protocol "rule_holds key :: nat \<Rightarrow> 'f rule_phase \<Rightarrow> nat option" MIdle rule_finished for key
  by unfold_locales (auto elim: rule_finished.elims)

text \<open>
  With one lock for all: while nobody is between a change and its save, the file is the memory unless the last save failed;
  a text about to be written is the current one; and the memory is what the changes make of the start in their order.
\<close>

definition unsaved :: "'f rule_phase \<Rightarrow> bool" where
  "unsaved p \<longleftrightarrow> p = MChanged True \<or> (\<exists>t. p = MSaving t)"

definition rule_inv :: "(rule_op \<Rightarrow> 'm \<Rightarrow> bool \<times> 'm) \<Rightarrow> ('m \<Rightarrow> 'f) \<Rightarrow> 'm \<Rightarrow> ('m, 'f) RuleSys \<Rightarrow> bool" where
  "rule_inv edit csv m\<^sub>0 s \<longleftrightarrow>
     writer.coherent (\<lambda>_. 0) (mu_locks s) (mu_phase s)
   \<and> (mu_clean s \<and> (\<forall>i. \<not> unsaved (mu_phase s i)) \<longrightarrow> mu_file s = csv (mu_memory s))
   \<and> (\<forall>i t. mu_phase s i = MSaving t \<longrightarrow> t = csv (mu_memory s))
   \<and> mu_memory s = fold (\<lambda>x m. snd (edit x m)) (mu_order s) m\<^sub>0"

lemma coherent_others:
  assumes "writer.coherent (\<lambda>_. 0) L T" and "rule_holds (\<lambda>_. 0) i (T i) = Some 0" and "j \<noteq> i"
  shows "T j = MIdle \<or> (\<exists>r. T j = MFinished r)"
proof -
  have "rule_holds (\<lambda>_. 0) j (T j) \<noteq> Some 0" using writer.coherent_exclusive [OF assms(1), of j 0 i] assms(2,3) by auto
  then show ?thesis by (cases "T j") auto
qed

lemma others_quiet:
  assumes "writer.coherent (\<lambda>_. 0) L T" and "rule_holds (\<lambda>_. 0) i (T i) = Some 0" and "j \<noteq> i"
  shows "\<not> unsaved (T j)" "T j \<noteq> MSaving t"
  using coherent_others [OF assms] by (auto simp: unsaved_def)

text \<open>A step that only moves one call on, and neither starts nor ends its need to save, keeps the invariant.\<close>

lemma rule_inv_phase:
  assumes "rule_inv edit csv m\<^sub>0 s" and "writer.coherent (\<lambda>_. 0) L ((mu_phase s)(i := p))"
    and "unsaved p = unsaved (mu_phase s i)" and "\<And>t. p = MSaving t \<Longrightarrow> t = csv (mu_memory s)"
  shows "rule_inv edit csv m\<^sub>0 (s\<lparr>mu_locks := L, mu_phase := (mu_phase s)(i := p)\<rparr>)"
proof -
  have "(\<forall>j. \<not> unsaved (((mu_phase s)(i := p)) j)) = (\<forall>j. \<not> unsaved (mu_phase s j))" using assms(3) by auto
  moreover have "\<forall>j t. ((mu_phase s)(i := p)) j = MSaving t \<longrightarrow> t = csv (mu_memory s)"
    using assms(1,4) unfolding rule_inv_def by auto
  ultimately show ?thesis using assms(1,2) unfolding rule_inv_def by simp
qed

lemma rule_inv_reachable:
  assumes silent: "\<And>x m m'. edit x m = (False, m') \<Longrightarrow> csv m' = csv m"
    and "rule_reachable edit csv (\<lambda>_. 0) call m\<^sub>0 s"
  shows "rule_inv edit csv m\<^sub>0 s"
  using assms(2)
proof (induction rule: rule_reachable.induct)
  case start
  show ?case by (simp add: rule_inv_def rule_start_def writer.coherent_start)
next
  case (step s s')
  have coh: "writer.coherent (\<lambda>_. 0) (mu_locks s) (mu_phase s)" using step.IH by (simp add: rule_inv_def)
  from step.hyps(2) show ?case
  proof cases
    case (enter i)
    then show ?thesis using step.IH coh by (auto intro!: rule_inv_phase writer.coherent_take simp: unsaved_def)
  next
    case (change i b m)
    have quiet: "\<not> unsaved (mu_phase s j) \<and> mu_phase s j \<noteq> MSaving t" for j t
      using others_quiet [OF coh, of i j] change by (cases "j = i") (auto simp: unsaved_def)
    have "csv m = csv (mu_memory s)" if "\<not> b" using silent [of "call i" "mu_memory s" m] change that by simp
    with change show ?thesis using step.IH quiet
      by (auto simp: rule_inv_def unsaved_def [of "MChanged b"] intro: writer.coherent_silent split: if_splits)
  next
    case (nothing i)
    then show ?thesis using step.IH writer.coherent_finish [OF coh, of "MFinished (Inr False)" i]
      by (auto intro!: rule_inv_phase simp: finish_def unsaved_def)
  next
    case (render i)
    then show ?thesis
      using rule_inv_phase [OF step.IH, of "mu_locks s" i "MSaving (csv (mu_memory s))"] writer.coherent_silent [OF coh, of i]
      by (simp add: unsaved_def)
  next
    case (saved i t)
    then show ?thesis using step.IH others_quiet [OF coh, of i] writer.coherent_finish [OF coh, of "MFinished (Inr True)" i]
      by (auto simp: rule_inv_def finish_def split: if_splits)
  next
    case (failed i t t')
    then show ?thesis using step.IH others_quiet [OF coh, of i]
        writer.coherent_finish [OF coh, of "MFinished (Inl ''savePolicy returned false'')" i]
      by (auto simp: rule_inv_def finish_def split: if_splits)
  qed
qed

text \<open>Every call past the critical change is in the order.\<close>

lemma order_lists_calls:
  assumes "rule_reachable edit csv key call m\<^sub>0 s" and "mu_phase s i \<noteq> MIdle" and "mu_phase s i \<noteq> MInside"
  shows "call i \<in> set (mu_order s)"
  using assms
proof (induction rule: rule_reachable.induct)
  case (step s s')
  from step.hyps(2) show ?case using step.IH step.prems
    by cases (auto simp: finish_def split: if_splits)
qed (simp add: rule_start_def)

section \<open>One call after the other\<close>

text \<open>The operations of the policy service on memory and file, with every save succeeding.\<close>

fun rule_call :: "(rule_op \<Rightarrow> 'm \<Rightarrow> bool \<times> 'm) \<Rightarrow> ('m \<Rightarrow> 'f) \<Rightarrow> rule_op \<Rightarrow> 'm \<times> 'f \<Rightarrow> (string + bool) \<times> 'm \<times> 'f" where
  "rule_call edit csv (AddOp r) e =
     addRule (\<lambda>(m, f) r. map_prod id (\<lambda>m. (m, f)) (edit (AddOp r) m)) (\<lambda>(m, f). (True, m, csv m)) r e"
| "rule_call edit csv (RemoveOp r) e =
     removeRule (\<lambda>(m, f) r. map_prod id (\<lambda>m. (m, f)) (edit (RemoveOp r) m)) (\<lambda>(m, f). (True, m, csv m)) r e"

lemma rule_call_state:
  assumes "\<And>x m m'. edit x m = (False, m') \<Longrightarrow> csv m' = csv m"
  shows "snd (rule_call edit csv x (m, csv m)) = (snd (edit x m), csv (snd (edit x m)))"
  using assms [of x m] by (cases x; cases "edit x m") (auto simp: addRule_def removeRule_def)

lemma fold_rule_calls:
  assumes "\<And>x m m'. edit x m = (False, m') \<Longrightarrow> csv m' = csv m"
  shows "fold (\<lambda>x e. snd (rule_call edit csv x e)) xs (m, csv m)
    = (fold (\<lambda>x m. snd (edit x m)) xs m, csv (fold (\<lambda>x m. snd (edit x m)) xs m))"
  by (induction xs arbitrary: m) (simp_all add: rule_call_state [of edit csv, OF assms])

section \<open>Why one lock\<close>

text \<open>The steps as moves of reachable states.\<close>

lemmas rule_moves = rule_reachable.step [OF _ rule_step.enter] rule_reachable.step [OF _ rule_step.change]
  rule_reachable.step [OF _ rule_step.nothing] rule_reachable.step [OF _ rule_step.render] rule_reachable.step [OF _ rule_step.saved]

fun list_edit :: "rule_op \<Rightarrow> rule list \<Rightarrow> bool \<times> rule list" where
  "list_edit (AddOp r) rs = (if r \<in> set rs then (False, rs) else (True, rs @ [r]))"
| "list_edit (RemoveOp r) rs = (if r \<in> set rs then (True, removeAll r rs) else (False, rs))"

lemma list_edit_silent: "list_edit x m = (False, m') \<Longrightarrow> id m' = id m"
  by (cases x) (auto split: if_splits)

definition two_adds :: "nat \<Rightarrow> rule_op" where
  "two_adds i = AddOp (if i = 0 then (''a'', ''/x'', ''GET'') else (''b'', ''/y'', ''GET''))"

text \<open>Without the common mutex a slow save overwrites a newer one: both calls report success, and a rule is missing from the file.\<close>

lemma unlocked_save_is_stale:
  "\<exists>s. rule_reachable list_edit id (\<lambda>i. i) two_adds [] s \<and> mu_clean s \<and> mu_phase s 0 = MFinished (Inr True)
     \<and> mu_phase s 1 = MFinished (Inr True) \<and> length (mu_memory s) = 2 \<and> length (mu_file s) = 1"
proof -
  let ?R = "rule_reachable list_edit id (\<lambda>i. i) two_adds []" and ?s = "rule_start id [] :: (rule list, rule list) RuleSys"
  let ?r = "(''a'', ''/x'', ''GET'')" and ?q = "(''b'', ''/y'', ''GET'')"
  let ?a = "?s\<lparr>mu_locks := (mu_locks ?s)(0 \<mapsto> 0), mu_phase := (mu_phase ?s)(0 := MInside)\<rparr>"
  let ?b = "?a\<lparr>mu_memory := [?r], mu_order := mu_order ?a @ [two_adds 0], mu_phase := (mu_phase ?a)(0 := MChanged True)\<rparr>"
  let ?c = "?b\<lparr>mu_phase := (mu_phase ?b)(0 := MSaving (id (mu_memory ?b)))\<rparr>"
  let ?d = "?c\<lparr>mu_locks := (mu_locks ?c)(1 \<mapsto> 1), mu_phase := (mu_phase ?c)(1 := MInside)\<rparr>"
  let ?e = "?d\<lparr>mu_memory := [?r, ?q], mu_order := mu_order ?d @ [two_adds 1], mu_phase := (mu_phase ?d)(1 := MChanged True)\<rparr>"
  let ?f = "?e\<lparr>mu_phase := (mu_phase ?e)(1 := MSaving (id (mu_memory ?e)))\<rparr>"
  have "?R ?s" by (rule rule_reachable.start)
  then have "?R ?a" using rule_moves(1) [of list_edit id "\<lambda>i. i" two_adds "[]" ?s 0] by (simp add: rule_start_def)
  then have "?R ?b" using rule_moves(2) [of list_edit id "\<lambda>i. i" two_adds "[]" ?a 0] by (simp add: rule_start_def two_adds_def)
  then have "?R ?c" using rule_moves(4) [of list_edit id "\<lambda>i. i" two_adds "[]" ?b 0] by simp
  then have "?R ?d" using rule_moves(1) [of list_edit id "\<lambda>i. i" two_adds "[]" ?c 1] by (simp add: rule_start_def)
  then have "?R ?e" using rule_moves(2) [of list_edit id "\<lambda>i. i" two_adds "[]" ?d 1] by (simp add: rule_start_def two_adds_def)
  then have "?R ?f" using rule_moves(4) [of list_edit id "\<lambda>i. i" two_adds "[]" ?e 1] by simp
  let ?g = "finish (\<lambda>i. i) 1 (Inr True) (?f\<lparr>mu_file := [?r, ?q], mu_clean := True\<rparr>)"
  let ?h = "finish (\<lambda>i. i) 0 (Inr True) (?g\<lparr>mu_file := [?r], mu_clean := True\<rparr>)"
  from \<open>?R ?f\<close> have g: "?R ?g"
    using rule_moves(5) [of list_edit id "\<lambda>i. i" two_adds "[]" ?f 1 "[?r, ?q]"] by simp
  have "?R ?h"
    by (rule rule_moves(5) [OF g]) (simp add: finish_def)
  then show ?thesis by (intro exI [of _ ?h] conjI) (simp_all add: finish_def)
qed

section \<open>Properties\<close>

text \<open>
  C24. The writer mutex makes concurrent rule changes durable and sequential: let any number of additions and removals run at once in any
  interleaving, with saves failing at any point. At most one call is past the mutex; every call that has returned took effect;
  and whenever no call is under way and no save has failed since the last success, memory and file are exactly what the operations
  make of the start one after the other, in the order they changed the memory. (An edit that reports no change leaves the text as it was.)
\<close>

theorem rule_changes_sequential:
  assumes silent: "\<And>x m m'. edit x m = (False, m') \<Longrightarrow> csv m' = csv m"
    and reach: "rule_reachable edit csv (\<lambda>_. 0) call m\<^sub>0 s"
  shows "(mu_clean s \<and> (\<forall>i. mu_phase s i = MIdle \<or> rule_finished (mu_phase s i)) \<longrightarrow>
      (mu_memory s, mu_file s) = fold (\<lambda>x e. snd (rule_call edit csv x e)) (mu_order s) (m\<^sub>0, csv m\<^sub>0))
    \<and> (\<forall>i j. rule_holds (\<lambda>_. 0) i (mu_phase s i) = Some 0 \<and> rule_holds (\<lambda>_. 0) j (mu_phase s j) = Some 0 \<longrightarrow> i = j)
    \<and> (\<forall>i. rule_finished (mu_phase s i) \<longrightarrow> call i \<in> set (mu_order s))"
proof (intro conjI impI allI)
  have inv: "rule_inv edit csv m\<^sub>0 s" by (rule rule_inv_reachable [OF silent reach])
  {
    assume q: "mu_clean s \<and> (\<forall>i. mu_phase s i = MIdle \<or> rule_finished (mu_phase s i))"
    then have "\<not> unsaved (mu_phase s i)" for i by (cases "mu_phase s i") (auto simp: unsaved_def dest: spec [of _ i])
    with q inv have "mu_file s = csv (mu_memory s)" "mu_memory s = fold (\<lambda>x m. snd (edit x m)) (mu_order s) m\<^sub>0"
      unfolding rule_inv_def by blast+
    then show "(mu_memory s, mu_file s) = fold (\<lambda>x e. snd (rule_call edit csv x e)) (mu_order s) (m\<^sub>0, csv m\<^sub>0)"
      by (simp add: fold_rule_calls [of edit csv, OF silent])
  }
  show "i = j" if "rule_holds (\<lambda>_. 0) i (mu_phase s i) = Some 0 \<and> rule_holds (\<lambda>_. 0) j (mu_phase s j) = Some 0" for i j
    using inv that writer.coherent_exclusive unfolding rule_inv_def by blast
  show "call i \<in> set (mu_order s)" if "rule_finished (mu_phase s i)" for i
    using order_lists_calls [OF reach, of i] that by (cases "mu_phase s i") simp_all
qed

theorem rule_changes_sequential_witness:
  "\<exists>s. rule_reachable list_edit id (\<lambda>_. 0) two_adds [] s \<and> mu_order s = [two_adds 0]
     \<and> (mu_memory s, mu_file s) = ([(''a'', ''/x'', ''GET'')], [(''a'', ''/x'', ''GET'')])"
proof -
  let ?R = "rule_reachable list_edit id (\<lambda>_. 0) two_adds []" and ?s = "rule_start id [] :: (rule list, rule list) RuleSys"
  let ?r = "(''a'', ''/x'', ''GET'')"
  let ?a = "?s\<lparr>mu_locks := (mu_locks ?s)(0 \<mapsto> 0), mu_phase := (mu_phase ?s)(0 := MInside)\<rparr>"
  let ?b = "?a\<lparr>mu_memory := [?r], mu_order := mu_order ?a @ [two_adds 0], mu_phase := (mu_phase ?a)(0 := MChanged True)\<rparr>"
  let ?c = "?b\<lparr>mu_phase := (mu_phase ?b)(0 := MSaving (id (mu_memory ?b)))\<rparr>"
  let ?d = "finish (\<lambda>_. 0) 0 (Inr True) (?c\<lparr>mu_file := [?r], mu_clean := True\<rparr>)"
  have "?R ?s" by (rule rule_reachable.start)
  then have "?R ?a" using rule_moves(1) [of list_edit id "\<lambda>_. 0" two_adds "[]" ?s 0] by (simp add: rule_start_def)
  then have "?R ?b" using rule_moves(2) [of list_edit id "\<lambda>_. 0" two_adds "[]" ?a 0] by (simp add: rule_start_def two_adds_def)
  then have "?R ?c" using rule_moves(4) [of list_edit id "\<lambda>_. 0" two_adds "[]" ?b 0] by simp
  then have d: "?R ?d" using rule_moves(5) [of list_edit id "\<lambda>_. 0" two_adds "[]" ?c 0 "[?r]"] by simp
  moreover have "mu_clean ?d \<and> (\<forall>i. mu_phase ?d i = MIdle \<or> rule_finished (mu_phase ?d i))"
    by (simp add: finish_def rule_start_def)
  moreover have "mu_order ?d = [two_adds 0]" by (simp add: finish_def rule_start_def)
  moreover have "snd (rule_call list_edit id (two_adds 0) ([], [])) = ([?r], [?r])"
    by (simp add: two_adds_def addRule_def)
  ultimately show ?thesis
    using conjunct1 [OF rule_changes_sequential [OF list_edit_silent d]] by (intro exI [of _ ?d]) simp
qed

end
