(* ===== verification/Enroll_Race.thy ===== *)
theory Enroll_Race
  imports Mfa_Histories
begin

text \<open>
  Overlapping enrolments: \<open>createEnrollment\<close> of \<open>src/src/mfa/mfa-enroller.service.ts\<close> gives the event loop away while it waits for
  the database, so a call runs in two segments, the check of the pending store and everything after the query. The
  lemmas show that the segments make up the operation, that one call after the other leaves one pending
  enrolment, and that two overlapping calls leave two.
\<close>

section \<open>The two segments\<close>

definition enroll_check :: "mfa_env \<Rightarrow> string \<Rightarrow> Mfa \<Rightarrow> bool \<times> Mfa" where
  "enroll_check env uid st =
     (case hasPendingForUser (en_now env) uid (mf_pending st) of (pending, ps) \<Rightarrow> (pending, st\<lparr>mf_pending := ps\<rparr>))"

text \<open>\<open>found\<close> is what the query returned, \<^const>\<open>None\<close> when it failed.\<close>

definition enroll_finish ::
    "MfaConfig \<Rightarrow> mfa_env \<Rightarrow> string \<Rightarrow> string option \<Rightarrow> string option option \<Rightarrow> Mfa \<Rightarrow> MfaEnrollResult \<times> Mfa \<times> bus_event list" where
  "enroll_finish cfg env uid userEmail found st =
     (case found of
        None \<Rightarrow> (EnrollFail Enroll_internal, st, [infra_error env ''createEnrollment'' uid])
      | Some existing \<Rightarrow>
          if nullish existing [] \<noteq> [] then (EnrollFail Already_enrolled, st, [])
          else
            (let secret = generateSecret (en_secret env);
                 uri = otpauth_uri (issuerName cfg) (nullish userEmail uid) secret;
                 enrollmentId = en_uuid env 0
             in (EnrollOk enrollmentId uri,
                 st\<lparr>mf_pending := pending_set cfg (en_now env) enrollmentId uid secret (mf_pending st)\<rparr>, [])))"

lemma createEnrollment_segments:
  "createEnrollment cfg env uid userEmail st =
     (case enroll_check env uid st of
        (True, st) \<Rightarrow> (EnrollFail Already_enrolled, st, [])
      | (False, st) \<Rightarrow> enroll_finish cfg env uid userEmail (getEncryptedSecret env uid st) st)"
  by (auto simp: createEnrollment_def enroll_check_def enroll_finish_def Let_def split: prod.splits bool.splits option.splits)

section \<open>One call after the other\<close>

lemma hasPending_live:
  assumes "map_of ps i = Some p" and "pn_userId p = uid" and "now < pn_expiresAt p"
  shows "fst (hasPendingForUser now uid ps)"
  using assms by (induction ps) (auto split: if_splits prod.splits)

lemma second_enrollment_refused:
  assumes "createEnrollment cfg env uid em st = (EnrollOk i uri, st', es)"
    and "en_now env' < en_now env + enrollPendingTtlMs cfg"
  shows "fst (createEnrollment cfg env' uid em' st') = EnrollFail Already_enrolled"
proof -
  obtain st1 where "st' = st1\<lparr>mf_pending := pending_set cfg (en_now env) i uid (generateSecret (en_secret env)) (mf_pending st1)\<rparr>"
    using assms(1) unfolding createEnrollment_segments
    by (auto simp: enroll_finish_def Let_def split: prod.splits bool.splits option.splits if_splits)
  then have "map_of (mf_pending st') i = Some \<lparr>pn_userId = uid, pn_secret = generateSecret (en_secret env),
      pn_expiresAt = en_now env + enrollPendingTtlMs cfg, pn_attempts = 0\<rparr>"
    by (simp add: pending_set_def)
  from hasPending_live [OF this, of uid "en_now env'"] assms(2) show ?thesis
    unfolding createEnrollment_segments by (auto simp: enroll_check_def split: prod.splits)
qed

section \<open>Two calls at once\<close>

text \<open>
  Both calls pass the check before either stores its secret. Both then have a pending enrolment, and after the first
  is confirmed the second is confirmed too: its secret replaces the enrolled one although nobody deleted the enrolment.
\<close>

lemma overlapping_enrollments:
  assumes "enroll_finish cfg env uid em (Some None) st = (EnrollOk i uri, st1, es1)"
    and "enroll_finish cfg env' uid em' (Some None) st1 = (EnrollOk j uri', st2, es2)" and "i \<noteq> j"
    and "confirmEnrollment lib cfg env3 i code uid ip ja st2 = (ConfirmOk, st3, es3)"
    and "en_now env4 < en_now env' + enrollPendingTtlMs cfg"
    and "totp_verify (ml_hmac lib) (en_now env4) code' (generateSecret (en_secret env')) = Inr True"
    and "aesGcmEncrypt (ml_gcm lib) (en_iv env4) (generateSecret (en_secret env')) (totpEncryptionKey cfg) = Some enc"
    and "\<not> en_fault env4 SaveSecret"
  shows "map_of (mf_secrets st3) uid \<noteq> None
    \<and> (\<exists>st4 es4. confirmEnrollment lib cfg env4 j code' uid ip ja st3 = (ConfirmOk, st4, es4) \<and> map_of (mf_secrets st4) uid = Some enc)"
proof -
  let ?p = "\<lparr>pn_userId = uid, pn_secret = generateSecret (en_secret env'), pn_expiresAt = en_now env' + enrollPendingTtlMs cfg, pn_attempts = 0\<rparr>"
  have "map_of (mf_pending st2) j = Some ?p" using assms(2) by (auto simp: enroll_finish_def Let_def pending_set_def nullish_def)
  with assms(3,4) have *: "map_of (mf_pending st3) j = Some ?p \<and> map_of (mf_secrets st3) uid \<noteq> None"
    by (auto simp: confirmEnrollment_def pending_get_def pending_delete_def save_secret_def reject_code_def Let_def
        split: option.splits if_splits prod.splits sum.splits bool.splits)
  then have "pending_get (en_now env4) j (mf_pending st3) = (Some ?p, mf_pending st3)" using assms(5) by (simp add: pending_get_def)
  then show ?thesis using * assms(6-8) by (simp add: confirmEnrollment_def save_secret_def Let_def)
qed

text \<open>Two calls that meet an empty store both pass the check, and both store.\<close>

lemma overlap_from_empty:
  "enroll_check env uid empty_mfa = (False, empty_mfa)"
  "\<exists>uri st1 uri' st2. enroll_finish cfg env uid em (Some None) empty_mfa = (EnrollOk (en_uuid env 0) uri, st1, [])
     \<and> enroll_finish cfg env' uid em' (Some None) st1 = (EnrollOk (en_uuid env' 0) uri', st2, [])"
  by (simp_all add: enroll_check_def enroll_finish_def Let_def nullish_def empty_mfa_def)

end
