(* ===== verification/Audit_Rows.thy ===== *)
theory Audit_Rows
  imports Audit_Trail JsText
begin

text \<open>
  The rows of the audit table as the database driver returns them, and \<open>toAuditLog\<close> of \<open>src/src/audit/audit.repository.ts\<close>, which turns
  their texts into numbers: the driver gives the 64-bit identifier and the numeric score as strings.
\<close>

record AuditLogRow =
  row_id :: string
  row_user_id :: string
  row_resource :: string
  row_action :: string
  row_decision :: decision_label
  row_trust_score :: "string option"
  row_ja4h_fingerprint :: "string option"
  row_ip_address :: "string option"
  row_user_agent :: "string option"
  row_request_id :: "string option"
  row_event_type :: "string option"
  row_created_at :: ms

text \<open>The result with its identifier, the fields of the entry and the time.\<close>

definition toAuditLog :: "fp \<Rightarrow> AuditLogRow \<Rightarrow> jsnum \<times> AuditEntry \<times> ms" where
  "toAuditLog f row =
     (js_number f (row_id row),
      \<lparr>ae_userId = row_user_id row, ae_resource = row_resource row, ae_action = row_action row, ae_decision = row_decision row,
       ae_trustScore = map_option (js_number f) (row_trust_score row), ae_ja4hFingerprint = row_ja4h_fingerprint row,
       ae_ipAddress = row_ip_address row, ae_userAgent = row_user_agent row, ae_requestId = row_request_id row,
       ae_eventType = row_event_type row\<rparr>,
      row_created_at row)"

section \<open>Reading a decimal\<close>

lemma digit_val_char: "m < 10 \<Longrightarrow> digit_val (char_of (48 + m)) = m"
  by (simp add: digit_val_def)

lemma parse_dec_snoc: "parse_dec (s @ [c]) = 10 * parse_dec s + digit_val c"
  by (simp add: parse_dec_def)

lemma parse_dec_string: "parse_dec (dec_string n) = n"
proof (induction n rule: dec_string.induct)
  case (1 n)
  show ?case
  proof (cases "n < 10")
    case True
    then show ?thesis by (subst dec_string.simps) (simp add: parse_dec_def digit_val_char)
  next
    case False
    then show ?thesis using 1 by (subst dec_string.simps) (simp add: parse_dec_snoc digit_val_char)
  qed
qed

lemma dec_string_nonzero: "0 < n \<Longrightarrow> hd (dec_string n) \<noteq> CHR ''0'' \<and> dec_string n \<noteq> []"
proof (induction n rule: dec_string.induct)
  case (1 n)
  show ?case
  proof (cases "n < 10")
    case True
    have "char_of (48 + n) \<noteq> CHR ''0''"
    proof
      assume "char_of (48 + n) = CHR ''0''"
      then have "digit_val (char_of (48 + n)) = 0" by (simp add: digit_val_def)
      with digit_val_char [OF True] 1(2) show False by simp
    qed
    then show ?thesis using True by (subst (1 2) dec_string.simps) simp
  next
    case False
    then have "0 < n div 10" by simp
    from 1(1) [OF False this] False show ?thesis by (subst (1 2) dec_string.simps) auto
  qed
qed

text \<open>\<open>Number\<close> of a decimal numeral is the nearest double of the number.\<close>

lemma digits_not_space: "list_all is_digit s \<Longrightarrow> js_trim s = s"
proof -
  assume d: "list_all is_digit s"
  have "\<not> js_space c" if "is_digit c" for c using that by (auto simp: js_space_def is_digit_def)
  with d have "\<forall>c \<in> set s. \<not> js_space c" by (auto simp: list_all_iff)
  then have "dropWhile js_space s = s" "dropWhile js_space (rev s) = rev s"
    by (auto simp: dropWhile_eq_self_iff last_in_set hd_rev hd_in_set)
  then show ?thesis by (simp add: js_trim_def)
qed

lemma decimal_value_digits: "list_all is_digit s \<Longrightarrow> s \<noteq> [] \<Longrightarrow> decimal_value s = Some (real (parse_dec s))"
proof -
  assume "list_all is_digit s" "s \<noteq> []"
  then have "takeWhile is_digit s = s" "dropWhile is_digit s = []" by (simp_all add: list_all_iff)
  then show ?thesis using \<open>s \<noteq> []\<close> by (simp add: decimal_value_def exponent_part_def Let_def
        del: takeWhile_eq_all_conv dropWhile_eq_Nil_conv)
qed

lemma js_number_decimal: "js_number f (dec_string n) = Fin (rnd f (real n))"
proof -
  let ?s = "dec_string n"
  have d: "list_all is_digit ?s" by (rule dec_string_digits)
  have ne: "?s \<noteq> []" by (subst dec_string.simps) simp
  then obtain c r where cr: "?s = c # r" by (cases ?s) auto
  have c: "is_digit c" using d cr by simp
  then have sign: "split_sign ?s = (False, ?s)" using cr by (auto simp: split_sign_def is_digit_def)
  have "take 1 ?s = ''0'' \<Longrightarrow> n = 0" using dec_string_nonzero [of n] cr by (cases "n = 0") auto
  then have radix: "take 1 ?s = ''0'' \<Longrightarrow> length ?s < 2" by (auto simp: dec_string.simps [of 0])
  have "?s \<noteq> ''Infinity''" using d by (auto simp: is_digit_def)
  then show ?thesis using ne sign radix decimal_value_digits [OF d ne]
    by (auto simp: js_number_def digits_not_space [OF d] parse_dec_string Let_def)
qed

text \<open>
  Identifiers come back exactly while the arithmetic represents them, as doubles do up to \<open>2 ^ 53\<close>; two rows whose identifiers round to
  one double get the same number.
\<close>

lemma toAuditLog_id:
  assumes "row_id row = dec_string n" and "rnd f (real n) = real n"
  shows "fst (toAuditLog f row) = Fin (real n)"
  using assms by (simp add: toAuditLog_def js_number_decimal)

lemma toAuditLog_merges:
  assumes "row_id row = dec_string n" and "row_id row' = dec_string m" and "rnd f (real n) = rnd f (real m)"
  shows "fst (toAuditLog f row) = fst (toAuditLog f row')"
  using assms by (simp add: toAuditLog_def js_number_decimal)

end
