(* ===== verification/Demo_Services.thy ===== *)
theory Demo_Services
  imports Proxy Bopla
begin

text \<open>
  The demonstration upstreams: the server of \<open>src/microservices/shared/https-server.ts\<close> and the routes of \<open>users-service\<close> and
  \<open>orders-service\<close>, with the field policy the repository ships, \<open>src/policy/field-policy.json\<close>. A handler throws (\<open>Inl\<close>, the message) or
  returns a status, which may be missing, and a body. \<open>JSON.stringify\<close> with the encoding to a buffer is the parameter \<open>stringify\<close>, \<open>size_of\<close> a
  buffer's length; of \<open>undefined\<close> it is not a string, and \<open>Buffer.from\<close> throws. The TLS handshake is not modelled.
\<close>

section \<open>The server\<close>

record IncomingMessage =
  im_url :: "string option"
  im_method :: "string option"
  im_headers :: "(string \<times> hval) list"

record RouteResult =
  rr_status :: "nat option"
  rr_body :: json

type_synonym RouteHandler = "IncomingMessage \<Rightarrow> string + RouteResult"

record 'p ServiceResponse =
  sr_status :: nat
  sr_content_type :: string
  sr_content_length :: nat
  sr_payload :: 'p

definition routeKey :: "IncomingMessage \<Rightarrow> string" where
  "routeKey im =
     (let pathname = hd (split_on CHR ''?'' (nullish (im_url im) ''/''))
      in nullish (im_method im) ''GET'' @ '' '' @ pathname)"

definition sendJson :: "(json \<Rightarrow> 'p) \<Rightarrow> ('p \<Rightarrow> nat) \<Rightarrow> nat \<Rightarrow> json \<Rightarrow> 'p ServiceResponse option" where
  "sendJson stringify size_of status body =
     (if body = JUndef then None
      else (let payload = stringify body
            in Some \<lparr>sr_status = status, sr_content_type = ''application/json; charset=utf-8'',
                 sr_content_length = size_of payload, sr_payload = payload\<rparr>))"

text \<open>The request listener; the last \<open>catch\<close> covers the handler and the writer. Its own body is an object, so it is always written.\<close>

definition handler_error :: "(json \<Rightarrow> 'p) \<Rightarrow> ('p \<Rightarrow> nat) \<Rightarrow> string \<Rightarrow> 'p ServiceResponse" where
  "handler_error stringify size_of m = the (sendJson stringify size_of 500 (JObj [(''error'', JStr ''handler_error''), (''message'', JStr m)]))"

definition https_request ::
    "(json \<Rightarrow> 'p) \<Rightarrow> ('p \<Rightarrow> nat) \<Rightarrow> (string \<times> RouteHandler) list \<Rightarrow> IncomingMessage \<Rightarrow> 'p ServiceResponse" where
  "https_request stringify size_of routes im =
     (case map_of routes (routeKey im) of
        None \<Rightarrow> the (sendJson stringify size_of 404 (JObj [(''error'', JStr ''not_found''), (''route'', JStr (routeKey im))]))
      | Some handler \<Rightarrow>
          (case handler im of
             Inl m \<Rightarrow> handler_error stringify size_of m
           | Inr result \<Rightarrow>
               (case sendJson stringify size_of (nullish (rr_status result) 200) (rr_body result) of
                  Some r \<Rightarrow> r
                | None \<Rightarrow> handler_error stringify size_of ''The first argument must be of type string'')))"

section \<open>The services\<close>

definition users_routes :: "fp \<Rightarrow> (string \<times> RouteHandler) list" where
  "users_routes f = [(''GET /u-1'', \<lambda>_. Inr \<lparr>rr_status = None, rr_body = JObj
     [(''id'', JStr ''u-1''), (''name'', JStr ''Alice Example''), (''email'', JStr ''alice@example.com''),
      (''ssn'', JStr ''999-99-9999''), (''internalRiskScore'', JNum (lit f (42/100)))]\<rparr>)]"

definition hval_json :: "hval option \<Rightarrow> json" where
  "hval_json v = (case v of None \<Rightarrow> JNull | Some (HStr s) \<Rightarrow> JStr s | Some (HArr xs) \<Rightarrow> JArr (map JStr xs))"

definition orders_routes :: "(string \<times> RouteHandler) list" where
  "orders_routes = [(''GET /o-1'', \<lambda>im. Inr \<lparr>rr_status = None, rr_body = JObj
     [(''id'', JStr ''o-1''), (''amount'', jint 99), (''currency'', JStr ''USD''),
      (''received_ja4h'', hval_json (map_of (im_headers im) ''x-ja4h''))]\<rparr>)]"

text \<open>The paths and the port of a service from its environment; \<open>parseInt\<close> of the port is the caller's.\<close>

record MtlsServerOptions =
  so_port :: string
  so_certPath :: string
  so_keyPath :: string
  so_caPath :: string

definition service_options :: "string \<Rightarrow> (string \<Rightarrow> string option) \<Rightarrow> MtlsServerOptions" where
  "service_options name var =
     (let certDir = nullish (var ''CERT_DIR'') ''/app/certs''
      in \<lparr>so_port = nullish (var ''PORT'') ''8443'',
          so_certPath = nullish (var ''CERT_PATH'') (certDir @ ''/'' @ name @ ''.crt''),
          so_keyPath = nullish (var ''KEY_PATH'') (certDir @ ''/'' @ name @ ''.key''),
          so_caPath = nullish (var ''CA_PATH'') (certDir @ ''/ca.crt'')\<rparr>)"

text \<open>
  Starting a service: the three files are read one after the other, then the port is bound; what goes wrong rejects, and the
  service ends with code 1. \<open>readFile\<close> is the disk and \<open>bind\<close> the port the system gives, if any.
\<close>

record TlsOptions =
  tls_key :: string
  tls_cert :: string
  tls_ca :: string
  tls_requestCert :: bool
  tls_rejectUnauthorized :: bool

datatype service_error = Unreadable string | Not_bound

definition tls_options :: "(string \<Rightarrow> string option) \<Rightarrow> MtlsServerOptions \<Rightarrow> service_error + TlsOptions" where
  "tls_options readFile opts =
     (case readFile (so_keyPath opts) of
        None \<Rightarrow> Inl (Unreadable (so_keyPath opts))
      | Some key \<Rightarrow>
          (case readFile (so_certPath opts) of
             None \<Rightarrow> Inl (Unreadable (so_certPath opts))
           | Some cert \<Rightarrow>
               (case readFile (so_caPath opts) of
                  None \<Rightarrow> Inl (Unreadable (so_caPath opts))
                | Some ca \<Rightarrow> Inr \<lparr>tls_key = key, tls_cert = cert, tls_ca = ca, tls_requestCert = True, tls_rejectUnauthorized = True\<rparr>)))"

definition createMtlsServer ::
    "(string \<Rightarrow> string option) \<Rightarrow> (string \<Rightarrow> nat option) \<Rightarrow> MtlsServerOptions \<Rightarrow> service_error + TlsOptions \<times> nat" where
  "createMtlsServer readFile bind opts =
     (case tls_options readFile opts of
        Inl e \<Rightarrow> Inl e
      | Inr tls \<Rightarrow> (case bind (so_port opts) of None \<Rightarrow> Inl Not_bound | Some port \<Rightarrow> Inr (tls, port)))"

datatype service_state = Serving TlsOptions nat | Service_exited nat

definition service_started :: "service_error + TlsOptions \<times> nat \<Rightarrow> service_state" where
  "service_started r = (case r of Inl e \<Rightarrow> Service_exited 1 | Inr (tls, port) \<Rightarrow> Serving tls port)"

definition users_main :: "(string \<Rightarrow> string option) \<Rightarrow> (string \<Rightarrow> nat option) \<Rightarrow> (string \<Rightarrow> string option) \<Rightarrow> service_state" where
  "users_main readFile bind var = service_started (createMtlsServer readFile bind (service_options ''users-service'' var))"

definition orders_main :: "(string \<Rightarrow> string option) \<Rightarrow> (string \<Rightarrow> nat option) \<Rightarrow> (string \<Rightarrow> string option) \<Rightarrow> service_state" where
  "orders_main readFile bind var = service_started (createMtlsServer readFile bind (service_options ''orders-service'' var))"

definition field_policy :: FieldPolicy where
  "field_policy =
     [(''/users/**'', [(''admin'', [''*'']), (''user'', [''id'', ''email'', ''name''])]),
      (''/orders/**'', [(''admin'', [''*'']), (''user'', [''id'', ''status'', ''total'', ''amount'', ''currency''])]),
      (''/billing/**'', [(''admin'', [''*''])])]"

text \<open>What the gateway's HTTP client makes of a response: the body parsed.\<close>

definition as_upstream :: "('p \<Rightarrow> json) \<Rightarrow> 'p ServiceResponse \<Rightarrow> UpstreamResponse" where
  "as_upstream parse r = \<lparr>up_status = sr_status r, up_content_type = Some (HStr (sr_content_type r)), up_body = parse (sr_payload r)\<rparr>"

text \<open>
  Parsing inverts rendering on the values that have a JSON text of their own: no undefined, no other objects, no number without a
  literal, keys that are pairwise different names.
\<close>

fun plain_json :: "json \<Rightarrow> bool" where
  "plain_json (JArr xs) = list_all plain_json xs"
| "plain_json (JObj fs) = (distinct (map fst fs) \<and> list_all (\<lambda>(k, v). k \<noteq> [] \<and> \<not> is_digit (hd k) \<and> plain_json v) fs)"
| "plain_json (JNum n) = (case n of Fin x \<Rightarrow> True | _ \<Rightarrow> False)"
| "plain_json JUndef = False"
| "plain_json JOpaque = False"
| "plain_json v = True"

definition json_codec :: "(json \<Rightarrow> 'p) \<Rightarrow> ('p \<Rightarrow> json) \<Rightarrow> bool" where
  "json_codec stringify parse \<longleftrightarrow> (\<forall>v. plain_json v \<longrightarrow> parse (stringify v) = v)"

section \<open>Lemmas\<close>

text \<open>A route key has a space, so looking it up in the plain object of routes never finds an inherited property.\<close>

lemma routeKey_not_inherited: "routeKey im \<notin> set object_prototype_keys"
proof -
  have "CHR '' '' \<in> set (routeKey im)" by (simp add: routeKey_def Let_def)
  moreover have "\<forall>k \<in> set object_prototype_keys. CHR '' '' \<notin> set k" by (simp add: object_prototype_keys_def)
  ultimately show ?thesis by blast
qed

lemma sendJson_Some [simp]: "sendJson stringify size_of st (JObj fs) = Some \<lparr>sr_status = st,
    sr_content_type = ''application/json; charset=utf-8'', sr_content_length = size_of (stringify (JObj fs)), sr_payload = stringify (JObj fs)\<rparr>"
  by (simp add: sendJson_def Let_def)

text \<open>
  Whatever the routes and whatever a handler does, the answer is JSON, its length header is the length of its payload, and its status is 404
  for a key without a route, the handler's (or 200), or 500.
\<close>

lemma https_request_wellformed:
  "sr_content_type (https_request stringify size_of routes im) = ''application/json; charset=utf-8''"
  "sr_content_length (https_request stringify size_of routes im) = size_of (sr_payload (https_request stringify size_of routes im))"
  by (auto simp: https_request_def handler_error_def sendJson_def Let_def split: option.splits sum.splits)

lemma content_type_is_json: "contains ''application/json'' (to_lower ''application/json; charset=utf-8'')"
  by code_simp

lemma service_answer_valid:
  assumes "sr_status (https_request stringify size_of routes im) < 500"
  shows "assertValidProxyResponse (as_upstream parse (https_request stringify size_of routes im)) = None"
  using assms content_type_is_json
  by (simp add: assertValidProxyResponse_def as_upstream_def content_type_string_def https_request_wellformed Let_def)

lemma role_fields_users:
  assumes "''admin'' \<notin> set rs"
  shows "role_fields [(''admin'', a), (''user'', u)] rs \<in> {NoEntry, NotIterable, Fields u}"
  using assms by (induction rs) auto

text \<open>
  A service that listens asks every client for a certificate, refuses those its authority did not sign, and has the files its environment
  names; one that cannot read them all or cannot bind its port ends.
\<close>

lemma service_started_Serving:
  "service_started (createMtlsServer readFile bind opts) = Serving tls port \<longleftrightarrow>
     readFile (so_keyPath opts) = Some (tls_key tls) \<and> readFile (so_certPath opts) = Some (tls_cert tls)
   \<and> readFile (so_caPath opts) = Some (tls_ca tls) \<and> tls_requestCert tls \<and> tls_rejectUnauthorized tls \<and> bind (so_port opts) = Some port"
  by (cases tls) (auto simp: service_started_def createMtlsServer_def tls_options_def split: option.splits)

lemma service_main_ends:
  "(\<exists>tls port. users_main readFile bind var = Serving tls port) \<or> users_main readFile bind var = Service_exited 1"
  "(\<exists>tls port. orders_main readFile bind var = Serving tls port) \<or> orders_main readFile bind var = Service_exited 1"
  by (auto simp: users_main_def orders_main_def service_started_def split: sum.splits)

lemma default_services_share_authority:
  assumes "users_main readFile bind (\<lambda>_. None) = Serving tls p" and "orders_main readFile bind' (\<lambda>_. None) = Serving tls' p'"
  shows "tls_ca tls = tls_ca tls'"
  using assms unfolding users_main_def orders_main_def service_started_Serving by (simp add: service_options_def Let_def nullish_def)

text \<open>
  The fingerprint the orders service echoes is the one the gateway computed: a header of that name from the client is
  replaced on the way.
\<close>

lemma echoed_fingerprint:
  assumes "routeKey im = ''GET /o-1''"
    and "im_headers im = map (\<lambda>(k, v). (k, HStr v)) (buildProxyHeaders num_str incoming cl score (Some j))"
  shows "\<exists>h r fs. map_of orders_routes (routeKey im) = Some h \<and> h im = Inr r \<and> rr_body r = JObj fs \<and> map_of fs ''received_ja4h'' = Some (JStr j)"
proof -
  have "map_of (buildProxyHeaders num_str incoming cl score (Some j)) ''x-ja4h'' = Some j"
    by (simp add: buildProxyHeaders_def Let_def)
  then have "map_of (im_headers im) ''x-ja4h'' = Some (HStr j)" unfolding assms(2) by (simp add: map_of_map)
  then show ?thesis using assms(1) by (simp add: orders_routes_def hval_json_def)
qed

text \<open>
  The demonstration of response stripping: whatever the users service is asked, its answer is accepted by the proxy, and what the gateway
  hands to a caller without the admin role under the shipped field policy is either nothing, or, for the one
  existing user, exactly the identifier, the address and the name. The social-security number and the risk score
  never get through.
\<close>

lemma users_body_protected:
  assumes "json_codec stringify parse" and "isMatch path ''/users/**''" and "''admin'' \<notin> set rs"
    and up: "up = as_upstream parse (https_request stringify size_of (users_routes f) im)"
  shows "assertValidProxyResponse up = None
    \<and> (\<forall>out. strip isMatch field_policy (up_body up) path rs = Inr out \<longrightarrow>
         out = JObj [] \<or> (routeKey im = ''GET /u-1''
           \<and> out = JObj [(''id'', JStr ''u-1''), (''email'', JStr ''alice@example.com''), (''name'', JStr ''Alice Example'')]))"
proof (intro conjI allI impI)
  have "sr_status (https_request stringify size_of (users_routes f) im) < 500"
    by (simp add: https_request_def users_routes_def nullish_def)
  then show "assertValidProxyResponse up = None" unfolding up by (rule service_answer_valid)
  fix out assume out: "strip isMatch field_policy (up_body up) path rs = Inr out"
  let ?u = "JObj [(''id'', JStr ''u-1''), (''name'', JStr ''Alice Example''), (''email'', JStr ''alice@example.com''),
      (''ssn'', JStr ''999-99-9999''), (''internalRiskScore'', JNum (lit f (42/100)))]"
  let ?n = "JObj [(''error'', JStr ''not_found''), (''route'', JStr (routeKey im))]"
  have "plain_json ?u" "plain_json ?n" by (simp_all add: lit_def is_digit_def)
  then have codec: "parse (stringify ?u) = ?u" "parse (stringify ?n) = ?n" using assms(1) by (auto simp: json_codec_def)
  then have body: "up_body up = (if routeKey im = ''GET /u-1'' then ?u else ?n)"
    by (simp add: up as_upstream_def https_request_def users_routes_def)
  have "findAllowedFields isMatch field_policy path rs \<in> {NoEntry, NotIterable, Fields [''id'', ''email'', ''name'']}"
    using assms(2) role_fields_users [OF assms(3)] by (simp add: field_policy_def)
  then show "out = JObj [] \<or> (routeKey im = ''GET /u-1''
      \<and> out = JObj [(''id'', JStr ''u-1''), (''email'', JStr ''alice@example.com''), (''name'', JStr ''Alice Example'')])"
    using out assms(3) unfolding body by (auto simp: strip_def pick_def split: if_splits)
qed

end
