(* ===== verification/Demo_Tools.thy ===== *)
theory Demo_Tools
  imports Hashcash Auth Totp
begin

text \<open>
  The command-line tools of the demonstration, \<open>src/scripts/hashcash-solve.ts\<close>, \<open>mint-demo-jwt.ts\<close> and \<open>totp.ts\<close>, against the
  services they are made for. \<open>Inl\<close> is the usage message before the process exits with code 1. The solver may run for ever: its
  loop is a partial function, and \<^const>\<open>None\<close> is not returning. Its counter is a double, so it stops growing at \<open>2 ^ 53\<close>.
\<close>

section \<open>The proof-of-work solver\<close>

partial_function (option) solve_loop :: "(string \<Rightarrow> byte list) \<Rightarrow> string \<Rightarrow> int \<Rightarrow> nat \<Rightarrow> string option" where
  "solve_loop sha256 nonce difficulty i =
     (if difficulty \<le> int (countLeadingZeroBits (hashSolution sha256 nonce (dec_string i))) then Some (dec_string i)
      else solve_loop sha256 nonce difficulty (if i < 2 ^ 53 then Suc i else i))"

definition solve :: "(string \<Rightarrow> byte list) \<Rightarrow> string \<Rightarrow> int \<Rightarrow> string option" where
  "solve sha256 nonce difficulty = solve_loop sha256 nonce difficulty 0"

text \<open>\<open>main\<close>: the difficulty argument after \<open>parseInt\<close>, \<^const>\<open>None\<close> when it is not a number.\<close>

definition solver_main :: "(string \<Rightarrow> byte list) \<Rightarrow> string option \<Rightarrow> int option \<Rightarrow> (string + string) option" where
  "solver_main sha256 nonce difficulty =
     (case (truthy nonce, difficulty) of
        (Some n, Some d) \<Rightarrow>
          if d < 1 then Some (Inl ''usage: hashcash-solve.ts <nonce> <difficulty>'')
          else map_option Inr (solve sha256 n d)
      | _ \<Rightarrow> Some (Inl ''usage: hashcash-solve.ts <nonce> <difficulty>''))"

lemma dec_string_nonempty [simp]: "dec_string n \<noteq> []"
  by (subst dec_string.simps) simp

lemma solve_loop_finds:
  assumes "d \<le> int (countLeadingZeroBits (hashSolution sha nonce (dec_string k)))" and "i \<le> k" and "k \<le> 2 ^ 53"
  shows "\<exists>j \<ge> i. j \<le> k \<and> solve_loop sha nonce d i = Some (dec_string j)
    \<and> d \<le> int (countLeadingZeroBits (hashSolution sha nonce (dec_string j)))
    \<and> (\<forall>m. i \<le> m \<and> m < j \<longrightarrow> int (countLeadingZeroBits (hashSolution sha nonce (dec_string m))) < d)"
  using assms(2)
proof (induction "k - i" arbitrary: i)
  case 0
  then have "i = k" by simp
  with assms(1) show ?case by (intro exI [of _ i]) (simp add: solve_loop.simps)
next
  case (Suc n)
  show ?case
  proof (cases "d \<le> int (countLeadingZeroBits (hashSolution sha nonce (dec_string i)))")
    case True
    then show ?thesis using Suc.prems by (intro exI [of _ i]) (simp add: solve_loop.simps)
  next
    case False
    have "n = k - Suc i" "Suc i \<le> k" "i < 2 ^ 53" using Suc.hyps(2) assms(3) by simp_all
    then have step: "solve_loop sha nonce d i = solve_loop sha nonce d (Suc i)" using False by (subst solve_loop.simps) simp
    obtain j where j: "Suc i \<le> j" "j \<le> k" "solve_loop sha nonce d (Suc i) = Some (dec_string j)"
        "d \<le> int (countLeadingZeroBits (hashSolution sha nonce (dec_string j)))"
        "\<forall>m. Suc i \<le> m \<and> m < j \<longrightarrow> int (countLeadingZeroBits (hashSolution sha nonce (dec_string m))) < d"
      using Suc.hyps(1) [OF \<open>n = k - Suc i\<close> \<open>Suc i \<le> k\<close>] by blast
    have "int (countLeadingZeroBits (hashSolution sha nonce (dec_string m))) < d" if "i \<le> m" "m < j" for m
      using j(5) False that by (cases "m = i") (simp_all add: Suc_le_eq)
    then show ?thesis using step j by (intro exI [of _ j]) simp
  qed
qed

section \<open>Minting a token\<close>

record mint_vars =
  mv_JWT_SECRET :: "string option"
  mv_SUB :: "string option"
  mv_ROLES :: "string option"
  mv_DEVICE_ID :: "string option"

text \<open>
  The claims \<open>SignJWT\<close> is given; \<open>uuid\<close> and \<open>expiry\<close> are what \<open>randomUUID\<close> and the time to live come to. Signing is the parameter
  \<open>sign secret payload\<close>.
\<close>

definition mint_payload :: "mint_vars \<Rightarrow> string \<Rightarrow> int \<Rightarrow> JWTPayload" where
  "mint_payload v uuid expiry =
     (let sub = nullish (mv_SUB v) ''alice'';
          rs = map js_trim (split_on CHR '','' (nullish (mv_ROLES v) ''user''));
          device = nullish (mv_DEVICE_ID v) (sub @ ''-device-1'')
      in \<lparr>p_sub = sub, p_jti = uuid, p_exp = Some expiry, p_typ = JUndef, p_deviceId = JStr device, p_roles = JArr (map JStr rs),
          p_email = None, p_sessionId = None\<rparr>)"

definition mint_main :: "(string \<Rightarrow> JWTPayload \<Rightarrow> string) \<Rightarrow> mint_vars \<Rightarrow> string \<Rightarrow> int \<Rightarrow> string + string" where
  "mint_main sign v uuid expiry =
     (case mv_JWT_SECRET v of
        None \<Rightarrow> Inl ''JWT_SECRET must be set and >= 32 chars''
      | Some secret \<Rightarrow>
          if length secret < 32 then Inl ''JWT_SECRET must be set and >= 32 chars''
          else Inr (sign secret (mint_payload v uuid expiry)))"

text \<open>
  What the code relies on of the library: the compact form has no spaces, its header names the algorithm it was signed with, and verification with
  the same secret gives an unexpired payload with a subject and an identifier back when no issuer and no audience is demanded.
\<close>

definition sign_ok :: "jose \<Rightarrow> (string \<Rightarrow> JWTPayload \<Rightarrow> string) \<Rightarrow> (int \<Rightarrow> bool) \<Rightarrow> bool" where
  "sign_ok jo sign live \<longleftrightarrow> (\<forall>k p. sign k p \<noteq> [] \<and> CHR '' '' \<notin> set (sign k p) \<and> jo_decodeProtectedHeader jo (sign k p) = Inr (Some ''HS256'')
     \<and> (\<forall>x vo. p_exp p = Some x \<and> live x \<and> vo_issuer vo = None \<and> vo_audience vo = None \<and> ''HS256'' \<in> set (vo_algorithms vo) \<longrightarrow>
          jo_jwtVerify jo (sign k p) (SecretKey k) vo = Inr p))"

text \<open>
  A minted token authenticates with the claims asked for, when the gateway has the same secret and demands neither issuer nor audience, and the
  device name is not blank.
\<close>

lemma role_claims_strings_id: "role_claims (JArr (map JStr rs)) = rs"
  by (induction rs) (auto simp: List.map_filter_simps)

lemma split_bearer: "CHR '' '' \<notin> set tok \<Longrightarrow> split_on CHR '' '' (''Bearer '' @ tok) = [''Bearer'', tok]"
proof -
  assume "CHR '' '' \<notin> set tok"
  then have "split_on CHR '' '' tok = [tok]" by (induction tok) auto
  then show ?thesis by simp
qed

lemma minted_token_authenticates:
  assumes "sign_ok jo sign live" and "live expiry" and "mint_main sign v uuid expiry = Inr tok"
    and "jwtSecret cfg = the (mv_JWT_SECRET v)" and "truthy (jwtIssuer cfg) = None" and "truthy (jwtAudience cfg) = None"
    and "js_trim (nullish (mv_DEVICE_ID v) (nullish (mv_SUB v) ''alice'' @ ''-device-1'')) \<noteq> []"
    and "header req ''authorization'' = Some (HStr (''Bearer '' @ tok))"
  shows "authenticate jo cfg req = AuthOk \<lparr>userId = nullish (mv_SUB v) ''alice'',
    roles = map js_trim (split_on CHR '','' (nullish (mv_ROLES v) ''user'')), jti = uuid, exp_at = Some expiry, email = None,
    sessionId = None, deviceId = nullish (mv_DEVICE_ID v) (nullish (mv_SUB v) ''alice'' @ ''-device-1'')\<rparr>"
proof -
  let ?p = "mint_payload v uuid expiry"
  have tok: "tok = sign (jwtSecret cfg) ?p" using assms(3,4) by (auto simp: mint_main_def split: option.splits if_splits)
  have "p_exp ?p = Some expiry" by (simp add: mint_payload_def Let_def)
  then have v: "jo_jwtVerify jo tok (SecretKey (jwtSecret cfg)) (auth_options cfg) = Inr ?p"
    and h: "jo_decodeProtectedHeader jo tok = Inr (Some ''HS256'')" and t: "tok \<noteq> []" "CHR '' '' \<notin> set tok"
    using assms(1,2,5,6) unfolding tok sign_ok_def by (auto simp: auth_options_def)
  have "p_typ ?p \<noteq> JStr ''mfa''" by (simp add: mint_payload_def Let_def)
  then have "validateToken jo cfg tok = extractClaims ?p" by (simp add: validateToken_def h v)
  then show ?thesis using t assms(7,8) split_bearer [OF t(2)]
      role_claims_strings_id [of "map js_trim (split_on CHR '','' (nullish (mv_ROLES v) ''user''))"]
    by (simp add: authenticate_def extractClaims_def mint_payload_def Let_def del: map_map role_claims.simps)
qed

section \<open>The authenticator\<close>

definition totp_main :: "(byte list \<Rightarrow> byte list \<Rightarrow> byte list) \<Rightarrow> ms \<Rightarrow> string option \<Rightarrow> string + string" where
  "totp_main hmac now secret =
     (case truthy secret of None \<Rightarrow> Inl ''usage: totp.ts <base32Secret>'' | Some s \<Rightarrow> totp_generate hmac now s)"

lemma shown_code_accepted:
  assumes "base32Decode secret = Inr key" and "clock_ok now" and "secret \<noteq> []"
  shows "\<exists>code. totp_main hmac now (Some secret) = Inr code \<and> totp_verify hmac now code secret = Inr True"
proof -
  have "0 \<le> currentCounter now" "currentCounter now < 2 ^ 64"
    using assms(2) by (auto simp: clock_ok_def currentCounter_div div_less_iff_less_mult)
  then obtain code where "hotp hmac key (currentCounter now) = Inr code" using hotp_total by blast
  then show ?thesis using assms by (auto simp: totp_main_def truthy_def totp_generate_def totp_verify_exact)
qed

section \<open>Properties\<close>

text \<open>
  C29. Proof of work from end to end: for a challenge the service issued, the solver returns, provided any counter value up to \<open>2 ^ 53\<close> is a
  solution, with the smallest such value, and the service accepts it from the same user and device before the challenge expires, while the
  score asks for the same difficulty, on its first use.
\<close>

theorem solver_redeems:
  assumes "json_ok e" and "issueChallenge e cfg t uid did sc s = (ic, s1)" and "ic_difficulty ic = Fin (of_int d)" and "1 \<le> d"
    and "pow_required e cfg sc' = Fin (of_int d)" and "now div 1000 < ic_expiresAt ic" and "map_of (hs_nonces s2) (ic_nonce ic) = None"
    and "k \<le> 2 ^ 53" and "d \<le> int (leading_zeros (pe_sha256 e (ic_nonce ic @ dec_string k)))"
  shows "\<exists>j s3. solver_main (pe_sha256 e) (Some (ic_nonce ic)) (Some d) = Some (Inr (dec_string j))
    \<and> j \<le> k \<and> (\<forall>m < j. int (leading_zeros (pe_sha256 e (ic_nonce ic @ dec_string m))) < d)
    \<and> verifySolution e cfg now (ic_nonce ic) (dec_string j) sc' uid did s2 = (VOk (t div 1000), s3)"
proof -
  note spec = countLeadingZeroBits_spec hashSolution_def
  obtain j where j: "j \<le> k" "solve_loop (pe_sha256 e) (ic_nonce ic) d 0 = Some (dec_string j)"
      "d \<le> int (leading_zeros (pe_sha256 e (ic_nonce ic @ dec_string j)))"
      "\<forall>m < j. int (leading_zeros (pe_sha256 e (ic_nonce ic @ dec_string m))) < d"
    using solve_loop_finds [of d "pe_sha256 e" "ic_nonce ic" k 0] assms(8,9) by (auto simp: spec)
  have "j < 10 ^ Suc 15" using j(1) assms(8) by simp
  then have len: "1 \<le> length (dec_string j)" "length (dec_string j) \<le> 256"
    using dec_string_length [of j 15] dec_string_nonempty [of j] by (simp_all add: Suc_le_eq)
  have "ic_nonce ic \<noteq> []" using assms(2) by (auto simp: issueChallenge_def Let_def)
  then have "solver_main (pe_sha256 e) (Some (ic_nonce ic)) (Some d) = Some (Inr (dec_string j))"
    using j(2) assms(4) by (simp add: solver_main_def truthy_def solve_def)
  moreover obtain s3 where "verifySolution e cfg now (ic_nonce ic) (dec_string j) sc' uid did s2 = (VOk (t div 1000), s3)"
    using issued_challenge_redeemable [OF assms(1-3) assms(5,6) len j(3) assms(7)] by blast
  ultimately show ?thesis using j(1,4) by blast
qed

theorem solver_redeems_witness:
  "\<exists>j s3. solver_main (pe_sha256 sample_env) (Some (ic_nonce sample_ic)) (Some 20) = Some (Inr (dec_string j))
     \<and> verifySolution sample_env (default_hashcash []) 119000 (ic_nonce sample_ic) (dec_string j) (Fin (4/5)) ''u'' ''d'' idle_pow = (VOk 0, s3)"
  using solver_redeems [OF json_ok_sample sample_ic_issued sample_ic_simps(1) _ sample_required, of 119000 idle_pow 0] sample_env_zeros
  by auto

end
