(* ===== verification/Wiring.thy ===== *)
theory Wiring
  imports Pipeline
begin

text \<open>
  The wiring of the gateway: the module declarations under \<open>src/src/**/*.module.ts\<close>, the constructor parameters of every class they
  register, and what the dependency-injection container must find for each of them. A declaration is a record with the fields of the decorator;
  a token is the name of a class or symbol that is injected or registered. The container is a library: its scoping rules as
  documented are the locale \<open>container\<close>, and \<open>visible\<close> is the least scoping with those rules.

  Shown: whatever container follows the rules resolves every parameter of every provider, controller, route guard and middleware in the module that
  hosts it, for either setting of the demonstration flag; neither the imports nor the parameters have a cycle; the stores stay private to their
  modules; and the factory of the pipeline receives the stages in the order the pipeline model runs them.
\<close>

section \<open>Tokens and declarations\<close>

type_synonym token = string

datatype nest_module =
    ConfigModule | EventEmitterModule
  | ConfigAppModule | DbModule | AuthModule | SharedModule | DemoModeModule | FingerprintModule | TrustScoreModule | HashcashModule | PolicyModule
  | MfaModule | DemoMfaModule | ProxyModule | MetricsModule | AuditModule | GatewayModule | HoneypotModule | AppModule

text \<open>A constructor parameter; one marked \<open>@Optional()\<close> is left undefined when nothing provides it.\<close>

datatype dep = Needs token | Optionally token

text \<open>A class: its name, which is its token, and the parameters of its constructor.\<close>

type_synonym class_decl = "token \<times> dep list"

text \<open>The forms of a provider: a class under its own name, and the four custom ones.\<close>

datatype provider =
    Class class_decl
  | UseClass token class_decl
  | UseExisting token token
  | UseValue token
  | UseFactory token "token list"

text \<open>A controller has the guards \<open>@UseGuards\<close> names on it or on one of its routes.\<close>

record controller =
  ct_class :: class_decl
  ct_guards :: "class_decl list"

record module_decl =
  m_imports :: "nest_module list"
  m_providers :: "provider list"
  m_controllers :: "controller list"
  m_exports :: "token list"
  m_global :: bool

section \<open>The classes\<close>

definition AuditRepository_class :: "class_decl" where
  "AuditRepository_class = (''AuditRepository'', [Needs ''DB''])"

definition AuditService_class :: "class_decl" where
  "AuditService_class = (''AuditService'', [Needs ''AUDIT_CONFIG'', Needs ''AuditRepository'', Needs ''TypedEvents''])"

definition AuthService_class :: "class_decl" where
  "AuthService_class = (''AuthService'', [Needs ''AUTH_CONFIG''])"

definition JwtAuthGuard_class :: "class_decl" where
  "JwtAuthGuard_class = (''JwtAuthGuard'', [Needs ''Reflector'', Needs ''AuthService'', Needs ''TypedEvents''])"

definition RolesGuard_class :: "class_decl" where
  "RolesGuard_class = (''RolesGuard'', [Needs ''Reflector''])"

definition DbService_class :: "class_decl" where
  "DbService_class = (''DbService'', [Needs ''SERVER_CONFIG''])"

definition FingerprintStore_class :: "class_decl" where
  "FingerprintStore_class = (''FingerprintStore'', [Needs ''TypedEvents''])"

definition Ja4hMiddleware_class :: "class_decl" where
  "Ja4hMiddleware_class = (''Ja4hMiddleware'', [Needs ''FingerprintStore''])"

definition GatewayMiddleware_class :: "class_decl" where
  "GatewayMiddleware_class = (''GatewayMiddleware'', [Needs ''PipelineOrchestrator'', Needs ''TypedEvents'', Needs ''MetricsService''])"

definition StageLoggerDecorator_class :: "class_decl" where
  "StageLoggerDecorator_class = (''StageLoggerDecorator'', [Needs ''StageDetailRegistry''])"

definition PipelineOrchestrator_class :: "class_decl" where
  "PipelineOrchestrator_class = (''PipelineOrchestrator'', [Needs ''PIPELINE_STAGES'', Needs ''MetricsService''])"

definition AuditAllowStage_class :: "class_decl" where
  "AuditAllowStage_class = (''AuditAllowStage'', [Needs ''AuditService'', Needs ''MetricsService''])"

definition AuthOnlyShortCircuitStage_class :: "class_decl" where
  "AuthOnlyShortCircuitStage_class = (''AuthOnlyShortCircuitStage'', [Needs ''AuditService'', Needs ''MetricsService''])"

definition AuthStage_class :: "class_decl" where
  "AuthStage_class = (''AuthStage'', [Needs ''AuthService'', Needs ''AuditService'', Needs ''MetricsService'', Needs ''TypedEvents''])"

definition BoplaStripStage_class :: "class_decl" where
  "BoplaStripStage_class = (''BoplaStripStage'', [Needs ''BoPlaInterceptor''])"

definition HashcashStage_class :: "class_decl" where
  "HashcashStage_class = (''HashcashStage'', [Needs ''HashcashService'', Needs ''HASHCASH_CONFIG''])"

definition MfaPromotionStage_class :: "class_decl" where
  "MfaPromotionStage_class = (''MfaPromotionStage'', [Needs ''MfaChallenger'', Needs ''AuditService'', Needs ''MetricsService''])"

definition PolicyStage_class :: "class_decl" where
  "PolicyStage_class = (''PolicyStage'', [Needs ''PolicyEvaluatorService''])"

definition ProxyStage_class :: "class_decl" where
  "ProxyStage_class = (''ProxyStage'', [Needs ''ProxyService''])"

definition RecordTrustContextStage_class :: "class_decl" where
  "RecordTrustContextStage_class = (''RecordTrustContextStage'', [Needs ''TrustScoreService''])"

definition RevocationStage_class :: "class_decl" where
  "RevocationStage_class = (''RevocationStage'', [Needs ''TokenRevocationService'', Needs ''AuditService'', Needs ''MetricsService''])"

definition TrustScoreStage_class :: "class_decl" where
  "TrustScoreStage_class = (''TrustScoreStage'', [Needs ''TrustScoreService'', Needs ''DemoModeService''])"

definition HashcashService_class :: "class_decl" where
  "HashcashService_class = (''HashcashService'', [Needs ''HASHCASH_CONFIG'', Needs ''UsedNonceStore'', Needs ''HashcashMetrics''])"

definition MetricsService_class :: "class_decl" where
  "MetricsService_class = (''MetricsService'', [Needs ''SecurityMetricsService'', Needs ''HashcashMetrics'', Needs ''PolicyMetrics''])"

definition PendingEnrollmentStore_class :: "class_decl" where
  "PendingEnrollmentStore_class = (''PendingEnrollmentStore'', [Needs ''MFA_CONFIG''])"

definition MfaChallenger_class :: "class_decl" where
  "MfaChallenger_class =
     (''MfaChallenger'', [Needs ''MFA_CONFIG'', Needs ''MfaChallengeRepository'', Needs ''MfaTokenRepository'', Needs
      ''UserSecretsRepository'', Needs ''TypedEvents'', Needs ''MfaErrorRecorder''])"

definition MfaEnroller_class :: "class_decl" where
  "MfaEnroller_class =
     (''MfaEnroller'', [Needs ''MFA_CONFIG'', Needs ''UserSecretsRepository'', Needs ''PendingEnrollmentStore'', Needs
      ''TypedEvents'', Needs ''MfaErrorRecorder''])"

definition MfaErrorRecorder_class :: "class_decl" where
  "MfaErrorRecorder_class = (''MfaErrorRecorder'', [Needs ''TypedEvents''])"

definition MfaChallengeRepository_class :: "class_decl" where
  "MfaChallengeRepository_class = (''MfaChallengeRepository'', [Needs ''DB''])"

definition MfaTokenRepository_class :: "class_decl" where
  "MfaTokenRepository_class = (''MfaTokenRepository'', [Needs ''DB''])"

definition UserSecretsRepository_class :: "class_decl" where
  "UserSecretsRepository_class = (''UserSecretsRepository'', [Needs ''DB''])"

definition PolicyEvaluatorService_class :: "class_decl" where
  "PolicyEvaluatorService_class =
     (''PolicyEvaluatorService'', [Needs ''POLICY_CONFIG'', Needs ''ThreatEscalationService'', Needs ''TrustScoreService'',
      Needs ''PolicyMetrics'', Needs ''TypedEvents''])"

definition ThreatEscalationService_class :: "class_decl" where
  "ThreatEscalationService_class =
     (''ThreatEscalationService'', [Needs ''POLICY_CONFIG'', Needs ''PolicyMetrics'', Optionally ''THREAT_CLOCK''])"

definition BoPlaInterceptor_class :: "class_decl" where
  "BoPlaInterceptor_class = (''BoPlaInterceptor'', [Needs ''PROXY_CONFIG''])"

definition ProxyService_class :: "class_decl" where
  "ProxyService_class =
     (''ProxyService'', [Needs ''PROXY_CONFIG'', Needs ''ServiceRegistryService'', Needs ''DnsRebindingGuard'', Needs
      ''MtlsService''])"

definition ServiceRegistryService_class :: "class_decl" where
  "ServiceRegistryService_class = (''ServiceRegistryService'', [Needs ''PROXY_CONFIG''])"

definition CertMonitorService_class :: "class_decl" where
  "CertMonitorService_class = (''CertMonitorService'', [Needs ''MtlsService'', Needs ''MTLS_CONFIG''])"

definition DemoModeService_class :: "class_decl" where
  "DemoModeService_class = (''DemoModeService'', [Needs ''ConfigService''])"

definition MtlsService_class :: "class_decl" where
  "MtlsService_class = (''MtlsService'', [Needs ''MTLS_CONFIG''])"

definition TypedEvents_class :: "class_decl" where
  "TypedEvents_class = (''TypedEvents'', [Needs ''EventEmitter2''])"

definition BehaviorAnomalyProvider_class :: "class_decl" where
  "BehaviorAnomalyProvider_class = (''BehaviorAnomalyProvider'', [Needs ''TrustTelemetryRepository'', Needs ''TRUST_CONFIG''])"

definition Ja4hDriftProvider_class :: "class_decl" where
  "Ja4hDriftProvider_class = (''Ja4hDriftProvider'', [Needs ''TrustTelemetryRepository'', Needs ''TypedEvents''])"

definition TrustDecayProvider_class :: "class_decl" where
  "TrustDecayProvider_class = (''TrustDecayProvider'', [Needs ''TrustTelemetryRepository'', Needs ''TRUST_CONFIG''])"

definition TrustScoreService_class :: "class_decl" where
  "TrustScoreService_class =
     (''TrustScoreService'', [Needs ''FingerprintStore'', Needs ''TrustTelemetryRepository'', Needs ''TRUST_CONFIG'', Needs
      ''SIGNAL_RULES_TOKEN'', Needs ''Ja4hDriftProvider'', Needs ''TrustDecayProvider'', Needs ''BehaviorAnomalyProvider'',
      Needs ''TypedEvents''])"

definition TrustTelemetryRepository_class :: "class_decl" where
  "TrustTelemetryRepository_class = (''TrustTelemetryRepository'', [Needs ''DB''])"

definition TokenRevocationService_class :: "class_decl" where
  "TokenRevocationService_class = (''TokenRevocationService'', [])"

definition HashcashMetrics_class :: "class_decl" where
  "HashcashMetrics_class = (''HashcashMetrics'', [])"

definition PolicyMetrics_class :: "class_decl" where
  "PolicyMetrics_class = (''PolicyMetrics'', [])"

definition SecurityMetricsService_class :: "class_decl" where
  "SecurityMetricsService_class = (''SecurityMetricsService'', [])"

definition DnsRebindingGuard_class :: "class_decl" where
  "DnsRebindingGuard_class = (''DnsRebindingGuard'', [])"

definition PublicBypassStage_class :: "class_decl" where
  "PublicBypassStage_class = (''PublicBypassStage'', [])"

definition HoneypotBypassStage_class :: "class_decl" where
  "HoneypotBypassStage_class = (''HoneypotBypassStage'', [])"

definition StageDetailRegistry_class :: "class_decl" where
  "StageDetailRegistry_class = (''StageDetailRegistry'', [])"

definition AuditController_class :: "controller" where
  "AuditController_class = \<lparr>ct_class = (''AuditController'', [Needs ''AuditService'']), ct_guards = []\<rparr>"

definition AuthController_class :: "controller" where
  "AuthController_class =
     \<lparr>ct_class = (''AuthController'', [Needs ''TokenRevocationService'', Needs ''TypedEvents'']), ct_guards =
      [JwtAuthGuard_class]\<rparr>"

definition DemoMfaController_class :: "controller" where
  "DemoMfaController_class =
     \<lparr>ct_class = (''DemoMfaController'', [Needs ''MfaChallenger'']), ct_guards = [JwtAuthGuard_class]\<rparr>"

definition ShadowController_class :: "controller" where
  "ShadowController_class =
     \<lparr>ct_class = (''ShadowController'', [Needs ''FingerprintStore'', Needs ''SecurityMetricsService'', Needs
      ''SERVER_CONFIG'', Needs ''TypedEvents'', Needs ''AuditService'', Needs ''DemoModeService'']), ct_guards = []\<rparr>"

definition MetricsController_class :: "controller" where
  "MetricsController_class = \<lparr>ct_class = (''MetricsController'', [Needs ''MetricsService'']), ct_guards = []\<rparr>"

definition MfaController_class :: "controller" where
  "MfaController_class =
     \<lparr>ct_class = (''MfaController'', [Needs ''MfaChallenger'', Needs ''MfaEnroller'', Needs ''MFA_CONFIG'']), ct_guards =
      [JwtAuthGuard_class]\<rparr>"

definition PolicyAdminController_class :: "controller" where
  "PolicyAdminController_class =
     \<lparr>ct_class = (''PolicyAdminController'', [Needs ''PolicyEvaluatorService'', Needs ''ThreatEscalationService'']),
      ct_guards = []\<rparr>"

definition HealthController_class :: "controller" where
  "HealthController_class = \<lparr>ct_class = (''HealthController'', []), ct_guards = []\<rparr>"

section \<open>The modules\<close>

definition slice_tokens :: "token list" where
  "slice_tokens = [''AUTH_CONFIG'', ''MTLS_CONFIG'', ''HASHCASH_CONFIG'', ''TRUST_CONFIG'', ''POLICY_CONFIG'', ''MFA_CONFIG'', ''PROXY_CONFIG'', ''AUDIT_CONFIG'', ''SERVER_CONFIG'']"

definition ConfigAppModule_decl :: module_decl where
  "ConfigAppModule_decl = \<lparr>m_imports = [ConfigModule], m_providers = map (\<lambda>t. UseFactory t [''ConfigService'']) slice_tokens,
     m_controllers = [], m_exports = slice_tokens, m_global = False\<rparr>"

definition DbModule_decl :: module_decl where
  "DbModule_decl = \<lparr>m_imports = [ConfigAppModule], m_providers = [Class DbService_class, UseExisting ''DB'' ''DbService''],
     m_controllers = [], m_exports = [''DB'', ''DbService''], m_global = True\<rparr>"

definition AuthModule_decl :: module_decl where
  "AuthModule_decl = \<lparr>m_imports = [ConfigAppModule, EventEmitterModule, SharedModule],
     m_providers = [Class AuthService_class, Class TokenRevocationService_class, Class JwtAuthGuard_class, UseClass ''APP_GUARD'' RolesGuard_class],
     m_controllers = [AuthController_class], m_exports = [''AuthService'', ''TokenRevocationService'', ''JwtAuthGuard''], m_global = False\<rparr>"

definition SharedModule_decl :: module_decl where
  "SharedModule_decl = \<lparr>m_imports = [ConfigAppModule, EventEmitterModule],
     m_providers = [Class MtlsService_class, Class CertMonitorService_class, Class TypedEvents_class],
     m_controllers = [HealthController_class], m_exports = [''MtlsService'', ''TypedEvents''], m_global = False\<rparr>"

definition DemoModeModule_decl :: module_decl where
  "DemoModeModule_decl = \<lparr>m_imports = [ConfigAppModule], m_providers = [Class DemoModeService_class],
     m_controllers = [], m_exports = [''DemoModeService''], m_global = False\<rparr>"

definition FingerprintModule_decl :: module_decl where
  "FingerprintModule_decl = \<lparr>m_imports = [SharedModule], m_providers = [Class FingerprintStore_class, Class Ja4hMiddleware_class],
     m_controllers = [], m_exports = [''FingerprintStore'', ''Ja4hMiddleware''], m_global = False\<rparr>"

definition TrustScoreModule_decl :: module_decl where
  "TrustScoreModule_decl = \<lparr>m_imports = [ConfigAppModule, FingerprintModule, SharedModule],
     m_providers = [Class TrustTelemetryRepository_class, Class Ja4hDriftProvider_class, Class TrustDecayProvider_class, Class BehaviorAnomalyProvider_class,
       UseValue ''SIGNAL_RULES_TOKEN'', Class TrustScoreService_class],
     m_controllers = [], m_exports = [''TrustScoreService'', ''TrustTelemetryRepository''], m_global = False\<rparr>"

definition HashcashModule_decl :: module_decl where
  "HashcashModule_decl = \<lparr>m_imports = [ConfigAppModule, TrustScoreModule],
     m_providers = [Class HashcashService_class, Class HashcashMetrics_class, UseFactory ''UsedNonceStore'' [''HASHCASH_CONFIG'']],
     m_controllers = [], m_exports = [''HashcashService'', ''HashcashMetrics''], m_global = False\<rparr>"

definition PolicyModule_decl :: module_decl where
  "PolicyModule_decl = \<lparr>m_imports = [ConfigAppModule, AuthModule, TrustScoreModule, SharedModule],
     m_providers = [Class PolicyEvaluatorService_class, Class ThreatEscalationService_class, Class PolicyMetrics_class],
     m_controllers = [PolicyAdminController_class], m_exports = [''PolicyEvaluatorService'', ''ThreatEscalationService'', ''PolicyMetrics''], m_global = False\<rparr>"

definition MfaModule_decl :: module_decl where
  "MfaModule_decl = \<lparr>m_imports = [ConfigAppModule, AuthModule, SharedModule],
     m_providers = [Class MfaChallenger_class, Class MfaEnroller_class, Class MfaErrorRecorder_class, Class MfaChallengeRepository_class, Class MfaTokenRepository_class,
       Class UserSecretsRepository_class, Class PendingEnrollmentStore_class],
     m_controllers = [MfaController_class], m_exports = [''MfaChallenger'', ''MfaEnroller''], m_global = False\<rparr>"

text \<open>\<open>active\<close> is whether \<open>process.env.DEMO_MODE\<close> is \<open>'true'\<close> when the module is declared.\<close>

definition DemoMfaModule_decl :: "bool \<Rightarrow> module_decl" where
  "DemoMfaModule_decl active = \<lparr>m_imports = [AuthModule, MfaModule, SharedModule], m_providers = [],
     m_controllers = (if active then [DemoMfaController_class] else []), m_exports = [], m_global = False\<rparr>"

definition ProxyModule_decl :: module_decl where
  "ProxyModule_decl = \<lparr>m_imports = [ConfigAppModule, SharedModule],
     m_providers = [Class ProxyService_class, Class ServiceRegistryService_class, Class DnsRebindingGuard_class, Class BoPlaInterceptor_class],
     m_controllers = [], m_exports = [''ProxyService'', ''BoPlaInterceptor''], m_global = False\<rparr>"

definition MetricsModule_decl :: module_decl where
  "MetricsModule_decl = \<lparr>m_imports = [ConfigAppModule, HoneypotModule, HashcashModule, PolicyModule, EventEmitterModule],
     m_providers = [Class MetricsService_class], m_controllers = [MetricsController_class], m_exports = [''MetricsService''], m_global = False\<rparr>"

definition AuditModule_decl :: module_decl where
  "AuditModule_decl = \<lparr>m_imports = [ConfigAppModule, AuthModule, EventEmitterModule, SharedModule],
     m_providers = [Class AuditService_class, Class AuditRepository_class], m_controllers = [AuditController_class], m_exports = [''AuditService''], m_global = False\<rparr>"

definition HoneypotModule_decl :: module_decl where
  "HoneypotModule_decl = \<lparr>m_imports = [FingerprintModule, ConfigAppModule, EventEmitterModule, SharedModule, AuditModule, DemoModeModule],
     m_providers = [Class SecurityMetricsService_class], m_controllers = [ShadowController_class], m_exports = [''SecurityMetricsService''], m_global = False\<rparr>"

text \<open>The injection list of the stage factory: the stages in the order of execution, then what wraps them.\<close>

definition stage_inject :: "token list" where
  "stage_inject = [''PublicBypassStage'', ''HoneypotBypassStage'', ''AuthStage'', ''RevocationStage'', ''AuthOnlyShortCircuitStage'', ''TrustScoreStage'', ''HashcashStage'',
     ''PolicyStage'', ''MfaPromotionStage'', ''AuditAllowStage'', ''ProxyStage'', ''BoplaStripStage'', ''RecordTrustContextStage'',
     ''StageDetailRegistry'', ''StageLoggerDecorator'']"

definition GatewayModule_decl :: module_decl where
  "GatewayModule_decl = \<lparr>m_imports = [ConfigAppModule, SharedModule, AuthModule, TrustScoreModule, HashcashModule, PolicyModule, MfaModule,
       ProxyModule, AuditModule, MetricsModule, FingerprintModule, DemoModeModule],
     m_providers = [Class GatewayMiddleware_class, Class PipelineOrchestrator_class, Class PublicBypassStage_class, Class HoneypotBypassStage_class, Class AuthStage_class,
       Class RevocationStage_class, Class AuthOnlyShortCircuitStage_class, Class TrustScoreStage_class, Class HashcashStage_class, Class PolicyStage_class,
       Class MfaPromotionStage_class, Class AuditAllowStage_class, Class ProxyStage_class, Class BoplaStripStage_class, Class RecordTrustContextStage_class,
       Class StageDetailRegistry_class, Class StageLoggerDecorator_class, UseFactory ''PIPELINE_STAGES'' stage_inject],
     m_controllers = [], m_exports = [''GatewayMiddleware'', ''PipelineOrchestrator''], m_global = False\<rparr>"

definition AppModule_decl :: module_decl where
  "AppModule_decl = \<lparr>m_imports = [ConfigAppModule, DbModule, EventEmitterModule, AuthModule, SharedModule, FingerprintModule, TrustScoreModule,
       HashcashModule, PolicyModule, MfaModule, DemoMfaModule, ProxyModule, MetricsModule, AuditModule, GatewayModule, HoneypotModule],
     m_providers = [], m_controllers = [], m_exports = [], m_global = False\<rparr>"

text \<open>The middleware classes \<open>AppModule.configure\<close> applies; the container builds them in that module.\<close>

definition app_middleware :: "class_decl list" where
  "app_middleware = [Ja4hMiddleware_class, GatewayMiddleware_class]"

text \<open>
  The two library modules, as far as they are documented: with \<open>isGlobal: true\<close> the configuration service is exported to
  every module, and \<open>EventEmitterModule.forRoot()\<close> registers the emitter globally.
\<close>

definition ConfigModule_decl :: module_decl where
  "ConfigModule_decl = \<lparr>m_imports = [], m_providers = [UseValue ''ConfigService''], m_controllers = [], m_exports = [''ConfigService''], m_global = True\<rparr>"

definition EventEmitterModule_decl :: module_decl where
  "EventEmitterModule_decl = \<lparr>m_imports = [], m_providers = [UseValue ''EventEmitter2''], m_controllers = [], m_exports = [''EventEmitter2''], m_global = True\<rparr>"

fun decl :: "bool \<Rightarrow> nest_module \<Rightarrow> module_decl" where
  "decl active ConfigModule = ConfigModule_decl"
| "decl active EventEmitterModule = EventEmitterModule_decl"
| "decl active ConfigAppModule = ConfigAppModule_decl"
| "decl active DbModule = DbModule_decl"
| "decl active AuthModule = AuthModule_decl"
| "decl active SharedModule = SharedModule_decl"
| "decl active DemoModeModule = DemoModeModule_decl"
| "decl active FingerprintModule = FingerprintModule_decl"
| "decl active TrustScoreModule = TrustScoreModule_decl"
| "decl active HashcashModule = HashcashModule_decl"
| "decl active PolicyModule = PolicyModule_decl"
| "decl active MfaModule = MfaModule_decl"
| "decl active DemoMfaModule = DemoMfaModule_decl active"
| "decl active ProxyModule = ProxyModule_decl"
| "decl active MetricsModule = MetricsModule_decl"
| "decl active AuditModule = AuditModule_decl"
| "decl active GatewayModule = GatewayModule_decl"
| "decl active HoneypotModule = HoneypotModule_decl"
| "decl active AppModule = AppModule_decl"

definition all_modules :: "nest_module list" where
  "all_modules = [ConfigModule, EventEmitterModule, ConfigAppModule, DbModule, SharedModule, DemoModeModule, AuthModule, FingerprintModule,
     TrustScoreModule, HashcashModule, PolicyModule, MfaModule, DemoMfaModule, ProxyModule, AuditModule, HoneypotModule, MetricsModule,
     GatewayModule, AppModule]"

section \<open>What a module hosts and sees\<close>

fun provided :: "provider \<Rightarrow> token" where
  "provided (Class c) = fst c"
| "provided (UseClass t c) = t"
| "provided (UseExisting t e) = t"
| "provided (UseValue t) = t"
| "provided (UseFactory t ts) = t"

fun provider_deps :: "provider \<Rightarrow> dep list" where
  "provider_deps (Class c) = snd c"
| "provider_deps (UseClass t c) = snd c"
| "provider_deps (UseExisting t e) = [Needs e]"
| "provider_deps (UseValue t) = []"
| "provider_deps (UseFactory t ts) = map Needs ts"

text \<open>Everything the container builds in a module, with its parameters: providers, controllers, their guards, and the middleware of the root.\<close>

definition hosted :: "bool \<Rightarrow> nest_module \<Rightarrow> class_decl list" where
  "hosted active m =
     map (\<lambda>p. (provided p, provider_deps p)) (m_providers (decl active m))
     @ map ct_class (m_controllers (decl active m)) @ concat (map ct_guards (m_controllers (decl active m)))
     @ (if m = AppModule then app_middleware else [])"

text \<open>What the framework itself makes available everywhere.\<close>

definition framework_tokens :: "token list" where
  "framework_tokens = [''Reflector'']"

definition visible :: "bool \<Rightarrow> nest_module \<Rightarrow> token \<Rightarrow> bool" where
  "visible active m t \<longleftrightarrow>
     t \<in> set (map provided (m_providers (decl active m)))
   \<or> list_ex (\<lambda>n. t \<in> set (m_exports (decl active n))) (m_imports (decl active m))
   \<or> list_ex (\<lambda>n. m_global (decl active n) \<and> t \<in> set (m_exports (decl active n))) all_modules
   \<or> t \<in> set framework_tokens"

section \<open>The rules of the container\<close>

text \<open>
  A container for the declarations: a module sees what it provides, what the modules it imports export, what global modules export, and what the
  framework itself provides.
\<close>

locale container =
  fixes active :: bool and resolves :: "nest_module \<Rightarrow> token \<Rightarrow> bool"
  assumes own: "p \<in> set (m_providers (decl active m)) \<Longrightarrow> resolves m (provided p)"
    and imported: "n \<in> set (m_imports (decl active m)) \<Longrightarrow> t \<in> set (m_exports (decl active n)) \<Longrightarrow> resolves m t"
    and everywhere: "m_global (decl active n) \<Longrightarrow> t \<in> set (m_exports (decl active n)) \<Longrightarrow> resolves m t"
    and framework: "t \<in> set framework_tokens \<Longrightarrow> resolves m t"
begin

lemma visible_resolves: "visible active m t \<Longrightarrow> resolves m t"
  using own imported everywhere framework by (fastforce simp: visible_def list_ex_iff)

end

lemma all_modules_complete [simp]: "m \<in> set all_modules"
  by (cases m) (simp_all add: all_modules_def)

interpretation scope: container active "visible active"
  by unfold_locales (auto simp: visible_def list_ex_iff)

section \<open>Dependencies\<close>

text \<open>The tokens a component cannot do without.\<close>

definition required :: "dep list \<Rightarrow> token list" where
  "required ds = concat (map (\<lambda>d. case d of Needs t \<Rightarrow> [t] | Optionally t \<Rightarrow> []) ds)"

text \<open>The modules an injected token can come from: the module itself, an imported one, or a global one.\<close>

definition supplier :: "bool \<Rightarrow> nest_module \<Rightarrow> token \<Rightarrow> nest_module \<Rightarrow> bool" where
  "supplier active m d n \<longleftrightarrow>
     n = m \<and> d \<in> set (map provided (m_providers (decl active m)))
   \<or> (n \<in> set (m_imports (decl active m)) \<or> m_global (decl active n)) \<and> d \<in> set (m_exports (decl active n))"

text \<open>An instance lives in the module that hosts it; it waits for the instances its required parameters come from.\<close>

definition waits_for :: "bool \<Rightarrow> ((nest_module \<times> token) \<times> (nest_module \<times> token)) set" where
  "waits_for active =
     {((n, d), (m, t)). \<exists>ds. (t, ds) \<in> set (hosted active m) \<and> d \<in> set (required ds) \<and> supplier active m d n}"

definition import_of :: "bool \<Rightarrow> (nest_module \<times> nest_module) set" where
  "import_of active = {(n, m). n \<in> set (m_imports (decl active m))}"

text \<open>
  A rank for instances: the modules are listed with the imported ones first, and inside a module a component is as deep as the longest chain of
  its parameters there.
\<close>

definition depth :: "token \<Rightarrow> nat" where
  "depth t =
     (if t = ''GatewayMiddleware'' then 4
      else if t \<in> set [''PipelineOrchestrator'', ''PolicyAdminController''] then 3
      else if t \<in> set [''AuditController'', ''MfaController'', ''PIPELINE_STAGES'', ''PolicyEvaluatorService'', ''TrustScoreService''] then 2
      else if t \<in> set [''AuditService'', ''AuthController'', ''BehaviorAnomalyProvider'', ''CertMonitorService'', ''DB'', ''HashcashService'',
         ''Ja4hDriftProvider'', ''Ja4hMiddleware'', ''JwtAuthGuard'', ''MetricsController'', ''MfaChallenger'', ''MfaEnroller'', ''ProxyService'',
         ''ShadowController'', ''StageLoggerDecorator'', ''ThreatEscalationService'', ''TrustDecayProvider''] then 1
      else 0)"

definition position :: "'a list \<Rightarrow> 'a \<Rightarrow> nat" where
  "position xs x = length (takeWhile (\<lambda>y. y \<noteq> x) xs)"

text \<open>A relation along which a rank decreases has no cycle and no infinite descent.\<close>

locale ranked =
  fixes R :: "('a \<times> 'a) set" and rank :: "'a \<Rightarrow> nat"
  assumes lower: "(x, y) \<in> R \<Longrightarrow> rank x < rank y"
begin

lemma well_founded: "wf R"
  by (rule wf_subset [OF wf_measure [of rank]]) (auto dest: lower)

lemma cycle_free: "(x, x) \<notin> R\<^sup>+"
  using wf_acyclic [OF well_founded] by (simp add: acyclic_def)

end

lemma imports_listed_first:
  "\<forall>active. list_all (\<lambda>m. list_all (\<lambda>n. position all_modules n < position all_modules m) (m_imports (decl active m))) all_modules"
  by code_simp

definition instance_rank :: "nest_module \<times> token \<Rightarrow> nat" where
  "instance_rank i = 5 * position all_modules (fst i) + depth (snd i)"

lemma depth_le: "depth t \<le> 4"
  by (simp add: depth_def)

lemma suppliers_deeper:
  "\<forall>active. list_all (\<lambda>m. list_all (\<lambda>(t, ds). list_all (\<lambda>d. d \<in> set (map provided (m_providers (decl active m))) \<longrightarrow> depth d < depth t)
     (required ds)) (hosted active m)) all_modules"
  by code_simp

lemma globals_listed_first:
  "\<forall>active. list_all (\<lambda>m. list_all (\<lambda>(t, ds). list_all (\<lambda>d. list_all (\<lambda>n.
     m_global (decl active n) \<longrightarrow> d \<in> set (m_exports (decl active n)) \<longrightarrow> n = m \<or> position all_modules n < position all_modules m)
     all_modules) (required ds)) (hosted active m)) all_modules"
  by code_simp

text \<open>A module exports only what it provides; the framework refuses anything else.\<close>

lemma exports_provided:
  "\<forall>active. list_all (\<lambda>m. list_all (\<lambda>t. t \<in> set (map provided (m_providers (decl active m)))) (m_exports (decl active m))) all_modules"
  by code_simp

lemma exported_is_provided: "t \<in> set (m_exports (decl active m)) \<Longrightarrow> t \<in> set (map provided (m_providers (decl active m)))"
  using exports_provided by (fastforce simp: list_all_iff)

lemma waits_for_ranked:
  assumes "(i, j) \<in> waits_for active"
  shows "instance_rank i < instance_rank j"
proof -
  obtain n d m t ds where ij: "i = (n, d)" "j = (m, t)" and h: "(t, ds) \<in> set (hosted active m)" and r: "d \<in> set (required ds)"
    and s: "supplier active m d n"
    using assms by (auto simp: waits_for_def)
  have own: "depth d < depth t" if "d \<in> set (map provided (m_providers (decl active m)))"
    using that h r suppliers_deeper by (fastforce simp: list_all_iff)
  have lower: "position all_modules n < position all_modules m" if "n \<in> set (m_imports (decl active m))"
    using that imports_listed_first by (fastforce simp: list_all_iff)
  have global: "n = m \<or> position all_modules n < position all_modules m" if "m_global (decl active n)" "d \<in> set (m_exports (decl active n))"
    using that h r globals_listed_first by (fastforce simp: list_all_iff)
  show ?thesis
    using s own lower global exported_is_provided [of d active m] depth_le [of d] unfolding supplier_def ij instance_rank_def
    by (cases "n = m") (fastforce)+
qed

interpretation modules: ranked "import_of active" "position all_modules"
  using imports_listed_first by unfold_locales (auto simp: import_of_def list_all_iff)

interpretation components: ranked "waits_for active" instance_rank
  by unfold_locales (rule waits_for_ranked)

section \<open>Lemmas\<close>

lemma parameters_visible:
  "\<forall>active. list_all (\<lambda>m. list_all (\<lambda>(t, ds). list_all (visible active m) (required ds)) (hosted active m)) all_modules"
  by code_simp

definition provided_tokens :: "bool \<Rightarrow> token list" where
  "provided_tokens active = concat (map (\<lambda>m. map provided (m_providers (decl active m))) all_modules)"

lemma providers_distinct: "\<forall>active. distinct (provided_tokens active)"
  by code_simp

text \<open>The factory gets the stages in the order in which the model of the pipeline runs them.\<close>

lemma stages_in_order:
  "zip (take 13 stage_inject) (map fst PIPELINE_STAGES) =
     [(''PublicBypassStage'', ''public_bypass''), (''HoneypotBypassStage'', ''honeypot_bypass''), (''AuthStage'', ''auth''),
      (''RevocationStage'', ''revocation''), (''AuthOnlyShortCircuitStage'', ''auth_only''), (''TrustScoreStage'', ''trust_score''),
      (''HashcashStage'', ''hashcash''), (''PolicyStage'', ''policy''), (''MfaPromotionStage'', ''mfa_promotion''),
      (''AuditAllowStage'', ''audit_allow''), (''ProxyStage'', ''proxy''), (''BoplaStripStage'', ''bopla_strip''),
      (''RecordTrustContextStage'', ''record_trust_context'')]"
  by (simp add: stage_inject_def PIPELINE_STAGES_def)

text \<open>
  What the modules keep to themselves: the repositories, the replay store, the pending enrolments and the registry of services are seen by
  their own module only.
\<close>

definition private_tokens :: "(token \<times> nest_module) list" where
  "private_tokens = [(''AuditRepository'', AuditModule), (''UsedNonceStore'', HashcashModule), (''MfaChallengeRepository'', MfaModule),
     (''MfaTokenRepository'', MfaModule), (''UserSecretsRepository'', MfaModule), (''PendingEnrollmentStore'', MfaModule),
     (''ServiceRegistryService'', ProxyModule), (''DnsRebindingGuard'', ProxyModule), (''CertMonitorService'', SharedModule),
     (''PIPELINE_STAGES'', GatewayModule)]"

lemma private_table: "\<forall>active. list_all (\<lambda>(t, h). list_all (\<lambda>m. visible active m t \<longleftrightarrow> m = h) all_modules) private_tokens"
  by code_simp

lemma private_tokens_private: "(t, h) \<in> set private_tokens \<Longrightarrow> visible active m t \<longleftrightarrow> m = h"
  using private_table by (fastforce simp: list_all_iff)

text \<open>
  The gateway module reaches the honeypot module through the metrics module, which lists it; so the honeypot module is not the last to be
  reached from the root, where it stands at the end.
\<close>

lemma gateway_reaches_honeypot: "(HoneypotModule, GatewayModule) \<in> (import_of active)\<^sup>+"
proof -
  have "(HoneypotModule, MetricsModule) \<in> import_of active" "(MetricsModule, GatewayModule) \<in> import_of active"
    by (simp_all add: import_of_def MetricsModule_decl_def GatewayModule_decl_def)
  then show ?thesis by (meson trancl.intros)
qed

text \<open>Without the shared module the demonstration endpoint could not be built: its guard needs the event bus.\<close>

lemma demo_guard_needs_shared:
  "visible active DemoMfaModule ''TypedEvents''"
  "n \<in> set (m_imports (DemoMfaModule_decl active)) \<Longrightarrow> ''TypedEvents'' \<in> set (m_exports (decl active n)) \<Longrightarrow> n = SharedModule"
  by (auto simp: visible_def DemoMfaModule_decl_def SharedModule_decl_def AuthModule_decl_def MfaModule_decl_def)

text \<open>
  The event bus that every emitter gets: four of the ten signals have no listener in any module, so that emitting one of them
  changes neither the threat level nor a counter.
\<close>

lemma unheard_signals:
  assumes "n \<in> {MFA_ENROLLMENT_RESET, MFA_ENROLLMENT_CONFIRMED, MFA_INFRA_ERROR, MFA_SECRET_DECRYPT_FAILED}"
  shows "gw_emit P now [Signal n p] g = g"
  using assms by (auto simp: gw_emit_def deliver_def)

text \<open>A token is visible exactly when a module can supply it or the framework does.\<close>

lemma visible_supplied: "visible active m t \<longleftrightarrow> (\<exists>n. supplier active m t n) \<or> t \<in> set framework_tokens"
  by (auto simp: visible_def supplier_def list_ex_iff)

section \<open>Properties\<close>

text \<open>
  C11. The wiring is complete, for either setting of the demonstration flag and every container that follows the documented rules of scope: every
  required parameter of every provider, controller, route guard and middleware resolves in the module that hosts it; neither the imports of the
  modules nor the parameters of the components form a cycle, so building them ends; every module exports only what it
  provides; and every token has one provider, so that each of the stores exists once.
\<close>

theorem wiring_complete:
  assumes "container active resolves"
  shows "(\<forall>m t ds d. (t, ds) \<in> set (hosted active m) \<longrightarrow> d \<in> set (required ds) \<longrightarrow> resolves m d)
    \<and> wf (import_of active) \<and> wf (waits_for active)
    \<and> (\<forall>m. set (m_exports (decl active m)) \<subseteq> provided ` set (m_providers (decl active m)))
    \<and> distinct (provided_tokens active)"
proof -
  have "visible active m d" if "(t, ds) \<in> set (hosted active m)" "d \<in> set (required ds)" for m t ds d
    using that parameters_visible by (fastforce simp: list_all_iff)
  moreover have "set (m_exports (decl active m)) \<subseteq> provided ` set (m_providers (decl active m))" for m
    using exported_is_provided by fastforce
  ultimately show ?thesis
    using container.visible_resolves [OF assms] modules.well_founded components.well_founded providers_distinct by blast
qed

theorem wiring_complete_witness:
  "visible True DemoMfaModule ''AuthService'' \<and> visible True AppModule ''PipelineOrchestrator''
    \<and> wf (import_of True) \<and> wf (waits_for True) \<and> distinct (provided_tokens True)"
proof -
  note w = wiring_complete [OF scope.container_axioms, of True]
  have "(''JwtAuthGuard'', snd JwtAuthGuard_class) \<in> set (hosted True DemoMfaModule)"
      "(''GatewayMiddleware'', snd GatewayMiddleware_class) \<in> set (hosted True AppModule)"
    by (simp_all add: hosted_def DemoMfaModule_decl_def DemoMfaController_class_def JwtAuthGuard_class_def app_middleware_def
        GatewayMiddleware_class_def)
  moreover have "''AuthService'' \<in> set (required (snd JwtAuthGuard_class))" "''PipelineOrchestrator'' \<in> set (required (snd GatewayMiddleware_class))"
    by (simp_all add: required_def JwtAuthGuard_class_def GatewayMiddleware_class_def)
  ultimately show ?thesis using w by blast
qed

end
