(* ===== verification/Db_Pool.thy ===== *)
theory Db_Pool
  imports Startup
begin

text \<open>
  The shared connection pool of \<open>src/src/db/db.service.ts\<close>: the constructor that sizes it, \<open>query\<close> and \<open>tx\<close> as concurrent
  calls that wait for a client, and the shutdown. A call is the point it has reached in the code together with the commands it sent and whether each resolved;
  calls interleave at every \<open>await\<close>. The pool itself is a library: \<open>admits n\<close> says whether it hands out a client
  while \<open>n\<close> are in use, that is, handed out to a call that did not send the release yet, and its documented contract (never more clients than its size, and no waiting while one is free) is the
  locale \<open>client_pool\<close>. A connection attempt may also be refused, by the server or because the pool was ended.

  Shown: the clients in use never exceed the size, every call that ended sent one of the listed sequences of commands, with the release
  last once it had a client, which are those of the sequential operation, and no mixture of calls gets stuck.
\<close>

definition pool_size :: "ServerConfig \<Rightarrow> nat" where
  "pool_size cfg = nat (nullish (sv_dbPoolMax cfg) 25)"

text \<open>\<open>pool.query\<close> takes a client, sends the query and gives the client back on both ways out.\<close>

definition db_query :: "(tx_command \<Rightarrow> bool) \<Rightarrow> 'r \<Rightarrow> 'r option \<times> tx_command list" where
  "db_query ok result =
     (if \<not> ok Connect then (None, [Connect]) else (if ok Work then Some result else None, [Connect, Work, Release]))"

datatype db_call = QueryCall | TxCall

definition call_spec :: "db_call \<Rightarrow> (tx_command \<Rightarrow> bool) \<Rightarrow> 'r \<Rightarrow> 'r option \<times> tx_command list" where
  "call_spec k ok result = (case k of QueryCall \<Rightarrow> db_query ok result | TxCall \<Rightarrow> tx ok result)"

section \<open>Calls as sequences of points\<close>

text \<open>
  \<open>At c\<close>: command \<open>c\<close> is awaited. \<open>Leaving b\<close>: in the \<open>finally\<close> block, about to release, to return or to rethrow.
  \<open>Over b\<close>: returned or rejected.
\<close>

datatype point = At tx_command | Leaving bool | is_over: Over bool

fun next_point :: "db_call \<Rightarrow> tx_command \<Rightarrow> bool \<Rightarrow> point" where
  "next_point k Connect b = (if b then At (case k of TxCall \<Rightarrow> Begin | QueryCall \<Rightarrow> Work) else Over False)"
| "next_point k Begin b = At (if b then Work else Rollback)"
| "next_point k Work b = (case k of TxCall \<Rightarrow> At (if b then Commit else Rollback) | QueryCall \<Rightarrow> Leaving b)"
| "next_point k Commit b = (if b then Leaving True else At Rollback)"
| "next_point k Rollback b = Leaving False"
| "next_point k Release b = Over b"

record call_state =
  cl_kind :: db_call
  cl_point :: point
  cl_sent :: "(tx_command \<times> bool) list"

record db_state =
  db_calls :: "call_state list"
  db_ended :: bool

definition new_call :: "db_call \<Rightarrow> call_state" where
  "new_call k = \<lparr>cl_kind = k, cl_point = At Connect, cl_sent = []\<rparr>"

definition settle :: "tx_command \<Rightarrow> bool \<Rightarrow> call_state \<Rightarrow> call_state" where
  "settle c b call = call\<lparr>cl_point := next_point (cl_kind call) c b, cl_sent := cl_sent call @ [(c, b)]\<rparr>"

definition give_back :: "bool \<Rightarrow> call_state \<Rightarrow> call_state" where
  "give_back b call = call\<lparr>cl_point := Over b, cl_sent := cl_sent call @ [(Release, True)]\<rparr>"

text \<open>A call holds a client from the resolved \<open>connect\<close> until it sends the release.\<close>

definition holding :: "call_state \<Rightarrow> bool" where
  "holding call \<longleftrightarrow> (Connect, True) \<in> set (cl_sent call) \<and> Release \<notin> fst ` set (cl_sent call)"

definition in_use :: "db_state \<Rightarrow> nat" where
  "in_use s = length (filter holding (db_calls s))"

abbreviation put_call :: "nat \<Rightarrow> call_state \<Rightarrow> db_state \<Rightarrow> db_state" where
  "put_call i call s \<equiv> s\<lparr>db_calls := (db_calls s)[i := call]\<rparr>"

text \<open>One step of call \<open>i\<close>; the last argument before the states says whether what it awaited resolved.\<close>

inductive call_step :: "(nat \<Rightarrow> bool) \<Rightarrow> nat \<Rightarrow> bool \<Rightarrow> db_state \<Rightarrow> db_state \<Rightarrow> bool" for admits where
  connected: "i < length (db_calls s) \<Longrightarrow> cl_point (db_calls s ! i) = At Connect \<Longrightarrow> admits (in_use s) \<Longrightarrow> \<not> db_ended s
    \<Longrightarrow> call_step admits i True s (put_call i (settle Connect True (db_calls s ! i)) s)"
| refused: "i < length (db_calls s) \<Longrightarrow> cl_point (db_calls s ! i) = At Connect
    \<Longrightarrow> call_step admits i False s (put_call i (settle Connect False (db_calls s ! i)) s)"
| settled: "i < length (db_calls s) \<Longrightarrow> cl_point (db_calls s ! i) = At c \<Longrightarrow> c \<noteq> Connect
    \<Longrightarrow> call_step admits i b s (put_call i (settle c b (db_calls s ! i)) s)"
| released: "i < length (db_calls s) \<Longrightarrow> cl_point (db_calls s ! i) = Leaving b
    \<Longrightarrow> call_step admits i True s (put_call i (give_back b (db_calls s ! i)) s)"

text \<open>The states the service can be in: calls come in at any time, and the shutdown hook may end the pool at any time.\<close>

inductive db_reachable :: "(nat \<Rightarrow> bool) \<Rightarrow> db_state \<Rightarrow> bool" for admits where
  start: "db_reachable admits \<lparr>db_calls = [], db_ended = False\<rparr>"
| arrive: "db_reachable admits s \<Longrightarrow> db_reachable admits (s\<lparr>db_calls := db_calls s @ [new_call k]\<rparr>)"
| step: "db_reachable admits s \<Longrightarrow> call_step admits i b s s' \<Longrightarrow> db_reachable admits s'"
| onModuleDestroy: "db_reachable admits s \<Longrightarrow> db_reachable admits (s\<lparr>db_ended := True\<rparr>)"

locale client_pool =
  fixes cap :: nat and admits :: "nat \<Rightarrow> bool"
  assumes bounded: "admits n \<Longrightarrow> n < cap" and serves: "n < cap \<Longrightarrow> admits n"

section \<open>What is left of a call\<close>

fun left :: "point \<Rightarrow> nat" where
  "left (Over b) = 0"
| "left (Leaving b) = 1"
| "left (At c) = (case c of Connect \<Rightarrow> 6 | Begin \<Rightarrow> 5 | Work \<Rightarrow> 4 | Commit \<Rightarrow> 3 | Rollback \<Rightarrow> 2 | Release \<Rightarrow> 1)"

definition work_left :: "db_state \<Rightarrow> nat" where
  "work_left s = sum_list (map (left \<circ> cl_point) (db_calls s))"

lemma next_point_left: "left (next_point k c b) < left (At c)"
  by (cases c; cases k) auto

section \<open>The invariant of a call\<close>

text \<open>
  What a transaction may have sent after it was connected, when it goes to roll back: up to the first command that failed.
\<close>

definition broken_off :: "(tx_command \<times> bool) list list" where
  "broken_off = [[(Begin, False)], [(Begin, True), (Work, False)], [(Begin, True), (Work, True), (Commit, False)]]"

text \<open>
  What a call that ends with \<open>b\<close> sent, the release left out: a query its one statement, a transaction all of \<open>BEGIN\<close>, work and \<open>COMMIT\<close>
  or else a \<open>ROLLBACK\<close> at the end, whether that one resolves or not.
\<close>

definition served :: "db_call \<Rightarrow> bool \<Rightarrow> (tx_command \<times> bool) list \<Rightarrow> bool" where
  "served k b sent \<longleftrightarrow>
     (case k of
        QueryCall \<Rightarrow> sent = [(Connect, True), (Work, b)]
      | TxCall \<Rightarrow> if b then sent = [(Connect, True), (Begin, True), (Work, True), (Commit, True)]
          else (\<exists>pre r. pre \<in> set broken_off \<and> sent = (Connect, True) # pre @ [(Rollback, r)]))"

definition call_inv :: "call_state \<Rightarrow> bool" where
  "call_inv call \<longleftrightarrow>
     (case cl_point call of
        At c \<Rightarrow> (c, cl_kind call, cl_sent call) \<in>
            {(Connect, cl_kind call, []), (Work, QueryCall, [(Connect, True)]), (Begin, TxCall, [(Connect, True)]),
             (Work, TxCall, [(Connect, True), (Begin, True)]), (Commit, TxCall, [(Connect, True), (Begin, True), (Work, True)])}
          \<or> c = Rollback \<and> cl_kind call = TxCall \<and> (\<exists>pre \<in> set broken_off. cl_sent call = (Connect, True) # pre)
      | Leaving b \<Rightarrow> served (cl_kind call) b (cl_sent call)
      | Over b \<Rightarrow> \<not> b \<and> cl_sent call = [(Connect, False)]
          \<or> (\<exists>sent. served (cl_kind call) b sent \<and> cl_sent call = sent @ [(Release, True)]))"

lemma call_inv_new: "call_inv (new_call k)"
  by (simp add: call_inv_def new_call_def)

lemma call_inv_settle: "call_inv call \<Longrightarrow> cl_point call = At c \<Longrightarrow> call_inv (settle c b call)"
  by (cases c; cases "cl_kind call"; cases b) (auto simp: call_inv_def settle_def served_def broken_off_def)

lemma call_inv_give_back: "call_inv call \<Longrightarrow> cl_point call = Leaving b \<Longrightarrow> call_inv (give_back b call)"
  by (auto simp: call_inv_def give_back_def)

text \<open>So a client is held exactly between the connection and the end of the call.\<close>

lemma served_holding:
  assumes "served k b sent"
  shows "(Connect, True) \<in> set sent" "Release \<notin> fst ` set sent"
  using assms by (auto simp: served_def broken_off_def split: db_call.splits if_splits)

lemma holding_iff:
  assumes "call_inv call"
  shows "holding call \<longleftrightarrow> cl_point call \<noteq> At Connect \<and> \<not> is_over (cl_point call)"
  using assms served_holding by (cases "cl_point call") (auto simp: call_inv_def holding_def broken_off_def)

section \<open>The invariant of the pool\<close>

lemma length_filter_update:
  "i < length xs \<Longrightarrow> length (filter P (xs[i := y])) + (if P (xs ! i) then 1 else 0) = length (filter P xs) + (if P y then 1 else 0)"
proof (induction xs arbitrary: i)
  case (Cons x xs) then show ?case by (cases i) auto
qed simp

lemma holding_settle: "holding (settle c b call) \<Longrightarrow> holding call \<or> c = Connect \<and> b"
  by (auto simp: holding_def settle_def)

lemma not_holding_give_back [simp]: "\<not> holding (give_back b call)"
  by (simp add: holding_def give_back_def)

text \<open>Only a connection that the pool grants takes a client.\<close>

lemma in_use_step:
  assumes "call_step admits i b s s'"
  shows "in_use s' \<le> in_use s \<or> (in_use s' = Suc (in_use s) \<and> admits (in_use s))"
  using assms
proof cases
  case connected
  then show ?thesis using length_filter_update [OF connected(3), of holding "settle Connect True (db_calls s ! i)"]
    by (auto simp: in_use_def split: if_splits)
next
  case refused
  then show ?thesis using length_filter_update [OF refused(3), of holding "settle Connect False (db_calls s ! i)"]
    by (auto simp: in_use_def split: if_splits dest: holding_settle)
next
  case (settled c)
  then show ?thesis using length_filter_update [OF settled(2), of holding "settle c b (db_calls s ! i)"]
    by (auto simp: in_use_def split: if_splits dest: holding_settle)
next
  case (released b)
  then show ?thesis using length_filter_update [OF released(3), of holding "give_back b (db_calls s ! i)"]
    by (auto simp: in_use_def split: if_splits)
qed

lemma calls_inv_step:
  assumes "call_step admits i b s s'" and "list_all call_inv (db_calls s)"
  shows "list_all call_inv (db_calls s')"
  using assms by cases (auto simp: list_all_length nth_list_update intro: call_inv_settle call_inv_give_back)

lemma sum_list_update_less:
  "i < length xs \<Longrightarrow> f y < (f (xs ! i) :: nat) \<Longrightarrow> sum_list (map f (xs[i := y])) < sum_list (map f xs)"
proof (induction xs arbitrary: i)
  case (Cons x xs) then show ?case by (cases i) auto
qed simp

text \<open>Every step of a call shortens what is left to do.\<close>

lemma work_left_step:
  assumes "call_step admits i b s s'"
  shows "work_left s' < work_left s"
proof -
  have less: "work_left (put_call i call s) < work_left s" if "i < length (db_calls s)" "left (cl_point call) < left (cl_point (db_calls s ! i))" for call
    using sum_list_update_less [OF that(1), of "left \<circ> cl_point" call] that(2) by (simp add: work_left_def del: left.simps)
  show ?thesis
    using assms less by cases (simp_all add: settle_def give_back_def next_point_left del: left.simps(3) next_point.simps)
qed

lemma reachable_calls: "db_reachable admits s \<Longrightarrow> list_all call_inv (db_calls s)"
  by (induction rule: db_reachable.induct) (auto simp: call_inv_new intro: calls_inv_step)

context client_pool
begin

lemma reachable_bounded: "db_reachable admits s \<Longrightarrow> in_use s \<le> cap"
proof (induction rule: db_reachable.induct)
  case (step s i b s')
  then show ?case using in_use_step [OF step(2)] bounded by fastforce
qed (auto simp: in_use_def new_call_def holding_def)

text \<open>A call that is not over can go on, or another one holds the client it waits for and can.\<close>

lemma not_stuck:
  assumes "0 < cap" and i: "i < length (db_calls s)" "\<not> is_over (cl_point (db_calls s ! i))"
    and "\<not> db_ended s" and inv: "list_all call_inv (db_calls s)"
  shows "\<exists>j s'. call_step admits j True s s'"
proof (cases "\<exists>j < length (db_calls s). holding (db_calls s ! j)")
  case True
  then obtain j where j: "j < length (db_calls s)" "cl_point (db_calls s ! j) \<noteq> At Connect" "\<not> is_over (cl_point (db_calls s ! j))"
    using inv by (auto simp: list_all_length holding_iff)
  show ?thesis
  proof (cases "cl_point (db_calls s ! j)")
    case (At c) then show ?thesis using j call_step.settled [of j s c admits True] by auto
  next
    case (Leaving b) then show ?thesis using j call_step.released by blast
  next
    case (Over b) then show ?thesis using j by simp
  qed
next
  case False
  then have "in_use s = 0" by (auto simp: in_use_def filter_empty_conv in_set_conv_nth)
  moreover have "cl_point (db_calls s ! i) = At Connect"
    using False i inv by (auto simp: list_all_length holding_iff)
  ultimately show ?thesis using call_step.connected [of i s admits] i(1) serves [of 0] assms(1,4) by auto
qed

end

interpretation pg: client_pool "pool_size cfg" "\<lambda>n. n < pool_size cfg"
  by unfold_locales simp_all

text \<open>The size the gateway configures is never zero.\<close>

lemma pool_size_range:
  assumes "schema_ok uri_ok raw"
  shows "1 \<le> pool_size (buildServerConfig parse (with_defaults raw)) \<and> pool_size (buildServerConfig parse (with_defaults raw)) \<le> 200"
  using assms by (auto simp: schema_ok_def ranges_ok_def pool_size_def buildServerConfig_def nullish_def split: option.splits)

text \<open>A call that is over ran like the sequential operation, for the answers it got.\<close>

definition answered_by :: "(tx_command \<Rightarrow> bool) \<Rightarrow> (tx_command \<times> bool) list \<Rightarrow> bool" where
  "answered_by ok sent \<longleftrightarrow> (\<forall>(c, b) \<in> set sent. ok c = b)"

lemma over_trace:
  assumes "call_inv call" and "cl_point call = Over b"
  shows "\<not> b \<and> cl_sent call = [(Connect, False)]
      \<or> cl_kind call = QueryCall \<and> cl_sent call = [(Connect, True), (Work, b), (Release, True)]
      \<or> cl_kind call = TxCall \<and> b \<and> cl_sent call = [(Connect, True), (Begin, True), (Work, True), (Commit, True), (Release, True)]
      \<or> cl_kind call = TxCall \<and> \<not> b \<and> (\<exists>pre r. pre \<in> {[(Begin, False)], [(Begin, True), (Work, False)],
             [(Begin, True), (Work, True), (Commit, False)]}
           \<and> cl_sent call = [(Connect, True)] @ pre @ [(Rollback, r), (Release, True)])"
proof -
  consider (refused) "\<not> b" "cl_sent call = [(Connect, False)]"
    | (served_call) sent where "served (cl_kind call) b sent" "cl_sent call = sent @ [(Release, True)]"
    using assms by (auto simp: call_inv_def)
  then show ?thesis
  proof cases
    case served_call
    show ?thesis
    proof (cases "cl_kind call")
      case TxCall
      then show ?thesis using served_call by (cases b) (auto simp: served_def broken_off_def)
    qed (use served_call in \<open>simp add: served_def\<close>)
  qed simp
qed

lemma over_is_call_spec:
  assumes "call_inv call" and "cl_point call = Over b" and "answered_by ok (cl_sent call)"
  shows "map fst (cl_sent call) = snd (call_spec (cl_kind call) ok ())" "b = (fst (call_spec (cl_kind call) ok ()) \<noteq> None)"
proof -
  have "map fst (cl_sent call) = snd (call_spec (cl_kind call) ok ()) \<and> b = (fst (call_spec (cl_kind call) ok ()) \<noteq> None)"
    using over_trace [OF assms(1,2)]
  proof (elim disjE conjE exE)
    fix pre r
    assume *: "pre \<in> {[(Begin, False)], [(Begin, True), (Work, False)], [(Begin, True), (Work, True), (Commit, False)]}"
      and "\<not> b" "cl_kind call = TxCall" "cl_sent call = [(Connect, True)] @ pre @ [(Rollback, r), (Release, True)]"
    then show ?thesis using assms(3) by (elim insertE emptyE) (simp_all add: answered_by_def call_spec_def tx_def)
  qed (use assms(3) in \<open>simp_all add: answered_by_def call_spec_def db_query_def tx_def split: db_call.split\<close>)
  then show "map fst (cl_sent call) = snd (call_spec (cl_kind call) ok ())" "b = (fst (call_spec (cl_kind call) ok ()) \<noteq> None)"
    by simp_all
qed

section \<open>Properties\<close>

text \<open>
  C12. However queries and transactions share the pool the configuration gives the gateway: never more clients are handed out and not
  released than its size, which lies between 1 and 200. A call that is over either was refused a client, or sent the release exactly once,
  as its last command: a query after its one statement, whose answer it returns; a transaction that returns after \<open>BEGIN\<close>, the work and \<open>COMMIT\<close> resolved, and one that
  rejects after a first command that failed and a \<open>ROLLBACK\<close>. These are the commands of the sequential operation for the answers it got.
  Every step shortens what is left to do, and until the pool is ended, some call can take a step that succeeds as long as any call
  is not over. When all are over, every client that was handed out has been released.
\<close>

theorem pool_shared_safely:
  assumes "schema_ok uri_ok raw" and cap: "cap = pool_size (buildServerConfig parse (with_defaults raw))"
    and "client_pool cap admits" and reach: "db_reachable admits s"
  shows "in_use s \<le> cap \<and> 1 \<le> cap \<and> cap \<le> 200
    \<and> (\<forall>call b. call \<in> set (db_calls s) \<longrightarrow> cl_point call = Over b \<longrightarrow>
         (\<not> b \<and> cl_sent call = [(Connect, False)]
          \<or> cl_kind call = QueryCall \<and> cl_sent call = [(Connect, True), (Work, b), (Release, True)]
          \<or> cl_kind call = TxCall \<and> b \<and> cl_sent call = [(Connect, True), (Begin, True), (Work, True), (Commit, True), (Release, True)]
          \<or> cl_kind call = TxCall \<and> \<not> b \<and> (\<exists>pre r. pre \<in> {[(Begin, False)], [(Begin, True), (Work, False)],
                 [(Begin, True), (Work, True), (Commit, False)]}
               \<and> cl_sent call = [(Connect, True)] @ pre @ [(Rollback, r), (Release, True)]))
         \<and> (\<forall>ok. answered_by ok (cl_sent call) \<longrightarrow> map fst (cl_sent call) = snd (call_spec (cl_kind call) ok ())
            \<and> b = (fst (call_spec (cl_kind call) ok ()) \<noteq> None)))
    \<and> (\<forall>i b s'. call_step admits i b s s' \<longrightarrow> work_left s' < work_left s)
    \<and> (\<not> db_ended s \<longrightarrow> \<not> list_all (is_over \<circ> cl_point) (db_calls s) \<longrightarrow> (\<exists>j s'. call_step admits j True s s'))
    \<and> (list_all (is_over \<circ> cl_point) (db_calls s) \<longrightarrow> in_use s = 0)"
proof (intro conjI allI impI)
  note range = pool_size_range [OF assms(1), of parse, folded cap]
  note inv = reachable_calls [OF reach]
  show "in_use s \<le> cap" by (rule client_pool.reachable_bounded [OF assms(3) reach])
  show "1 \<le> cap" "cap \<le> 200" using range by simp_all
  show "work_left s' < work_left s" if "call_step admits i b s s'" for i b s' using that by (rule work_left_step)
  show "\<exists>j s'. call_step admits j True s s'" if "\<not> db_ended s" "\<not> list_all (is_over \<circ> cl_point) (db_calls s)"
    using client_pool.not_stuck [OF assms(3)] that range inv by (auto simp: list_all_length)
  show "in_use s = 0" if "list_all (is_over \<circ> cl_point) (db_calls s)"
    using that inv by (auto simp: in_use_def filter_empty_conv list_all_iff holding_iff)
  fix call b
  assume "call \<in> set (db_calls s)" and over: "cl_point call = Over b"
  then have c: "call_inv call" using inv by (auto simp: list_all_iff)
  show "\<not> b \<and> cl_sent call = [(Connect, False)]
      \<or> cl_kind call = QueryCall \<and> cl_sent call = [(Connect, True), (Work, b), (Release, True)]
      \<or> cl_kind call = TxCall \<and> b \<and> cl_sent call = [(Connect, True), (Begin, True), (Work, True), (Commit, True), (Release, True)]
      \<or> cl_kind call = TxCall \<and> \<not> b \<and> (\<exists>pre r. pre \<in> {[(Begin, False)], [(Begin, True), (Work, False)],
             [(Begin, True), (Work, True), (Commit, False)]}
           \<and> cl_sent call = [(Connect, True)] @ pre @ [(Rollback, r), (Release, True)])"
    by (rule over_trace [OF c over])
  show "map fst (cl_sent call) = snd (call_spec (cl_kind call) ok ())" "b = (fst (call_spec (cl_kind call) ok ()) \<noteq> None)"
    if "answered_by ok (cl_sent call)" for ok
    using over_is_call_spec [OF c over that] by simp_all
qed

text \<open>One transaction that has its client, beside a query that was refused.\<close>

definition sample_pool :: db_state where
  "sample_pool = \<lparr>db_calls = [settle Connect True (new_call TxCall), settle Connect False (new_call QueryCall)], db_ended = False\<rparr>"

lemma sample_pool_reachable: "db_reachable (\<lambda>n. n < 25) sample_pool"
proof -
  let ?s = "\<lparr>db_calls = [new_call TxCall, new_call QueryCall], db_ended = False\<rparr>"
  have 0: "db_reachable (\<lambda>n. n < 25) ?s"
    using arrive [OF arrive [OF start], of "\<lambda>n. n < 25" TxCall QueryCall] by simp
  have 1: "db_reachable (\<lambda>n. n < 25) (put_call 0 (settle Connect True (new_call TxCall)) ?s)"
    using step [OF 0 connected [of 0 ?s]] by (simp add: new_call_def in_use_def holding_def)
  show ?thesis
    using step [OF 1 refused [of 1 "put_call 0 (settle Connect True (new_call TxCall)) ?s"]] by (simp add: sample_pool_def new_call_def)
qed

theorem pool_shared_safely_witness:
  "in_use sample_pool \<le> 25 \<and> (\<exists>j s'. call_step (\<lambda>n. n < 25) j True sample_pool s')"
proof -
  have "pool_size (buildServerConfig (\<lambda>_. None) (with_defaults sample_raw)) = 25"
    by (simp add: pool_size_def buildServerConfig_def with_defaults_def sample_raw_def nullish_def)
  moreover have "\<not> list_all (is_over \<circ> cl_point) (db_calls sample_pool)" "\<not> db_ended sample_pool"
    by (simp_all add: sample_pool_def settle_def new_call_def)
  moreover have "client_pool 25 (\<lambda>n. n < 25)" by unfold_locales simp_all
  ultimately show ?thesis
    using pool_shared_safely [OF sample_schema, of 25 "\<lambda>_. None" "\<lambda>n. n < 25" sample_pool] sample_pool_reachable by simp
qed

end
