(* ===== verification/Routes.thy ===== *)
theory Routes
  imports Own_Endpoints Wiring
begin

text \<open>
  The routes of the gateway: what the decorators of the controllers declare (verb, path, \<open>@Public\<close>, \<open>@Roles\<close>, \<open>@UseGuards\<close>), collected over the
  controllers the modules register. The router is a library: its documented behaviour, by default without regard to case and to one slash at the end of
  the path, and with HEAD requests answered by GET handlers, is the locale \<open>router\<close>, and taking the first match is an instance. The guards run around the
  handler as the framework calls them, the global role guard first.

  Shown: the path lists of the middleware and the decorators of the controllers agree, so that a handler that is not public never sees an anonymous request, a
  role is always asked for where it is declared, every declared route can be reached, and a preflight request reaches none.
\<close>

section \<open>The routes\<close>

datatype segment = Lit string | Param string

record route =
  rt_verb :: string
  rt_path :: "segment list"
  rt_public :: bool
  rt_roles :: "string list option"
  rt_guarded :: bool
  rt_handler :: string

definition health_routes :: "route list" where
  "health_routes = [\<lparr>rt_verb = ''GET'', rt_path = [Lit ''health''], rt_public = True, rt_roles = None, rt_guarded = False,
     rt_handler = ''HealthController.check''\<rparr>]"

definition metrics_routes :: "route list" where
  "metrics_routes = [\<lparr>rt_verb = ''GET'', rt_path = [Lit ''metrics''], rt_public = True, rt_roles = None, rt_guarded = False,
     rt_handler = ''MetricsController.getMetrics''\<rparr>]"

definition decoy_route :: "string list \<Rightarrow> route" where
  "decoy_route path = \<lparr>rt_verb = ''GET'', rt_path = map Lit path, rt_public = True, rt_roles = None, rt_guarded = False,
     rt_handler = ''ShadowController''\<rparr>"

definition shadow_routes :: "route list" where
  "shadow_routes = map decoy_route
     [[''wp-login.php''], [''admin'', ''config.json''], [''.env''], [''api'', ''v1'', ''debug''], [''graphql'', ''introspection''],
      [''actuator'', ''health''], [''api'', ''v1'', ''internal'', ''keys'']]"

definition auth_routes :: "route list" where
  "auth_routes = [\<lparr>rt_verb = ''POST'', rt_path = [Lit ''auth'', Lit ''revoke''], rt_public = False, rt_roles = None, rt_guarded = True,
     rt_handler = ''AuthController.revoke''\<rparr>]"

definition mfa_route :: "string \<Rightarrow> string list \<Rightarrow> string \<Rightarrow> route" where
  "mfa_route verb path handler = \<lparr>rt_verb = verb, rt_path = Lit ''mfa'' # map Lit path, rt_public = False, rt_roles = None, rt_guarded = True,
     rt_handler = handler\<rparr>"

definition initiate_route :: route where
  "initiate_route = mfa_route ''POST'' [''initiate''] ''MfaController.initiate''"

definition verify_route :: route where
  "verify_route = mfa_route ''POST'' [''verify''] ''MfaController.verify''"

definition enroll_route :: route where
  "enroll_route = mfa_route ''POST'' [''enroll''] ''MfaController.enroll''"

definition confirm_route :: route where
  "confirm_route = mfa_route ''POST'' [''enroll'', ''confirm''] ''MfaController.confirmEnrollment''"

definition delete_enrollment_route :: route where
  "delete_enrollment_route = \<lparr>rt_verb = ''DELETE'', rt_path = [Lit ''mfa'', Lit ''admin'', Lit ''enrollment'', Param ''userId''], rt_public = False,
     rt_roles = Some [''admin''], rt_guarded = True, rt_handler = ''MfaController.adminDeleteEnrollment''\<rparr>"

definition mfa_routes :: "route list" where
  "mfa_routes = [initiate_route, verify_route, enroll_route, confirm_route, delete_enrollment_route]"

definition policy_admin_route :: "string \<Rightarrow> string \<Rightarrow> string \<Rightarrow> route" where
  "policy_admin_route verb path handler = \<lparr>rt_verb = verb, rt_path = [Lit ''policy'', Lit ''admin'', Lit path], rt_public = False,
     rt_roles = Some [''admin''], rt_guarded = False, rt_handler = ''PolicyAdminController.'' @ handler\<rparr>"

definition policy_admin_routes :: "route list" where
  "policy_admin_routes =
     [policy_admin_route ''GET'' ''rules'' ''listRules'', policy_admin_route ''POST'' ''rules'' ''addRule'',
      policy_admin_route ''DELETE'' ''rules'' ''removeRule'', policy_admin_route ''GET'' ''escalation'' ''getEscalation'',
      policy_admin_route ''POST'' ''escalation'' ''setEscalation'', policy_admin_route ''DELETE'' ''escalation'' ''clearEscalation'']"

definition audit_routes :: "route list" where
  "audit_routes = [\<lparr>rt_verb = ''GET'', rt_path = [Lit ''audit'', Lit ''logs''], rt_public = False, rt_roles = Some [''admin''], rt_guarded = False,
     rt_handler = ''AuditController.getLogs''\<rparr>]"

definition demo_routes :: "route list" where
  "demo_routes = [\<lparr>rt_verb = ''POST'', rt_path = [Lit ''demo'', Lit ''mfa-token''], rt_public = False, rt_roles = None, rt_guarded = True,
     rt_handler = ''DemoMfaController.mint''\<rparr>]"

definition controller_routes :: "(token \<times> route list) list" where
  "controller_routes =
     [(''HealthController'', health_routes), (''AuthController'', auth_routes), (''PolicyAdminController'', policy_admin_routes),
      (''MfaController'', mfa_routes), (''DemoMfaController'', demo_routes), (''MetricsController'', metrics_routes),
      (''AuditController'', audit_routes), (''ShadowController'', shadow_routes)]"

text \<open>The controllers the modules register, and their routes.\<close>

definition registered :: "bool \<Rightarrow> controller list" where
  "registered active = concat (map (\<lambda>m. m_controllers (decl active m)) all_modules)"

definition routes_of :: "controller \<Rightarrow> route list" where
  "routes_of ct = (case map_of controller_routes (fst (ct_class ct)) of None \<Rightarrow> [] | Some rs \<Rightarrow> rs)"

definition routes :: "bool \<Rightarrow> route list" where
  "routes active = concat (map routes_of (registered active))"

section \<open>Matching\<close>

fun seg_match :: "segment \<Rightarrow> string \<Rightarrow> bool" where
  "seg_match (Lit a) s = (to_lower s = to_lower a)"
| "seg_match (Param n) s = (s \<noteq> [])"

definition segments :: "string \<Rightarrow> string list" where
  "segments p = (let ss = tl (split_on CHR ''/'' p) in if ss \<noteq> [] \<and> last ss = [] then butlast ss else ss)"

definition path_matches :: "route \<Rightarrow> string \<Rightarrow> bool" where
  "path_matches r p = list_all2 seg_match (rt_path r) (segments p)"

definition verb_matches :: "route \<Rightarrow> string \<Rightarrow> bool" where
  "verb_matches r verb \<longleftrightarrow> verb = rt_verb r \<or> (verb = ''HEAD'' \<and> rt_verb r = ''GET'')"

definition route_matches :: "route \<Rightarrow> Request \<Rightarrow> bool" where
  "route_matches r req \<longleftrightarrow> verb_matches r (req_method req) \<and> path_matches r (req_path req)"

locale router =
  fixes active :: bool and select :: "Request \<Rightarrow> route option"
  assumes sound: "select req = Some r \<Longrightarrow> r \<in> set (routes active) \<and> route_matches r req"
    and complete: "r \<in> set (routes active) \<Longrightarrow> route_matches r req \<Longrightarrow> select req \<noteq> None"

definition first_route :: "bool \<Rightarrow> Request \<Rightarrow> route option" where
  "first_route active req = find (\<lambda>r. route_matches r req) (routes active)"

interpretation express: router active "first_route active"
  by unfold_locales (auto simp: first_route_def find_Some_iff find_None_iff)

section \<open>Guards around a handler\<close>

definition run_route ::
    "Deps \<Rightarrow> ms \<Rightarrow> route \<Rightarrow> (Request \<Rightarrow> 's \<Rightarrow> (gw_exn + 'r) \<times> 's \<times> bus_event list) \<Rightarrow> Request \<Rightarrow> 's \<Rightarrow> (gw_exn + 'r) \<times> 's \<times> bus_event list" where
  "run_route P now r handler req st =
     (if \<not> roles_guard (rt_roles r) req then (Inl (HttpException 403 ''Forbidden resource''), st, [])
      else if \<not> rt_guarded r then handler req st
      else (case jwt_guard (dp_jose P) (dp_auth P) now (rt_public r) req of
              (Inl m, req', es) \<Rightarrow> (Inl (HttpException 401 (nullish m ''Unauthorized'')), st, es)
            | (Inr _, req', es) \<Rightarrow> (case handler req' st of (s, st', es') \<Rightarrow> (s, st', es @ es'))))"

section \<open>Lemmas\<close>

text \<open>The endpoints of the other theories are routes of this table with their guards.\<close>

lemma own_call_is_route: "rt_guarded r \<Longrightarrow> \<not> rt_public r \<Longrightarrow> run_route P now r h = own_call P (rt_roles r) now h"
  by (auto simp: run_route_def own_call_def fun_eq_iff split: prod.splits sum.splits)

lemma admin_endpoint_is_route:
  assumes "\<not> rt_guarded r" and "rt_roles r = Some [''admin'']"
  shows "run_route P now0 r (\<lambda>req s. case admin_handler cb P now now' call s of (x, s') \<Rightarrow> (x, s', [])) req s =
    (case admin_endpoint cb P now now' call req s of (x, s') \<Rightarrow> (x, s', []))"
  using assms by (simp add: run_route_def admin_endpoint_def)

text \<open>Every controller the modules register has its routes in the table, and carries the token guard exactly where the module declares it.\<close>

lemma registered_covered:
  "\<forall>active. list_all (\<lambda>ct. routes_of ct \<noteq> [] \<and> list_all (\<lambda>r. rt_guarded r \<longleftrightarrow> JwtAuthGuard_class \<in> set (ct_guards ct)) (routes_of ct)) (registered active)"
  by code_simp

text \<open>What the table declares: a public route asks for nothing, the only role is that of the administrator, and no route takes a preflight.\<close>

lemma route_shapes:
  "\<forall>active. list_all (\<lambda>r. (rt_public r \<longrightarrow> \<not> rt_guarded r \<and> rt_roles r = None) \<and> rt_roles r \<in> {None, Some [''admin'']}
     \<and> rt_verb r \<noteq> ''OPTIONS'') (routes active)"
  by code_simp

lemma routes_eq:
  "routes active = health_routes @ auth_routes @ policy_admin_routes @ mfa_routes @ (if active then demo_routes else [])
     @ audit_routes @ shadow_routes @ metrics_routes"
proof -
  have "\<forall>active. routes active = health_routes @ auth_routes @ policy_admin_routes @ mfa_routes @ (if active then demo_routes else [])
     @ audit_routes @ shadow_routes @ metrics_routes" by code_simp
  then show ?thesis by blast
qed

text \<open>The path of a route, with a value for its parameter.\<close>

definition path_text :: "string \<Rightarrow> route \<Rightarrow> string" where
  "path_text v r = concat (map (\<lambda>s. ''/'' @ (case s of Lit a \<Rightarrow> a | Param n \<Rightarrow> v)) (rt_path r))"

lemmas route_defs = health_routes_def auth_routes_def policy_admin_routes_def policy_admin_route_def mfa_routes_def mfa_route_def initiate_route_def
  verify_route_def enroll_route_def confirm_route_def delete_enrollment_route_def demo_routes_def audit_routes_def shadow_routes_def decoy_route_def
  metrics_routes_def

text \<open>Only public routes match the open paths.\<close>

lemma open_segments:
  "map segments (PUBLIC_PATHS @ HONEYPOT_PATHS) =
     [[''health''], [''metrics''], [''wp-login.php''], [''.env''], [''admin'', ''config.json''], [''api'', ''v1'', ''debug''],
      [''graphql'', ''introspection''], [''actuator'', ''health''], [''api'', ''v1'', ''internal'', ''keys'']]"
  by code_simp

lemma lower_literals:
  "to_lower ''health'' = ''health''" "to_lower ''metrics'' = ''metrics''" "to_lower ''wp-login.php'' = ''wp-login.php''" "to_lower ''.env'' = ''.env''"
  "to_lower ''admin'' = ''admin''" "to_lower ''api'' = ''api''" "to_lower ''graphql'' = ''graphql''" "to_lower ''actuator'' = ''actuator''"
  "to_lower ''auth'' = ''auth''" "to_lower ''mfa'' = ''mfa''" "to_lower ''policy'' = ''policy''" "to_lower ''audit'' = ''audit''" "to_lower ''demo'' = ''demo''"
  by code_simp+

lemma open_paths_public:
  assumes "p \<in> set PUBLIC_PATHS \<or> p \<in> set HONEYPOT_PATHS" and "r \<in> set (routes active)" and "path_matches r p"
  shows "rt_public r"
proof (rule ccontr)
  assume "\<not> rt_public r"
  then obtain a ss where r: "rt_path r = Lit a # ss" "a \<in> {''auth'', ''mfa'', ''policy'', ''audit'', ''demo''}"
    using assms(2) unfolding routes_eq by (auto simp: route_defs split: if_splits)
  have "segments p \<in> set (map segments (PUBLIC_PATHS @ HONEYPOT_PATHS))" using assms(1) by auto
  then show False
    using assms(3) r(2) unfolding open_segments path_matches_def r(1) by (auto simp: lower_literals list_all2_Cons1)
qed

lemma routes_listed:
  assumes "r \<in> set (routes active)"
  shows "if rt_public r then path_text v r \<in> set (PUBLIC_PATHS @ HONEYPOT_PATHS) else isAuthOnlyPath (path_text v r)"
  using assms unfolding routes_eq
  by (auto simp: route_defs path_text_def PUBLIC_PATHS_def HONEYPOT_PATHS_def isAuthOnlyPath_def AUTH_ONLY_EXACT_def AUTH_ONLY_PREFIXES_def
      split: if_splits)

text \<open>The administrator's role is asked for on every administration path and for the audit trail, and nowhere else.\<close>

lemma admin_routes:
  assumes "r \<in> set (routes active)"
  shows "rt_roles r = Some [''admin''] \<longleftrightarrow> \<not> rt_public r \<and> (Lit ''admin'' \<in> set (rt_path r) \<or> Lit ''audit'' \<in> set (rt_path r))"
  using assms unfolding routes_eq by (auto simp: route_defs split: if_splits)

text \<open>A route the router selects for a request that came through.\<close>

lemma selected_route:
  assumes router: "router active select"
    and through: "fst (gateway_use P e req) = Next" "req' = sx_req (fst (snd (gateway_use P e req)))"
    and sel: "select req' = Some r"
  shows "(rt_public r \<or> (\<exists>cl. authenticated P e req cl \<and> req' = req\<lparr>user := Some cl, gateway_validated := True\<rparr>))
    \<and> run_route P now r h req' st =
        (if rt_roles r = None \<or> (\<exists>cl. authenticated P e req cl \<and> isAuthOnlyPath (req_path req) \<and> ''admin'' \<in> set (roles cl)) then h req' st
         else (Inl (HttpException 403 ''Forbidden resource''), st, []))"
proof -
  have r: "r \<in> set (routes active)" "route_matches r req'" using router.sound [OF router sel] by simp_all
  have shape: "rt_public r \<Longrightarrow> \<not> rt_guarded r \<and> rt_roles r = None" "rt_roles r \<in> {None, Some [''admin'']}" "rt_verb r \<noteq> ''OPTIONS''"
    using route_shapes r(1) by (auto simp: list_all_iff)
  have "req_method req \<noteq> ''OPTIONS''"
  proof
    assume o: "req_method req = ''OPTIONS''"
    then have "req_method req' = ''OPTIONS''" using through(2) by (simp add: gateway_use_def Let_def buildStageContext_def)
    then show False using r(2) shape(3) by (simp add: route_matches_def verb_matches_def)
  qed
  note nr = next_run [OF through(1) this]
  have open_public: "rt_public r" if "req_path req' \<in> set PUBLIC_PATHS \<or> req_path req' \<in> set HONEYPOT_PATHS"
    using open_paths_public r that by (simp add: route_matches_def)
  show ?thesis
  proof (cases "req_path req \<in> set PUBLIC_PATHS \<or> req_path req \<in> set HONEYPOT_PATHS")
    case True
    then have none: "\<not> authenticated P e req cl" for cl by (auto simp: authenticated_def)
    then have "req' = req" unfolding through(2) nr(2) bypass_context [OF nr(1)] by (simp split: AuthOutcome.split)
    then have "rt_public r" using open_public True by simp
    then have "rt_public r" "run_route P now r h req' st = h req' st" "rt_roles r = None"
      using shape(1) by (simp_all add: run_route_def roles_guard_def)
    then show ?thesis by simp
  next
    case False
    then obtain cl where cl: "authenticated P e req cl" "isAuthOnlyPath (req_path req)" using nr(1) unfolding bypass_iff by blast
    then have a: "authenticate (dp_jose P) (dp_auth P) req = AuthOk cl" by (simp add: authenticated_def)
    then have req': "req' = req\<lparr>user := Some cl, gateway_validated := True\<rparr>"
      using cl unfolding through(2) nr(2) bypass_context [OF nr(1)] by simp
    have same: "cl' = cl" if "authenticated P e req cl'" for cl' using that a by (simp add: authenticated_def)
    have "run_route P now r h req' st = (if rt_roles r = None \<or> ''admin'' \<in> set (roles cl) then h req' st
         else (Inl (HttpException 403 ''Forbidden resource''), st, []))"
      using shape(2) unfolding req' by (auto simp: run_route_def roles_guard_def jwt_guard_def split: prod.splits)
    moreover have "(\<exists>cl'. authenticated P e req cl' \<and> isAuthOnlyPath (req_path req) \<and> ''admin'' \<in> set (roles cl')) \<longleftrightarrow> ''admin'' \<in> set (roles cl)"
      using cl same by blast
    moreover have "\<exists>cl. authenticated P e req cl \<and> req' = req\<lparr>user := Some cl, gateway_validated := True\<rparr>" using cl(1) req' by blast
    ultimately show ?thesis by simp
  qed
qed

text \<open>
  A decoy only answers GET and HEAD: any other request to its path goes past every stage to the router, which has no route for it, so that its
  sender is not trapped.
\<close>

lemma public_routes_get: "r \<in> set (routes active) \<Longrightarrow> rt_public r \<Longrightarrow> rt_verb r = ''GET''"
  unfolding routes_eq by (auto simp: route_defs split: if_splits)

lemma decoy_ignores_other_verbs:
  assumes "router active select" and "req_path req \<in> set HONEYPOT_PATHS" and "req_method req \<notin> {''GET'', ''HEAD''}"
  shows "fst (gateway_use P e req) = Next" "select req = None"
proof -
  show "fst (gateway_use P e req) = Next"
  proof (cases "req_method req = ''OPTIONS''")
    case False
    have "fst (orchestrator_run P e PIPELINE_STAGES (buildStageContext e req)) = Inr Bypass" unfolding bypass_iff using assms(2) by blast
    then show ?thesis using False
      by (cases "orchestrator_run P e PIPELINE_STAGES (buildStageContext e req)") (simp add: gateway_use_def respond_def writeOutcome_def)
  qed (simp add: gateway_use_def Let_def)
  show "select req = None"
  proof (rule ccontr)
    assume "select req \<noteq> None"
    then obtain r where r: "r \<in> set (routes active)" "route_matches r req" using router.sound [OF assms(1)] by blast
    then have "rt_public r" using open_paths_public assms(2) by (auto simp: route_matches_def)
    then show False using public_routes_get [OF r(1)] r(2) assms(3) by (auto simp: route_matches_def verb_matches_def)
  qed
qed

section \<open>Properties\<close>

text \<open>
  C9. The decorators of the controllers and the path lists of the middleware enforce the same thing, for every router with the documented behaviour. Let a
  request come through the middleware and let the router select a route for it. Then the route is public, or the request carries the claims of its
  authenticated and unrevoked token; and the handler runs, on exactly that request and without authenticating it again, unless the route declares
  the administrator's role and the token does not carry it, in which case the answer is 403 and nothing changes. Conversely every declared
  route can be reached: its path is one the middleware hands on, open if it is public and after authentication if it is not; and the role is
  declared on every administration path and for the audit trail, and nowhere else.
\<close>

theorem routes_enforced:
  assumes router: "router active select"
    and through: "fst (gateway_use P e req) = Next" "req' = sx_req (fst (snd (gateway_use P e req)))"
    and sel: "select req' = Some r"
  shows "(rt_public r \<or> (\<exists>cl. authenticated P e req cl \<and> req' = req\<lparr>user := Some cl, gateway_validated := True\<rparr>))
    \<and> run_route P now r h req' st =
        (if rt_roles r = None \<or> (\<exists>cl. authenticated P e req cl \<and> isAuthOnlyPath (req_path req) \<and> ''admin'' \<in> set (roles cl)) then h req' st
         else (Inl (HttpException 403 ''Forbidden resource''), st, []))
    \<and> (\<forall>q v. q \<in> set (routes active) \<longrightarrow>
         (if rt_public q then path_text v q \<in> set (PUBLIC_PATHS @ HONEYPOT_PATHS) else isAuthOnlyPath (path_text v q))
         \<and> (rt_roles q = Some [''admin''] \<longleftrightarrow> \<not> rt_public q \<and> (Lit ''admin'' \<in> set (rt_path q) \<or> Lit ''audit'' \<in> set (rt_path q))))"
  using selected_route [OF assms, of now h st] routes_listed admin_routes by (intro conjI allI impI) blast+

text \<open>The administrator of the samples asks for the threat level.\<close>

theorem routes_enforced_witness:
  "\<exists>r. first_route False (sx_req (fst (snd (gateway_use admin_deps (pipe_env flaky_env pipe_start) admin_request)))) = Some r
    \<and> run_route admin_deps 0 r (\<lambda>req s. (Inr (user req \<noteq> None), s, []))
        (sx_req (fst (snd (gateway_use admin_deps (pipe_env flaky_env pipe_start) admin_request)))) () = (Inr True :: gw_exn + bool, (), [])"
proof -
  let ?e = "pipe_env flaky_env pipe_start" and ?r = "policy_admin_route ''GET'' ''escalation'' ''getEscalation''"
  define q where "q = sx_req (fst (snd (gateway_use admin_deps ?e admin_request)))"
  have m: "req_method admin_request \<noteq> ''OPTIONS''" using admin_sample(2) by simp
  obtain cl where cl: "authenticated admin_deps ?e admin_request cl" "''admin'' \<in> set (roles cl)"
    "authenticate (dp_jose admin_deps) (dp_auth admin_deps) admin_request = AuthOk cl"
    using admin_sample_authenticated(1) admin_sample(4) by fastforce
  then have q: "q = admin_request\<lparr>user := Some cl, gateway_validated := True\<rparr>"
    using admin_sample_authenticated(2) unfolding q_def next_run(2) [OF admin_sample_next m] bypass_context [OF next_run(1) [OF admin_sample_next m]]
    by simp
  then have "req_method q = ''GET''" "req_path q = ''/policy/admin/escalation''"
    using admin_sample(2,3) by (simp_all add: req_path_def raw_url_def)
  moreover have "segments ''/policy/admin/escalation'' = [''policy'', ''admin'', ''escalation'']" by code_simp
  ultimately have "route_matches ?r q" by (simp add: route_matches_def verb_matches_def path_matches_def policy_admin_route_def)
  moreover have "?r \<in> set (routes False)" by (simp add: routes_eq policy_admin_routes_def)
  ultimately obtain r where r: "first_route False q = Some r" using express.complete by blast
  let ?h = "\<lambda>req s. (Inr (user req \<noteq> None) :: gw_exn + bool, s, [] :: bus_event list)"
  have "run_route admin_deps 0 r ?h q () = ?h q ()"
    using routes_enforced [OF express.router_axioms admin_sample_next q_def r, of 0 ?h "()"] cl(1,2) admin_sample_authenticated(2)
    by (metis (no_types, lifting))
  then have "run_route admin_deps 0 r ?h q () = (Inr True, (), [])" unfolding q by simp
  then show ?thesis using r unfolding q_def by blast
qed

end
