(* ===== verification/Spec2Isabelle.thy ===== *)
theory Spec2Isabelle
  imports Server Own_Endpoints Startup Stage_Types Logging Mtls Challenge_Tx Telemetry_Tx Trust_Bounds Rule_Mutex Enroll_Race Audit_Rows Demo_Services Demo_Tools
    Wiring Db_Pool Routes
begin

text \<open>
  \<^bold>\<open>A verification of the zero-trust access gateway\<close> (\<open>src/src\<close>, TypeScript on NestJS), with the demonstration
  services and tools beside it (\<open>src/microservices\<close>, \<open>src/scripts\<close>).

  \<^bold>\<open>The program.\<close> The gateway sits in front of a set of services. Every request goes through \<open>Ja4hMiddleware\<close>, which
  computes a fingerprint and turns away blacklisted clients, and \<open>GatewayMiddleware\<close>, which runs thirteen stages in order:
  two bypasses for public and decoy paths, authentication, revocation, a bypass for the gateway's own endpoints, the
  trust score, a proof of work, the policy, the promotion by an MFA token, the blocking audit write, the proxy
  call, the stripping of the response, and the recording of the trust telemetry. A stage continues, hands the request
  to the router, answers it, or throws. The services behind the stages share in-memory stores, a PostgreSQL database and an
  event bus on which the threat escalation service listens: denials, forged tokens, decoy hits and MFA abuse raise the
  threat level, which tightens the thresholds of the policy.

  \<^bold>\<open>Theories, in the order of the imports.\<close>

  \<^item> \<open>Prelude\<close>: strings, JavaScript maps as ordered association lists, shared lemmas. \<open>Events\<close>: the bus
    (\<open>policy-events.ts\<close>, \<open>metrics-events.ts\<close>, \<open>typed-events.ts\<close>). \<open>Config\<close>: the slices of \<open>config/slices\<close> as records.
    \<open>JsNum\<close>: JavaScript numbers, with every rounding an argument. \<open>JsText\<close>: \<open>Number(s)\<close> and \<open>toISOString\<close>.
    \<open>Http\<close>: requests, JSON values, \<open>request-context.util.ts\<close>. \<open>Base64\<close>: the codec bit for bit.
  \<^item> \<open>Ttl_Store\<close>: the contract of the expiring stores as the locales \<open>lazy_reads\<close> and \<open>ttl_store\<close>, interpreted on
    the blacklist, the revocations, the pending enrolments and the used nonces.
  \<^item> \<open>Threat\<close> (\<open>policy/threat-escalation.service.ts\<close>): the state machine with its window, levels, cooldown and override. Shown:
    an invariant of all reachable states, that a signal sets the level of an abstract specification, stickiness of
    the override, the cooldown ladder, and that the thresholds of an accepted configuration tighten with the level.
  \<^item> \<open>Fingerprint\<close>, \<open>Telemetry\<close>, \<open>TrustScore\<close> (\<open>fingerprint/\<close>, \<open>trust-score/\<close>): the blacklist, the two tables with
    their transaction, rules, providers and decay. Shown: refusal until expiry, consistency of the tables over all
    recordings, Welford's update with rounding and, in exact arithmetic, against the batch formula, decay that never lowers the risk.
    \<open>Trust_Bounds\<close>: the numeric columns stay well-formed under concurrent recordings, so the score lies between 0 and 1.
  \<^item> \<open>Policy\<close> (\<open>policy-evaluator.service.ts\<close>): what justifies an ALLOW, denial on enforcer errors, monotonicity in the
    threat level, and that a flood of denials escalates. \<open>Auth\<close> (\<open>auth/\<close>): soundness of accepted claims, revocation exactly until expiry.
  \<^item> \<open>Hashcash\<close> (\<open>hashcash/\<close>): soundness of accepted solutions, single use of a nonce, redeemability of issued
    challenges, and the padding that lets one proof be used more than once.
  \<^item> \<open>Audit_Trail\<close> (\<open>audit/\<close>): the retrying writer, fail-closed for ALLOW rows. \<open>Proxy\<close>, \<open>Bopla\<close> (\<open>proxy/\<close>): where a request may
    go and with which headers, and what is left of the response.
  \<^item> \<open>Totp\<close>, \<open>Mfa\<close>, \<open>Mfa_Histories\<close> (\<open>shared/totp.util.ts\<close>, \<open>shared/aes-gcm.util.ts\<close>, \<open>mfa/\<close>): codes bit for bit, tables, services and
    endpoints; then, over all histories of calls, the mint of the demonstration endpoint included: a token is accepted only after a correct code, or a
    demonstration mint, of the same user, device and address, and for no other; the rate of challenges and the number of guesses are bounded, enrolment makes verification possible.
  \<^item> \<open>Honeypot\<close>, \<open>Metrics\<close> (\<open>honeypot/\<close>, \<open>metrics/\<close>): the trap and its lasting effect; the counters.
  \<^item> \<open>Mtls\<close> (\<open>shared/mtls.service.ts\<close>, \<open>shared/cert-monitor.service.ts\<close>): the certificate cache with a shared load and a monitor, as a
    step relation over callers, loads and polls; which agent a caller gets.
  \<^item> \<open>Pipeline\<close> (\<open>gateway/\<close>): context, stages, orchestrator, writer, terminal errors, middleware, exception filter.
    \<open>Pipeline_Contracts\<close>: what a stage may do to context and shared state, as locales interpreted on all thirteen stages.
    \<open>Pipeline_System\<close>: many requests at once, as a step relation. \<open>Pipeline_Admission\<close>: which requests
    reach the upstream or a controller, that every run ends in an answer, and that in every reachable state each
    upstream call has its ALLOW row.
  \<^item> \<open>Admin\<close> (\<open>policy-admin.controller.ts\<close>, \<open>audit.controller.ts\<close>, their request types, \<open>demo-mfa/\<close>): who may administer, end to end.
    \<open>Own_Endpoints\<close>: the MFA and revocation endpoints with their guards and the validation of their bodies.
    \<open>Logging\<close> (\<open>gateway/pipeline/logging\<close>): the narration around the stages and that it changes nothing.
    \<open>Boot\<close> (\<open>config.module.ts\<close>, the slice builders, \<open>main.ts\<close>, \<open>db.service.ts\<close>, the start of registry, breakers and field policy):
    that an accepted environment gives the configuration the other theories assume. \<open>Startup\<close>: the boot sequence of \<open>main.ts\<close> with its
    hooks, and what holds of a gateway that listens. \<open>Server\<close> (\<open>main.ts\<close>, \<open>app.module.ts\<close>, health and metrics endpoints): the way of a
    request from the socket, so that the theorems of the pipeline become theorems of the server.
  \<^item> \<open>Stage_Types\<close>: preservation and progress for the optional fields of the stage context; the run-time checks of the
    stages never fire. \<open>Audit_Rows\<close>: the texts of the audit table and the numbers they are read as.
  \<^item> \<open>Locking\<close>: the locale \<open>lock_protocol\<close>, interpreted on three pieces of code whose steps other calls come between. \<open>Challenge_Tx\<close>
    (\<open>mfa-challenge.repository.ts\<close>): the challenge transaction under the advisory lock keeps the rate limit, and does not without a common
    lock. \<open>Telemetry_Tx\<close> (\<open>trust-telemetry.repository.ts\<close>): the upsert under the row lock keeps the tables bounded, and loses a count when two
    first recordings meet. \<open>Rule_Mutex\<close> (\<open>policy-evaluator.service.ts\<close>): rule changes under the writer mutex are sequential and durable.
    \<open>Enroll_Race\<close> (\<open>mfa-enroller.service.ts\<close>): an operation with no lock, and what two overlapping calls do.
  \<^item> \<open>Db_Pool\<close> (\<open>db/db.service.ts\<close>): queries and transactions as concurrent calls on the bounded connection pool. Shown: the bound, that each call
    sends the commands of the sequential operation of \<open>Boot\<close> and ends with the release of its client, and that no mixture of calls gets stuck.
  \<^item> \<open>Wiring\<close> (the \<open>*.module.ts\<close> files and the constructors of all registered classes): the declarations as tables, the scoping rules of the
    container as the locale \<open>container\<close>. Shown: every parameter resolves where it is needed, nothing waits for itself, every
    store exists once, repositories stay private to their modules, and the stages are injected in the order the pipeline runs them.
  \<^item> \<open>Routes\<close> (the decorators of all controllers): verbs, paths, public markers, roles and guards, with the router as the locale \<open>router\<close>. Shown: the path
    lists of the middleware and the decorators agree, so that no handler that needs a user or a role runs without, and every route can be reached.
  \<^item> \<open>Demo_Services\<close> (\<open>microservices/\<close>): the upstream server with its start, its two services, and that the shipped field policy protects what it
    should. \<open>Demo_Tools\<close> (\<open>scripts/\<close>): the solver, the token mint and the authenticator against the services they are made for.

  \<^bold>\<open>State, errors, time.\<close> A service with state is a function from its state to its result, its new state and the events
  it emits; exceptions are values. Every clock reading is an argument. Queries that may fail draw their outcome from a record of the
  surroundings of the call, so the theorems hold for every pattern of failures. Numbers are the reals with the three special
  values; \<open>fp_ok\<close> says what the theorems need of rounding to the nearest (monotone, odd, idempotent, exact on 0 and 1, never more than doubling), and the witnesses use exact
  arithmetic. Loops are structural or carry their bound from the code (the retries of the audit writer and of the
  proxy, the window of codes, the stages), so no definition needs fuel; the one loop that may not end, the proof-of-work solver,
  is a partial function, and its theorem says when it returns.

  \<^bold>\<open>Concurrency.\<close> JavaScript runs one callback at a time. In \<open>Pipeline\<close> each stage finds an arbitrary shared state, so
  theorems about one request hold whatever others do between its stages; in \<open>Pipeline_System\<close> the states are connected. A stage
  is one step: interleavings inside a stage are covered where a component makes them explicit, as the reads of the trust score,
  the loads of the certificates, the connection pool and the four transaction theories do, and otherwise not. There the steps of one call are the points at
  which it waits; a call may fail at any of them. A database statement sees what was committed before it, as at the isolation
  level the code runs at, and the time of a transaction is that of its start.

  \<^bold>\<open>Third-party code\<close> is an argument: digests, ciphers and random bytes, the \<open>jose\<close> library, Casbin, glob matching, URL
  parsing, DNS, axios, the circuit breaker, JSON text, X.509, terminal colours. Assumptions on it are named and documented
  behaviour only: \<open>json_ok\<close> and \<open>json_codec\<close> (parsing what was printed), \<open>sign_ok\<close> (tokens are read back as they were signed), \<open>jwt_ok\<close> (verification accepts exactly what was signed with the key),
  \<open>gcm_ok\<close> (decryption inverts encryption), \<open>container\<close> (what a module sees), \<open>client_pool\<close> (when a client is handed out), \<open>router\<close> (which routes match). Each has a concrete instance in the witnesses.

  \<^bold>\<open>Not modelled.\<close> The inside of the framework: its router beyond what it matches (the theorems hold for whatever
  matching handler it selects), the order in which it scans modules and calls their hooks, and request-scoped instances, of which there are none;
  what helmet, CORS, the rate limiter and the body parser do inside, which are parameters of the server; the inside of the connection
  pool, of which the bound and the service of waiting calls are assumed; TLS handshakes; how Joi and class-validator convert text
  and word their errors; rendering by the Prometheus client; column widths and SQL text, whose effect on rows is modelled instead;
  console output other than the narration.
\<close>

end
